theory Spec2Isabelle
  imports Complex_Main "HOL-Library.Log_Nat"
begin

section \<open>JavaScript values\<close>

text \<open>
  The server is JavaScript. A finite \<^verbatim>\<open>Number\<close> is modelled as the real number it denotes,
  with the three non-finite values beside it. A \<^verbatim>\<open>BigInt\<close> is an \<^typ>\<open>int\<close>. The
  conversion \<^verbatim>\<open>Number(n)\<close> of a BigInt, the division and the multiplication of Numbers
  round their exact result to the nearest IEEE double, which \<open>toDouble\<close> does. A string is
  a \<^typ>\<open>string\<close>, its characters read as the code units \<open>U+0000\<close> to \<open>U+00FF\<close>.
\<close>

datatype js_number = NaN | Fin real | PosInfinity | NegInfinity

datatype js_value = JUndefined | JNull | JBoolean bool | JNumber js_number | JString string

text \<open>\<^verbatim>\<open>x > c\<close>, \<^verbatim>\<open>x >= c\<close>, \<^verbatim>\<open>x < c\<close> and \<^verbatim>\<open>x <= c\<close> for a number \<open>x\<close> and a
  finite constant \<open>c\<close>: every comparison with \<^verbatim>\<open>NaN\<close> is false.\<close>

fun js_gt :: "js_number \<Rightarrow> real \<Rightarrow> bool" where
  "js_gt NaN c = False"
| "js_gt (Fin x) c = (x > c)"
| "js_gt PosInfinity c = True"
| "js_gt NegInfinity c = False"

fun js_ge :: "js_number \<Rightarrow> real \<Rightarrow> bool" where
  "js_ge NaN c = False"
| "js_ge (Fin x) c = (x \<ge> c)"
| "js_ge PosInfinity c = True"
| "js_ge NegInfinity c = False"

fun js_lt :: "js_number \<Rightarrow> real \<Rightarrow> bool" where
  "js_lt NaN c = False"
| "js_lt (Fin x) c = (x < c)"
| "js_lt PosInfinity c = False"
| "js_lt NegInfinity c = True"

fun js_le :: "js_number \<Rightarrow> real \<Rightarrow> bool" where
  "js_le NaN c = False"
| "js_le (Fin x) c = (x \<le> c)"
| "js_le PosInfinity c = False"
| "js_le NegInfinity c = True"

subsection \<open>Double-precision arithmetic\<close>

text \<open>The integer nearest to a real number, a tie resolved to the even one.\<close>

definition roundHalfEven :: "real \<Rightarrow> int" where
  "roundHalfEven x =
     (let f = \<lfloor>x\<rfloor>; d = x - of_int f
      in if d < 1 / 2 then f else if 1 / 2 < d then f + 1 else if even f then f else f + 1)"

text \<open>The exponent \<open>e\<close> of the binade \<open>2 ^ e \<le> \<bar>x\<bar> < 2 ^ (e + 1)\<close> of a number other than
  zero, and \<open>-1022\<close> for a subnormal one.\<close>

definition binadeExponent :: "real \<Rightarrow> int" where
  "binadeExponent x = max \<lfloor>log 2 \<bar>x\<bar>\<rfloor> (- 1022)"

text \<open>
  The double nearest to a real number: the significand has 53 bits, so the doubles of the
  binade of \<open>x\<close> are the multiples of \<open>2 ^ (e - 52)\<close>, and a tie goes to the even multiple.
  The counts of the ledger are below \<open>2 ^ 256\<close> and every number computed from them here
  is far below \<open>2 ^ 1024\<close>, so the overflow to \<^verbatim>\<open>Infinity\<close> is not modelled; the two
  zeros are one.
\<close>

definition toDouble :: "real \<Rightarrow> real" where
  "toDouble x =
     (if x = 0 then 0
      else (let ulp = 2 powi (binadeExponent x - 52)
            in sgn x * (of_int (roundHalfEven (\<bar>x\<bar> / ulp)) * ulp)))"

text \<open>\<^verbatim>\<open>Number(n)\<close> of a BigInt, \<^verbatim>\<open>x / y\<close> and \<^verbatim>\<open>x * y\<close> of two Numbers. The program
  divides by the conversion of a count that it has found not to be zero.\<close>

definition Number_BigInt :: "int \<Rightarrow> real" where
  "Number_BigInt n = toDouble (of_int n)"

definition js_divide :: "real \<Rightarrow> real \<Rightarrow> real" where
  "js_divide x y = toDouble (x / y)"

definition js_times :: "real \<Rightarrow> real \<Rightarrow> real" where
  "js_times x y = toDouble (x * y)"

text \<open>\<^verbatim>\<open>Math.round\<close> gives the nearest integer, a tie towards \<open>+\<infinity>\<close>; it does not
  round its result, which is a double whenever its argument is.\<close>

definition Math_round :: "real \<Rightarrow> int" where
  "Math_round x = \<lfloor>x + 1 / 2\<rfloor>"

text \<open>\<^verbatim>\<open>x.toFixed(4)\<close> writes the decimal with four fraction digits nearest to the exact
  value of \<open>x\<close>, the sign taken off first and a tie resolved to the larger magnitude;
  \<open>toFixed4\<close> is the number that this string denotes, for \<open>\<bar>x\<bar> < 10 ^ 21\<close>.
  \<^verbatim>\<open>Number(x.toFixed(4))\<close> reads the string back as the nearest double.\<close>

definition toFixed4 :: "real \<Rightarrow> real" where
  "toFixed4 x =
     (if x < 0 then - (of_int \<lfloor>(- x) * 10000 + 1 / 2\<rfloor> / 10000)
      else of_int \<lfloor>x * 10000 + 1 / 2\<rfloor> / 10000)"

definition Number_toFixed4 :: "real \<Rightarrow> real" where
  "Number_toFixed4 x = toDouble (toFixed4 x)"

section \<open>Risk and verdict classification\<close>

text \<open>The ledger record after \<^verbatim>\<open>parseRecord\<close>: the contract's \<^verbatim>\<open>uint256\<close> fields as
  BigInts, so never negative and below \<open>2 ^ 256\<close>.\<close>

record parsed_record =
  score :: nat
  totalFeedback :: nat
  positiveFeedback :: nat
  lastUpdated :: nat
  exists :: bool

text \<open>Modelled from the spec: the scoring configuration is loaded by
  \<^verbatim>\<open>loadScoringConfigFromEnv\<close> of \<^verbatim>\<open>./scoring\<close>, which is not among the sources; the spec
  gives \<^verbatim>\<open>confidenceThresholdFeedbackCount\<close> as an unsigned integer and
  \<^verbatim>\<open>negativeFlagThresholdBps\<close> as an integer number of basis points.\<close>

record scoring_config =
  confidenceThresholdFeedbackCount :: nat
  negativeFlagThresholdBps :: int

record risk_report =
  confidence :: real
  negativeRateBps :: int
  flagged :: bool
  riskFactors :: "string list"
  recentTrend :: string

text \<open>
  \<^verbatim>\<open>buildRiskReport({ parsedRecord, scoringConfig, pollIntervalMs })\<close>. The clock read
  \<^verbatim>\<open>Date.now()\<close> is the explicit argument \<open>nowMs\<close>. \<^verbatim>\<open>negative = total - positive\<close> is a
  BigInt subtraction, which can go below zero. The confidence and the negative rate are
  computed on doubles: \<^verbatim>\<open>Number(total) / Number(threshold)\<close> and
  \<^verbatim>\<open>Math.round((Number(negative) / Number(total)) * 10_000)\<close>, each conversion, the
  division and the multiplication rounding. The three \<^verbatim>\<open>push\<close> calls are the three
  steps \<open>rf1\<close>, \<open>rf2\<close>, \<open>rf3\<close>. The age is a difference of whole seconds, exact for
  every time stamp below \<open>2 ^ 53\<close>; a later one is past every clock reading and has age 0.
\<close>

definition buildRiskReport :: "parsed_record \<Rightarrow> scoring_config \<Rightarrow> nat \<Rightarrow> nat \<Rightarrow> risk_report" where
  "buildRiskReport parsedRecord scoringConfig pollIntervalMs nowMs =
     (let total = int (totalFeedback parsedRecord);
          positive = int (positiveFeedback parsedRecord);
          negative = total - positive;
          confidenceThreshold = int (confidenceThresholdFeedbackCount scoringConfig);
          conf = (if confidenceThreshold = 0 then 1
                  else min 1 (js_divide (Number_BigInt total) (Number_BigInt confidenceThreshold)));
          bps = (if total = 0 then 0
                 else Math_round (js_times (js_divide (Number_BigInt negative) (Number_BigInt total))
                                     10000));
          flg = (total > 0 \<and> bps > negativeFlagThresholdBps scoringConfig);
          rf1 = (if total < confidenceThreshold then [] @ [''low_feedback_volume''] else []);
          rf2 = (if flg then rf1 @ [''high_negative_feedback_ratio''] else rf1);
          rf3 = (if int (score parsedRecord) < 500 then rf2 @ [''low_trust_score''] else rf2);
          nowSeconds = int (nowMs div 1000);
          ageSeconds = max 0 (nowSeconds - int (lastUpdated parsedRecord));
          trend = (if (of_int ageSeconds :: real) > of_nat pollIntervalMs / 1000 * 2 then ''stale''
                   else if length rf3 = 0 then ''stable''
                   else ''caution'')
      in \<lparr> confidence = Number_toFixed4 conf,
           negativeRateBps = bps,
           flagged = flg,
           riskFactors = rf3,
           recentTrend = trend \<rparr>)"

text \<open>The confidence of the \<^verbatim>\<open>GET /score/:agentId\<close> handler:
  \<^verbatim>\<open>Number(threshold) || 1\<close> replaces a threshold whose conversion is zero by 1 before
  the division.\<close>

definition scoreConfidence :: "parsed_record \<Rightarrow> scoring_config \<Rightarrow> real" where
  "scoreConfidence parsedRecord scoringConfig =
     (let confidenceThreshold =
            (if Number_BigInt (int (confidenceThresholdFeedbackCount scoringConfig)) = 0 then 1
             else Number_BigInt (int (confidenceThresholdFeedbackCount scoringConfig)));
          conf = min 1 (js_divide (Number_BigInt (int (totalFeedback parsedRecord)))
                                  confidenceThreshold)
      in Number_toFixed4 conf)"

text \<open>\<^verbatim>\<open>resolveVerdict(score)\<close>: anything whose \<^verbatim>\<open>typeof\<close> is not \<^verbatim>\<open>"number"\<close>, and
  \<^verbatim>\<open>NaN\<close>, is \<^verbatim>\<open>UNKNOWN\<close>.\<close>

fun resolveVerdict :: "js_value \<Rightarrow> string" where
  "resolveVerdict (JNumber n) =
     (if n = NaN then ''UNKNOWN''
      else if js_gt n 700 then ''TRUSTED''
      else if js_ge n 400 then ''CAUTION''
      else ''DANGEROUS'')"
| "resolveVerdict _ = ''UNKNOWN''"

text \<open>\<^verbatim>\<open>resolveConfidenceBand(totalFeedback)\<close>, called on \<^verbatim>\<open>Number(totalFeedback)\<close>.\<close>

definition resolveConfidenceBand :: "real \<Rightarrow> string" where
  "resolveConfidenceBand n =
     (if n \<ge> 50 then ''high'' else if n > 0 then ''low'' else ''none'')"

subsection \<open>The classification as the specification words it\<close>

text \<open>A score is numeric when it is a number other than \<^verbatim>\<open>NaN\<close>; \<open>numberOf\<close> reads it.\<close>

fun isNumeric :: "js_value \<Rightarrow> bool" where
  "isNumeric (JNumber n) = (n \<noteq> NaN)"
| "isNumeric _ = False"

fun numberOf :: "js_value \<Rightarrow> js_number" where
  "numberOf (JNumber n) = n"
| "numberOf _ = NaN"

definition clamp :: "real \<Rightarrow> real \<Rightarrow> real \<Rightarrow> real" where
  "clamp x lo hi = max lo (min hi x)"

text \<open>The specification's confidence and negative rate as exact real numbers, before any
  rounding, and the negative rate rounded to the nearest integer, a tie upwards.\<close>

definition spec_confidence :: "parsed_record \<Rightarrow> scoring_config \<Rightarrow> real" where
  "spec_confidence r c =
     (if confidenceThresholdFeedbackCount c = 0 then 1
      else clamp (of_nat (totalFeedback r) / of_nat (confidenceThresholdFeedbackCount c)) 0 1)"

definition spec_negativeRate :: "parsed_record \<Rightarrow> real" where
  "spec_negativeRate r =
     (if totalFeedback r = 0 then 0
      else (of_int (int (totalFeedback r) - int (positiveFeedback r))
              / of_int (int (totalFeedback r))) * 10000)"

definition spec_negativeRateBps :: "parsed_record \<Rightarrow> int" where
  "spec_negativeRateBps r = \<lfloor>spec_negativeRate r + 1 / 2\<rfloor>"

definition spec_ageSeconds :: "parsed_record \<Rightarrow> nat \<Rightarrow> int" where
  "spec_ageSeconds r nowMs = max 0 (int (nowMs div 1000) - int (lastUpdated r))"

section \<open>Strings\<close>

text \<open>
  \<^verbatim>\<open>String.prototype.toLowerCase\<close> and \<^verbatim>\<open>toUpperCase\<close> map the letters of the range
  \<open>U+0000\<close> to \<open>U+00FF\<close>: the ASCII letters, and the accented letters \<open>U+00C0\<close> to
  \<open>U+00DE\<close> (without the multiplication sign \<open>U+00D7\<close>) with their lower case \<open>U+00E0\<close> to
  \<open>U+00FE\<close> (without the division sign \<open>U+00F7\<close>). Three letters have an upper case that
  is not one code unit of the range, \<open>U+00B5\<close>, \<open>U+00DF\<close> and \<open>U+00FF\<close>; \<open>toUpperChar\<close>
  leaves them as they are.
\<close>

definition toLowerChar :: "char \<Rightarrow> char" where
  "toLowerChar c =
     (case map_of
           (zip (''ABCDEFGHIJKLMNOPQRSTUVWXYZ'' @
                 [CHR 0xC0, CHR 0xC1, CHR 0xC2, CHR 0xC3, CHR 0xC4, CHR 0xC5, CHR 0xC6, CHR 0xC7,
                  CHR 0xC8, CHR 0xC9, CHR 0xCA, CHR 0xCB, CHR 0xCC, CHR 0xCD, CHR 0xCE, CHR 0xCF,
                  CHR 0xD0, CHR 0xD1, CHR 0xD2, CHR 0xD3, CHR 0xD4, CHR 0xD5, CHR 0xD6, CHR 0xD8,
                  CHR 0xD9, CHR 0xDA, CHR 0xDB, CHR 0xDC, CHR 0xDD, CHR 0xDE])
                (''abcdefghijklmnopqrstuvwxyz'' @
                 [CHR 0xE0, CHR 0xE1, CHR 0xE2, CHR 0xE3, CHR 0xE4, CHR 0xE5, CHR 0xE6, CHR 0xE7,
                  CHR 0xE8, CHR 0xE9, CHR 0xEA, CHR 0xEB, CHR 0xEC, CHR 0xED, CHR 0xEE, CHR 0xEF,
                  CHR 0xF0, CHR 0xF1, CHR 0xF2, CHR 0xF3, CHR 0xF4, CHR 0xF5, CHR 0xF6, CHR 0xF8,
                  CHR 0xF9, CHR 0xFA, CHR 0xFB, CHR 0xFC, CHR 0xFD, CHR 0xFE])) c of
        Some d \<Rightarrow> d
      | None \<Rightarrow> c)"

definition toUpperChar :: "char \<Rightarrow> char" where
  "toUpperChar c =
     (case map_of
           (zip (''abcdefghijklmnopqrstuvwxyz'' @
                 [CHR 0xE0, CHR 0xE1, CHR 0xE2, CHR 0xE3, CHR 0xE4, CHR 0xE5, CHR 0xE6, CHR 0xE7,
                  CHR 0xE8, CHR 0xE9, CHR 0xEA, CHR 0xEB, CHR 0xEC, CHR 0xED, CHR 0xEE, CHR 0xEF,
                  CHR 0xF0, CHR 0xF1, CHR 0xF2, CHR 0xF3, CHR 0xF4, CHR 0xF5, CHR 0xF6, CHR 0xF8,
                  CHR 0xF9, CHR 0xFA, CHR 0xFB, CHR 0xFC, CHR 0xFD, CHR 0xFE])
                (''ABCDEFGHIJKLMNOPQRSTUVWXYZ'' @
                 [CHR 0xC0, CHR 0xC1, CHR 0xC2, CHR 0xC3, CHR 0xC4, CHR 0xC5, CHR 0xC6, CHR 0xC7,
                  CHR 0xC8, CHR 0xC9, CHR 0xCA, CHR 0xCB, CHR 0xCC, CHR 0xCD, CHR 0xCE, CHR 0xCF,
                  CHR 0xD0, CHR 0xD1, CHR 0xD2, CHR 0xD3, CHR 0xD4, CHR 0xD5, CHR 0xD6, CHR 0xD8,
                  CHR 0xD9, CHR 0xDA, CHR 0xDB, CHR 0xDC, CHR 0xDD, CHR 0xDE])) c of
        Some d \<Rightarrow> d
      | None \<Rightarrow> c)"

definition toLowerCase :: "string \<Rightarrow> string" where
  "toLowerCase s = map toLowerChar s"

definition toUpperCase :: "string \<Rightarrow> string" where
  "toUpperCase s = map toUpperChar s"

text \<open>The white space and line terminators of the range that \<^verbatim>\<open>trim\<close> removes: space,
  tab, line feed, vertical tab, form feed, carriage return and the no-break space
  \<open>U+00A0\<close>.\<close>

definition isWhiteSpace :: "char \<Rightarrow> bool" where
  "isWhiteSpace c =
     (c \<in> set [CHR '' '', CHR 0x09, CHR 0x0A, CHR 0x0B, CHR 0x0C, CHR 0x0D, CHR 0xA0])"

definition trim :: "string \<Rightarrow> string" where
  "trim s = rev (dropWhile isWhiteSpace (rev (dropWhile isWhiteSpace s)))"

definition startsWith :: "string \<Rightarrow> string \<Rightarrow> bool" where
  "startsWith s prefix = (take (length prefix) s = prefix)"

text \<open>\<^verbatim>\<open>s.split(c)\<close> for a one-character separator: the pieces between the separators,
  empty pieces kept; the empty string gives one empty piece.\<close>

fun split :: "string \<Rightarrow> char \<Rightarrow> string list" where
  "split [] c = [[]]"
| "split (x # xs) c =
     (if x = c then [] # split xs c
      else (case split xs c of
              [] \<Rightarrow> [[x]]
            | piece # pieces \<Rightarrow> (x # piece) # pieces))"

text \<open>\<^verbatim>\<open>parts.join(sep)\<close> on an array of strings.\<close>

fun join :: "string list \<Rightarrow> string \<Rightarrow> string" where
  "join [] sep = []"
| "join [x] sep = x"
| "join (x # y # ys) sep = x @ sep @ join (y # ys) sep"

section \<open>Booleans from configuration\<close>

text \<open>Truthiness, and \<^verbatim>\<open>a || b\<close> on values.\<close>

fun truthy :: "js_value \<Rightarrow> bool" where
  "truthy JUndefined = False"
| "truthy JNull = False"
| "truthy (JBoolean b) = b"
| "truthy (JNumber n) = (n \<noteq> NaN \<and> n \<noteq> Fin 0)"
| "truthy (JString s) = (s \<noteq> [])"

definition js_or :: "js_value \<Rightarrow> js_value \<Rightarrow> js_value" where
  "js_or a b = (if truthy a then a else b)"

text \<open>\<^verbatim>\<open>toBoolean(value, fallback)\<close>, the same function in both modules.\<close>

definition toBoolean :: "js_value \<Rightarrow> bool \<Rightarrow> bool" where
  "toBoolean v fallback =
     (case v of
        JBoolean b \<Rightarrow> b
      | JString s \<Rightarrow>
          (let normalized = toLowerCase (trim s) in
           if normalized \<in> set [''1'', ''true'', ''yes'', ''on''] then True
           else if normalized \<in> set [''0'', ''false'', ''no'', ''off''] then False
           else fallback)
      | _ \<Rightarrow> fallback)"

text \<open>The environment: a variable is a string or is not set. \<open>env_get\<close> is the property
  read \<^verbatim>\<open>env.NAME\<close>.\<close>

type_synonym environment = "string \<Rightarrow> string option"

definition env_get :: "environment \<Rightarrow> string \<Rightarrow> js_value" where
  "env_get env name = (case env name of None \<Rightarrow> JUndefined | Some s \<Rightarrow> JString s)"

section \<open>Requests and payment headers\<close>

text \<open>A header value is a string, an array of strings, or \<^verbatim>\<open>undefined\<close>; the headers are
  the entries of the header object in the order \<^verbatim>\<open>Object.entries\<close> lists them (an absent
  header object is the empty list). The \<^verbatim>\<open>demo\<close> query parameter as the query parser
  leaves it: absent, a string, an array of strings, or a nested object.\<close>

datatype header_value = HString string | HArray "string list" | HUndefined

datatype query_value = QUndefined | QString string | QArray "string list" | QObject

record request =
  req_method :: string
  req_path :: string
  req_headers :: "(string \<times> header_value) list"
  query_demo :: query_value

text \<open>\<^verbatim>\<open>Array.isArray(value) ? value.join(",") : String(value)\<close>.\<close>

fun headerText :: "header_value \<Rightarrow> string" where
  "headerText (HString s) = s"
| "headerText (HArray xs) = join xs '',''"
| "headerText HUndefined = ''undefined''"

text \<open>\<^verbatim>\<open>extractPaymentHeaders(req)\<close>: the loop over the entries, \<open>relevant\<close> being the object
  under construction; a later entry with the same lower-cased key overwrites an
  earlier one.\<close>

fun extractPaymentHeaders_loop ::
  "(string \<times> header_value) list \<Rightarrow> (string \<rightharpoonup> string) \<Rightarrow> (string \<rightharpoonup> string)" where
  "extractPaymentHeaders_loop [] relevant = relevant"
| "extractPaymentHeaders_loop ((key, v) # entries) relevant =
     (let lower = toLowerCase key in
      if startsWith lower ''x-payment'' \<or> startsWith lower ''x402''
         \<or> lower = ''payment'' \<or> lower = ''authorization''
      then extractPaymentHeaders_loop entries (relevant(lower \<mapsto> headerText v))
      else extractPaymentHeaders_loop entries relevant)"

definition extractPaymentHeaders :: "request \<Rightarrow> (string \<rightharpoonup> string)" where
  "extractPaymentHeaders req = extractPaymentHeaders_loop (req_headers req) Map.empty"

text \<open>A property read used as a condition: present and not the empty string.\<close>

definition truthyHeader :: "(string \<rightharpoonup> string) \<Rightarrow> string \<Rightarrow> bool" where
  "truthyHeader hs name = (case hs name of None \<Rightarrow> False | Some s \<Rightarrow> s \<noteq> [])"

text \<open>\<^verbatim>\<open>hasPaymentProof(headers)\<close>, on the object that \<open>extractPaymentHeaders\<close> returns.\<close>

definition hasPaymentProof :: "(string \<rightharpoonup> string) \<Rightarrow> bool" where
  "hasPaymentProof hs =
     (let status = toLowerCase (case hs ''x-payment-status'' of None \<Rightarrow> [] | Some s \<Rightarrow> s) in
      truthyHeader hs ''x-payment''
      \<or> truthyHeader hs ''x-payment-proof''
      \<or> truthyHeader hs ''x402-payment''
      \<or> truthyHeader hs ''x402-proof''
      \<or> truthyHeader hs ''authorization''
      \<or> status = ''paid'')"

text \<open>\<^verbatim>\<open>String(req.query?.demo || "")\<close>: an array is truthy and joins with commas, an
  object prints as \<^verbatim>\<open>[object Object]\<close>.\<close>

fun queryText :: "query_value \<Rightarrow> string" where
  "queryText QUndefined = []"
| "queryText (QString s) = s"
| "queryText (QArray xs) = join xs '',''"
| "queryText QObject = ''[object Object]''"

definition isDemoRequest :: "request \<Rightarrow> bool" where
  "isDemoRequest req =
     (toLowerCase (trim (queryText (query_demo req))) \<in> set [''1'', ''true'', ''yes'', ''on''])"

section \<open>Route table\<close>

text \<open>A thrown \<^verbatim>\<open>Error\<close> or \<^verbatim>\<open>TypeError\<close> with its message; a function that can throw
  returns \<open>error + 'a\<close>.\<close>

datatype error = Error string | TypeError string

fun message :: "error \<Rightarrow> string" where
  "message (Error m) = m"
| "message (TypeError m) = m"

text \<open>One entry of the route configuration: \<^verbatim>\<open>{ price, network, description }\<close>, a missing
  property being \<open>None\<close>. The configuration is the list of its entries in
  \<^verbatim>\<open>Object.entries\<close> order; an entry whose value is \<^verbatim>\<open>null\<close> is \<open>None\<close>.\<close>

record route_config =
  price :: "string option"
  network :: "string option"
  description :: "string option"

type_synonym route_table = "(string \<times> route_config option) list"

text \<open>\<^verbatim>\<open>formatUsdPrice\<close> of \<^verbatim>\<open>./registration\<close> is not among the sources: it is the
  parameter \<open>fmt\<close> of every function that calls it, taking the price property and
  returning the formatted price or throwing.\<close>

type_synonym price_formatter = "string option \<Rightarrow> error + string"

subsection \<open>The regular expression of a route\<close>

text \<open>The characters of the class \<^verbatim>\<open>[.*+?^${}()|[\]\\]\<close>, the syntax characters of a
  regular expression, and those of \<^verbatim>\<open>[A-Za-z0-9_]\<close>.\<close>

definition backslash :: char where
  "backslash = CHR 0x5C"

definition isSyntaxChar :: "char \<Rightarrow> bool" where
  "isSyntaxChar c =
     (c \<in> set [CHR ''.'', CHR ''*'', CHR ''+'', CHR ''?'', CHR ''^'', CHR ''$'', CHR ''{'', CHR ''}'',
                CHR ''('', CHR '')'', CHR ''|'', CHR ''['', CHR '']'', CHR 0x5C])"

definition isNameChar :: "char \<Rightarrow> bool" where
  "isNameChar c =
     (c \<in> set ''ABCDEFGHIJKLMNOPQRSTUVWXYZabcdefghijklmnopqrstuvwxyz0123456789_'')"

text \<open>\<^verbatim>\<open>.replace(/[.*+?^${}()|[\]\\]/g, "\\$&")\<close>: a backslash before every syntax
  character.\<close>

fun escapeSyntax :: "string \<Rightarrow> string" where
  "escapeSyntax [] = []"
| "escapeSyntax (c # cs) =
     (if isSyntaxChar c then backslash # c # escapeSyntax cs else c # escapeSyntax cs)"

text \<open>\<^verbatim>\<open>.replace(/:([A-Za-z0-9_]+)/g, "[^/]+")\<close>: from the left, a colon with the longest
  non-empty run of name characters after it becomes \<^verbatim>\<open>[^/]+\<close>.\<close>

function replacePlaceholders :: "string \<Rightarrow> string" where
  "replacePlaceholders [] = []"
| "replacePlaceholders (c # cs) =
     (if c = CHR '':'' \<and> takeWhile isNameChar cs \<noteq> []
      then ''[^/]+'' @ replacePlaceholders (dropWhile isNameChar cs)
      else c # replacePlaceholders cs)"
  by pat_completeness auto
termination
  by (relation "measure length") (auto simp add: less_Suc_eq_le length_dropWhile_le)

text \<open>\<^verbatim>\<open>routeToRegex(routePath)\<close>: the source of the regular expression.\<close>

definition routeToRegex :: "string \<Rightarrow> string" where
  "routeToRegex routePath = ''^'' @ replacePlaceholders (escapeSyntax routePath) @ ''$''"

text \<open>
  \<^verbatim>\<open>new RegExp(source).test(s)\<close> is the language's own; it is modelled for the sources
  made of \<^verbatim>\<open>^\<close>, then any sequence of a backslash with a syntax character (that
  character), \<^verbatim>\<open>[^/]+\<close> (one or more characters other than a slash) and a character that
  is not a syntax character (itself), then \<^verbatim>\<open>$\<close>. \<open>parseRegex\<close> reads such a source and
  is \<open>None\<close> on any other; \<open>rx_match\<close> matches the whole string, as the two anchors
  require.
\<close>

datatype rx = Lit char | NotSlashPlus

fun parseBody :: "string \<Rightarrow> rx list option" where
  "parseBody [] = Some []"
| "parseBody (c # cs) =
     (if c = backslash
      then (case cs of
              [] \<Rightarrow> None
            | d # ds \<Rightarrow> if isSyntaxChar d then map_option (Cons (Lit d)) (parseBody ds) else None)
      else if take 5 (c # cs) = ''[^/]+''
      then map_option (Cons NotSlashPlus) (parseBody (drop 4 cs))
      else if isSyntaxChar c then None
      else map_option (Cons (Lit c)) (parseBody cs))"

definition parseRegex :: "string \<Rightarrow> rx list option" where
  "parseRegex source =
     (case source of
        [] \<Rightarrow> None
      | c # cs \<Rightarrow>
          if c = CHR ''^'' \<and> cs \<noteq> [] \<and> last cs = CHR ''$'' then parseBody (butlast cs) else None)"

fun rx_match :: "rx list \<Rightarrow> string \<Rightarrow> bool" where
  "rx_match [] s = (s = [])"
| "rx_match (Lit c # r) s = (case s of [] \<Rightarrow> False | d # t \<Rightarrow> d = c \<and> rx_match r t)"
| "rx_match (NotSlashPlus # r) s =
     (case s of
        [] \<Rightarrow> False
      | d # t \<Rightarrow> d \<noteq> CHR ''/'' \<and> (rx_match r t \<or> rx_match (NotSlashPlus # r) t))"

definition regex_test :: "string \<Rightarrow> string \<Rightarrow> bool" where
  "regex_test source s = (case parseRegex source of None \<Rightarrow> False | Some r \<Rightarrow> rx_match r s)"

subsection \<open>Compiled routes\<close>

record paid_route =
  route_key :: string
  route_method :: string
  routePath :: string
  regex :: string
  route_price :: string
  route_network :: "string option"
  route_description :: "string option"

definition nullPriceError :: error where
  "nullPriceError =
     TypeError (''Cannot read properties of null (reading '' @ [CHR 0x27] @ ''price'' @ [CHR 0x27] @ '')'')"

text \<open>The body of the \<^verbatim>\<open>map\<close> callback of \<^verbatim>\<open>buildPaidRoutes\<close>: the key is trimmed and
  split at spaces, the first piece is the method, the others joined again and trimmed
  are the path; \<^verbatim>\<open>config.price\<close> throws on a \<^verbatim>\<open>null\<close> entry, and \<open>fmt\<close> may throw.\<close>

definition buildPaidRoute :: "price_formatter \<Rightarrow> string \<times> route_config option \<Rightarrow> error + paid_route" where
  "buildPaidRoute fmt entry =
     (let key = fst entry;
          pieces = split (trim key) CHR '' '';
          method = hd pieces;
          pathParts = tl pieces;
          path = trim (join pathParts '' '')
      in case snd entry of
           None \<Rightarrow> Inl nullPriceError
         | Some config \<Rightarrow>
             (case fmt (price config) of
                Inl e \<Rightarrow> Inl e
              | Inr formatted \<Rightarrow>
                  Inr \<lparr> route_key = key, route_method = toUpperCase method, routePath = path,
                        regex = routeToRegex path, route_price = formatted,
                        route_network = network config,
                        route_description = description config \<rparr>))"

text \<open>\<^verbatim>\<open>buildPaidRoutes(routeConfig)\<close>: the entries in order, the first throw ending it.\<close>

fun buildPaidRoutes :: "price_formatter \<Rightarrow> route_table \<Rightarrow> error + paid_route list" where
  "buildPaidRoutes fmt [] = Inr []"
| "buildPaidRoutes fmt (entry # entries) =
     (case buildPaidRoute fmt entry of
        Inl e \<Rightarrow> Inl e
      | Inr route \<Rightarrow>
          (case buildPaidRoutes fmt entries of
             Inl e \<Rightarrow> Inl e
           | Inr routes \<Rightarrow> Inr (route # routes)))"

text \<open>\<^verbatim>\<open>matchPaidRoute(req, paidRoutes)\<close>: \<^verbatim>\<open>Array.prototype.find\<close>.\<close>

definition matchPaidRoute :: "request \<Rightarrow> paid_route list \<Rightarrow> paid_route option" where
  "matchPaidRoute req paidRoutes =
     (let method = toUpperCase (req_method req);
          pathname = req_path req
      in find (\<lambda>route. route_method route = method \<and> regex_test (regex route) pathname) paidRoutes)"

subsection \<open>Route matching as the specification words it\<close>

text \<open>A path pattern read as literal characters and \<^verbatim>\<open>:name\<close> placeholders.\<close>

function patternTokens :: "string \<Rightarrow> rx list" where
  "patternTokens [] = []"
| "patternTokens (c # cs) =
     (if c = CHR '':'' \<and> takeWhile isNameChar cs \<noteq> []
      then NotSlashPlus # patternTokens (dropWhile isNameChar cs)
      else Lit c # patternTokens cs)"
  by pat_completeness auto
termination
  by (relation "measure length") (auto simp add: less_Suc_eq_le length_dropWhile_le)

text \<open>The segments of a path or of a pattern are the pieces between its slashes. A
  pattern segment matches a path segment when the path segment is the pattern segment
  with every placeholder replaced by one or more characters; the pattern matches the
  path when their segments match one to one.\<close>

definition segments :: "string \<Rightarrow> string list" where
  "segments s = split s CHR ''/''"

definition segmentMatches :: "string \<Rightarrow> string \<Rightarrow> bool" where
  "segmentMatches patternSegment pathSegment = rx_match (patternTokens patternSegment) pathSegment"

definition pathAligned :: "string \<Rightarrow> string \<Rightarrow> bool" where
  "pathAligned pattern path = list_all2 segmentMatches (segments pattern) (segments path)"

text \<open>A segment that is one placeholder and nothing else.\<close>

definition isPlaceholder :: "string \<Rightarrow> bool" where
  "isPlaceholder seg =
     (case seg of [] \<Rightarrow> False | c # name \<Rightarrow> c = CHR '':'' \<and> name \<noteq> [] \<and> list_all isNameChar name)"

text \<open>The reading in which a segment is either a placeholder, matching any non-empty
  segment, or a literal, matching itself, and the declared method is compared with the
  request's method as it stands.\<close>

definition segmentMatches_spec :: "string \<Rightarrow> string \<Rightarrow> bool" where
  "segmentMatches_spec patternSegment pathSegment =
     (if isPlaceholder patternSegment then pathSegment \<noteq> [] else pathSegment = patternSegment)"

definition pathAligned_spec :: "string \<Rightarrow> string \<Rightarrow> bool" where
  "pathAligned_spec pattern path = list_all2 segmentMatches_spec (segments pattern) (segments path)"

definition matches_spec :: "request \<Rightarrow> paid_route list \<Rightarrow> bool" where
  "matches_spec req paidRoutes =
     list_ex (\<lambda>route. route_method route = req_method req
                       \<and> pathAligned_spec (routePath route) (req_path req)) paidRoutes"

section \<open>Payment gateway\<close>

subsection \<open>Responses\<close>

text \<open>What a request is answered with. The two 402 bodies carry route, price, network
  and a description or details; the payloads carry the fields the claims are about, the
  score and the counts as the integers of the ledger, which \<^verbatim>\<open>Number\<close> and
  \<^verbatim>\<open>asSafeNumber\<close> convert on the way out.\<close>

datatype response =
    StubPaymentRequired string string string string
  | PaymentRequired string string string string
  | ServiceUnavailable
  | DemoScore "nat option" string string
  | FullScore nat real nat
  | DemoReport "nat option" string string bool
  | FullReport nat risk_report nat nat nat
  | NotFound
  | Failed error

text \<open>A middleware either answers the request or calls \<^verbatim>\<open>next()\<close>, leaving
  \<^verbatim>\<open>res.locals.paymentStatus\<close> as given.\<close>

datatype step = Respond response | Next "string option"

subsection \<open>Stub middleware\<close>

definition orDefault :: "string option \<Rightarrow> string \<Rightarrow> string" where
  "orDefault v d = (case v of None \<Rightarrow> d | Some s \<Rightarrow> if s = [] then d else s)"

text \<open>\<^verbatim>\<open>stubPaymentMiddleware(req, res, next)\<close>, the closure over \<open>paidRoutes\<close> and
  \<open>enforceStubPayment\<close>; \<open>status\<close> is \<^verbatim>\<open>res.locals.paymentStatus\<close> on entry.\<close>

definition stubPaymentMiddleware :: "paid_route list \<Rightarrow> bool \<Rightarrow> request \<Rightarrow> string option \<Rightarrow> step" where
  "stubPaymentMiddleware paidRoutes enforceStubPayment req status =
     (case matchPaidRoute req paidRoutes of
        None \<Rightarrow> Next (if status = None \<or> status = Some [] then Some ''free'' else status)
      | Some matchedRoute \<Rightarrow>
          (let paymentHeaders = extractPaymentHeaders req;
               paid = hasPaymentProof paymentHeaders
           in if \<not> paid \<and> enforceStubPayment
              then Respond (StubPaymentRequired (route_key matchedRoute) (route_price matchedRoute)
                              (orDefault (route_network matchedRoute) ''base'')
                              (orDefault (route_description matchedRoute) []))
              else Next (Some (if paid then ''paid_stub'' else ''unpaid_stub''))))"

subsection \<open>Gateway state\<close>

text \<open>The middleware of a gateway state is the stub closure or the function that
  \<^verbatim>\<open>x402-express\<close> returned.\<close>

datatype middleware = StubMiddleware "paid_route list" bool | RealMiddleware

record payment_state =
  mode :: string
  usingRealMiddleware :: bool
  fallbackFromReal :: bool
  reason :: string
  middleware :: middleware
  payToAddress :: "string option"

record options =
  opt_mode :: "string option"
  routeConfig :: route_table
  enforceStubPayment :: js_value
  payTo :: "string option"
  opt_env :: "environment option"

text \<open>\<^verbatim>\<open>createStubPaymentMiddleware(options)\<close>.\<close>

definition createStubPaymentMiddleware :: "price_formatter \<Rightarrow> options \<Rightarrow> error + payment_state" where
  "createStubPaymentMiddleware fmt opts =
     (case buildPaidRoutes fmt (routeConfig opts) of
        Inl e \<Rightarrow> Inl e
      | Inr paidRoutes \<Rightarrow>
          Inr \<lparr> mode = ''stub'', usingRealMiddleware = False, fallbackFromReal = False,
                reason = ''Using local x402 stub middleware'',
                middleware = StubMiddleware paidRoutes (toBoolean (enforceStubPayment opts) False),
                payToAddress = None \<rparr>)"

subsection \<open>Real middleware\<close>

text \<open>\<^verbatim>\<open>isValidEvmAddress\<close>: \<^verbatim>\<open>0x\<close> and forty hexadecimal digits, on
  \<^verbatim>\<open>String(address || "")\<close>.\<close>

definition isHexDigit :: "char \<Rightarrow> bool" where
  "isHexDigit c = (c \<in> set ''abcdefABCDEF0123456789'')"

definition isValidEvmAddress :: "string option \<Rightarrow> bool" where
  "isValidEvmAddress address =
     (let s = (case address of None \<Rightarrow> [] | Some a \<Rightarrow> a)
      in take 2 s = ''0x'' \<and> length (drop 2 s) = 40 \<and> list_all isHexDigit (drop 2 s))"

definition missingPayToError :: error where
  "missingPayToError =
     Error ''Missing pay-to address for x402 middleware. Set X402_PAY_TO (or X402_RECEIVER_ADDRESS / DEPLOYER_ADDRESS).''"

text \<open>\<^verbatim>\<open>resolvePayToAddress(options, env)\<close>: the first valid candidate, in the order of
  the array, or the throw.\<close>

definition resolvePayToAddress :: "options \<Rightarrow> environment \<Rightarrow> error + string" where
  "resolvePayToAddress opts env =
     (let candidates = [payTo opts, env ''X402_PAY_TO'', env ''X402_RECEIVER_ADDRESS'',
                        env ''DEPLOYER_ADDRESS'', env ''UPDATER_ADDRESS'']
      in case find isValidEvmAddress candidates of
           Some (Some candidate) \<Rightarrow> Inr candidate
         | _ \<Rightarrow> Inl missingPayToError)"

text \<open>\<^verbatim>\<open>parseRouteKey\<close> and \<^verbatim>\<open>toX402RoutePath\<close>, which writes \<^verbatim>\<open>:name\<close> as \<^verbatim>\<open>[name]\<close>.\<close>

function toX402RoutePath :: "string \<Rightarrow> string" where
  "toX402RoutePath [] = []"
| "toX402RoutePath (c # cs) =
     (if c = CHR '':'' \<and> takeWhile isNameChar cs \<noteq> []
      then ''['' @ takeWhile isNameChar cs @ '']'' @ toX402RoutePath (dropWhile isNameChar cs)
      else c # toX402RoutePath cs)"
  by pat_completeness auto
termination
  by (relation "measure length") (auto simp add: less_Suc_eq_le length_dropWhile_le)

record x402_route =
  x_price :: string
  x_network :: string
  x_description :: "string option"

text \<open>\<^verbatim>\<open>buildX402RouteConfig(routeConfig)\<close>: the loop, \<open>mapped\<close> being the object under
  construction. An entry without a method or a path is skipped; a \<^verbatim>\<open>null\<close> entry is
  read as the empty object.\<close>

fun buildX402RouteConfig_loop ::
  "price_formatter \<Rightarrow> route_table \<Rightarrow> (string \<rightharpoonup> x402_route) \<Rightarrow> error + (string \<rightharpoonup> x402_route)" where
  "buildX402RouteConfig_loop fmt [] mapped = Inr mapped"
| "buildX402RouteConfig_loop fmt ((key, config) # entries) mapped =
     (let trimmed = trim key;
          pieces = split trimmed CHR '' '';
          method = toUpperCase (hd pieces);
          path = trim (join (tl pieces) '' '');
          routeLevelConfig =
            (case config of
               None \<Rightarrow> \<lparr> price = None, network = None, description = None \<rparr>
             | Some c \<Rightarrow> c)
      in if method = [] \<or> path = []
         then buildX402RouteConfig_loop fmt entries mapped
         else (case fmt (price routeLevelConfig) of
                 Inl e \<Rightarrow> Inl e
               | Inr formatted \<Rightarrow>
                   buildX402RouteConfig_loop fmt entries
                     (mapped(method @ '' '' @ toX402RoutePath path \<mapsto>
                        \<lparr> x_price = formatted,
                          x_network = orDefault (network routeLevelConfig) ''base'',
                          x_description =
                            (case description routeLevelConfig of
                               None \<Rightarrow> None
                             | Some d \<Rightarrow> if d = [] then None else Some d) \<rparr>))))"

definition buildX402RouteConfig :: "price_formatter \<Rightarrow> route_table \<Rightarrow> error + (string \<rightharpoonup> x402_route)" where
  "buildX402RouteConfig fmt table = buildX402RouteConfig_loop fmt table Map.empty"

text \<open>
  The two packages are outside the repository. \<open>x402_express\<close> is what
  \<^verbatim>\<open>require("x402-express")\<close> gives: a throw, or whether its \<^verbatim>\<open>paymentMiddleware\<close> export
  is a function. \<open>paymentMiddleware\<close> is the call of that export, read as a function of
  the pay-to address and the route table (its facilitator and paywall arguments are left
  out): a throw, or whether what it returns is a function.
  \<open>facilitatorConfig\<close> is the outcome of \<^verbatim>\<open>resolveFacilitatorConfig(env)\<close>, which
  requires \<^verbatim>\<open>@coinbase/x402\<close> and may call into it.
\<close>

record externals =
  x402_express :: "error + bool"
  facilitatorConfig :: "environment \<Rightarrow> error + unit"
  paymentMiddleware :: "string \<Rightarrow> (string \<rightharpoonup> x402_route) \<Rightarrow> error + bool"

text \<open>\<^verbatim>\<open>createRealPaymentMiddleware(options, env)\<close>, each throw in the order of the
  source.\<close>

definition createRealPaymentMiddleware ::
  "externals \<Rightarrow> price_formatter \<Rightarrow> options \<Rightarrow> environment \<Rightarrow> error + payment_state" where
  "createRealPaymentMiddleware ext fmt opts env =
     (case x402_express ext of
        Inl e \<Rightarrow> Inl e
      | Inr exportIsFunction \<Rightarrow>
          if \<not> exportIsFunction
          then Inl (Error ''x402-express.paymentMiddleware export was not found'')
          else (case buildX402RouteConfig fmt (routeConfig opts) of
                  Inl e \<Rightarrow> Inl e
                | Inr x402RouteConfig \<Rightarrow>
                    (case resolvePayToAddress opts env of
                       Inl e \<Rightarrow> Inl e
                     | Inr payToAddr \<Rightarrow>
                         (case facilitatorConfig ext env of
                            Inl e \<Rightarrow> Inl e
                          | Inr _ \<Rightarrow>
                              (case paymentMiddleware ext payToAddr x402RouteConfig of
                                 Inl e \<Rightarrow> Inl e
                               | Inr resultIsFunction \<Rightarrow>
                                   if \<not> resultIsFunction
                                   then Inl (Error ''x402-express did not return a middleware function'')
                                   else Inr \<lparr> mode = ''real'', usingRealMiddleware = True,
                                              fallbackFromReal = False,
                                              reason = ''Using x402-express middleware with Coinbase facilitator'',
                                              middleware = RealMiddleware,
                                              payToAddress = Some payToAddr \<rparr>)))))"

subsection \<open>Gateway selection\<close>

text \<open>\<^verbatim>\<open>String(options.mode || env.X402_MODE || "auto").toLowerCase()\<close>.\<close>

definition resolveMode :: "options \<Rightarrow> environment \<Rightarrow> string" where
  "resolveMode opts env =
     toLowerCase
       (case opt_mode opts of
          Some m \<Rightarrow> if m \<noteq> [] then m else orDefault (env ''X402_MODE'') ''auto''
        | None \<Rightarrow> orDefault (env ''X402_MODE'') ''auto'')"

text \<open>\<^verbatim>\<open>options.env || process.env\<close>, \<open>processEnv\<close> being \<^verbatim>\<open>process.env\<close>.\<close>

definition optionsEnv :: "environment \<Rightarrow> options \<Rightarrow> environment" where
  "optionsEnv processEnv opts = (case opt_env opts of None \<Rightarrow> processEnv | Some e \<Rightarrow> e)"

text \<open>\<^verbatim>\<open>createPaymentMiddleware(options)\<close>. The \<^verbatim>\<open>catch\<close> block rethrows in mode
  \<^verbatim>\<open>real\<close> and otherwise builds the stub, which can itself throw.\<close>

definition createPaymentMiddleware ::
  "externals \<Rightarrow> price_formatter \<Rightarrow> environment \<Rightarrow> options \<Rightarrow> error + payment_state" where
  "createPaymentMiddleware ext fmt processEnv opts =
     (let env = optionsEnv processEnv opts;
          m = resolveMode opts env;
          shouldTryReal = (m = ''real'' \<or> m = ''auto'')
      in if shouldTryReal
         then (case createRealPaymentMiddleware ext fmt opts env of
                 Inr state \<Rightarrow> Inr state
               | Inl e \<Rightarrow>
                   if m = ''real'' then Inl e
                   else (case createStubPaymentMiddleware fmt opts of
                           Inl e' \<Rightarrow> Inl e'
                         | Inr stub \<Rightarrow>
                             Inr (stub\<lparr> fallbackFromReal := True,
                                        reason := ''Fell back to stub middleware: '' @ message e \<rparr>)))
         else createStubPaymentMiddleware fmt opts)"

section \<open>Access resolution\<close>

text \<open>The decision object of the resolver; a field the source leaves out of the object
  is \<open>False\<close> or \<open>None\<close> here.\<close>

record access =
  allowFullResponse :: bool
  allowDemoResponse :: bool
  paymentRequired :: bool
  paymentReason :: "string option"

definition stubFallbackReason :: string where
  "stubFallbackReason =
     ''x402 middleware is running in stub fallback mode. Include an x402 payment header for full data, or add ?demo=true for a limited free response.''"

text \<open>
  \<^verbatim>\<open>resolvePaidRouteAccess({ req, res, env, payment })\<close>; \<^verbatim>\<open>res.locals.paymentStatus\<close>
  goes in as \<open>status\<close> and comes back beside the decision.
\<close>

definition resolvePaidRouteAccess ::
  "request \<Rightarrow> string option \<Rightarrow> environment \<Rightarrow> payment_state \<Rightarrow> access \<times> string option" where
  "resolvePaidRouteAccess req status env payment =
     (if usingRealMiddleware payment
      then (\<lparr> allowFullResponse = True, allowDemoResponse = False,
               paymentRequired = False, paymentReason = None \<rparr>, status)
      else
        (let allowDemoQuery = toBoolean (env_get env ''X402_ALLOW_DEMO_QUERY'') True;
             shouldRequireHeader = (fallbackFromReal payment \<or> toBoolean (env_get env ''X402_STUB_ENFORCE'') False);
             paid = hasPaymentProof (extractPaymentHeaders req)
         in if paid
            then (\<lparr> allowFullResponse = True, allowDemoResponse = False,
                     paymentRequired = False, paymentReason = None \<rparr>, Some ''paid_stub'')
            else if allowDemoQuery \<and> isDemoRequest req
            then (\<lparr> allowFullResponse = False, allowDemoResponse = True,
                     paymentRequired = False, paymentReason = None \<rparr>, Some ''demo_free'')
            else if shouldRequireHeader
            then (\<lparr> allowFullResponse = False, allowDemoResponse = False,
                     paymentRequired = True, paymentReason = Some stubFallbackReason \<rparr>, status)
            else (\<lparr> allowFullResponse = True, allowDemoResponse = False,
                     paymentRequired = False, paymentReason = None \<rparr>, status)))"

subsection \<open>The precedence as the specification words it\<close>

datatype tier = Full | Demo | Challenge

text \<open>The five rules, first match first, on the five facts they read; the second component
  is the tag the rule puts on the request, if any.\<close>

definition resolve_spec :: "bool \<Rightarrow> bool \<Rightarrow> bool \<Rightarrow> bool \<Rightarrow> bool \<Rightarrow> tier \<times> string option" where
  "resolve_spec usingReal hasProof demoAllowed demoFlag enforcementRequired =
     (if usingReal then (Full, None)
      else if hasProof then (Full, Some ''paid_stub'')
      else if demoAllowed \<and> demoFlag then (Demo, Some ''demo_free'')
      else if enforcementRequired then (Challenge, None)
      else (Full, None))"

text \<open>The tier a handler serves for a decision object: it looks at \<open>paymentRequired\<close>
  first, then at \<open>allowDemoResponse\<close>.\<close>

definition tierOf :: "access \<Rightarrow> tier" where
  "tierOf a = (if paymentRequired a then Challenge else if allowDemoResponse a then Demo else Full)"

section \<open>The application\<close>

text \<open>\<^verbatim>\<open>buildRoutePricing(env)\<close>: the two paid routes.\<close>

definition buildRoutePricing :: "price_formatter \<Rightarrow> environment \<Rightarrow> error + route_table" where
  "buildRoutePricing fmt env =
     (case fmt (Some (orDefault (env ''X402_SCORE_PRICE_USDC'') ''0.001'')) of
        Inl e \<Rightarrow> Inl e
      | Inr scorePrice \<Rightarrow>
          (case fmt (Some (orDefault (env ''X402_REPORT_PRICE_USDC'') ''0.005'')) of
             Inl e \<Rightarrow> Inl e
           | Inr reportPrice \<Rightarrow>
               Inr [(''GET /score/:agentId'',
                     Some \<lparr> price = Some scorePrice,
                            network = Some (orDefault (env ''X402_NETWORK'') ''base''),
                            description = Some ''Agent trust score query'' \<rparr>),
                    (''GET /report/:agentId'',
                     Some \<lparr> price = Some reportPrice,
                            network = Some (orDefault (env ''X402_NETWORK'') ''base''),
                            description = Some ''Detailed agent trust report'' \<rparr>)]))"

text \<open>The options \<^verbatim>\<open>createApp(env)\<close> passes to \<^verbatim>\<open>createPaymentMiddleware\<close>, and the gateway
  it gets.\<close>

definition appOptions :: "environment \<Rightarrow> route_table \<Rightarrow> options" where
  "appOptions env pricing =
     \<lparr> opt_mode = Some (orDefault (env ''X402_MODE'') ''auto''),
       routeConfig = pricing,
       enforceStubPayment = js_or (env_get env ''X402_STUB_ENFORCE'') (JString ''false''),
       payTo = None,
       opt_env = Some env \<rparr>"

definition appPayment :: "externals \<Rightarrow> price_formatter \<Rightarrow> environment \<Rightarrow> error + payment_state" where
  "appPayment ext fmt env =
     (case buildRoutePricing fmt env of
        Inl e \<Rightarrow> Inl e
      | Inr pricing \<Rightarrow> createPaymentMiddleware ext fmt env (appOptions env pricing))"

text \<open>What the application keeps after \<^verbatim>\<open>createApp\<close>: the environment, the gateway, the
  route pricing, the scoring configuration, the poll interval, and whether the ledger
  reader is configured.\<close>

record app =
  app_env :: environment
  payment :: payment_state
  routePricing :: route_table
  scoringConfig :: scoring_config
  pollIntervalMs :: nat
  readerEnabled :: bool

text \<open>The outcome of \<^verbatim>\<open>getDetailedReport\<close> and \<^verbatim>\<open>parseRecord\<close>: the record, a call
  exception (the contract reverted), or any other throw.\<close>

datatype ledger_read = Report parsed_record | CallException | ReadError error

text \<open>\<^verbatim>\<open>routePricing[key].price\<close> and \<^verbatim>\<open>routePricing[key].network\<close>.\<close>

definition pricingPrice :: "route_table \<Rightarrow> string \<Rightarrow> string" where
  "pricingPrice pricing key =
     (case map_of pricing key of
        Some (Some config) \<Rightarrow> (case price config of Some p \<Rightarrow> p | None \<Rightarrow> [])
      | _ \<Rightarrow> [])"

definition pricingNetwork :: "route_table \<Rightarrow> string \<Rightarrow> string" where
  "pricingNetwork pricing key =
     (case map_of pricing key of
        Some (Some config) \<Rightarrow> (case network config of Some n \<Rightarrow> n | None \<Rightarrow> [])
      | _ \<Rightarrow> [])"

text \<open>
  The handler of \<^verbatim>\<open>GET /score/:agentId\<close>, entered after \<^verbatim>\<open>validateAgentIdParam\<close> has
  accepted the identifier. \<open>status\<close> is \<^verbatim>\<open>res.locals.paymentStatus\<close> on entry; the result
  is the response and the status on exit.
\<close>

definition scoreHandler :: "app \<Rightarrow> request \<Rightarrow> string option \<Rightarrow> ledger_read \<Rightarrow> response \<times> string option" where
  "scoreHandler a req status ledger =
     (let (access, status1) = resolvePaidRouteAccess req status (app_env a) (payment a) in
      if paymentRequired access
      then (PaymentRequired ''GET /score/:agentId''
              (pricingPrice (routePricing a) ''GET /score/:agentId'')
              (pricingNetwork (routePricing a) ''GET /score/:agentId'')
              (case paymentReason access of None \<Rightarrow> [] | Some r \<Rightarrow> r), status1)
      else if \<not> readerEnabled a then (ServiceUnavailable, status1)
      else (case ledger of
              Report parsedRecord \<Rightarrow>
                if allowDemoResponse access
                then (DemoScore (Some (score parsedRecord))
                        (resolveVerdict (JNumber (Fin (Number_BigInt (int (score parsedRecord))))))
                        (resolveConfidenceBand (Number_BigInt (int (totalFeedback parsedRecord)))), status1)
                else (FullScore (score parsedRecord)
                        (scoreConfidence parsedRecord (scoringConfig a))
                        (lastUpdated parsedRecord),
                      Some (if usingRealMiddleware (payment a) then ''paid_real'' else ''paid_stub''))
            | CallException \<Rightarrow>
                (let (access2, status2) = resolvePaidRouteAccess req status1 (app_env a) (payment a) in
                 if allowDemoResponse access2
                 then (DemoScore None ''UNKNOWN'' ''none'', status2)
                 else (NotFound, status2))
            | ReadError e \<Rightarrow> (Failed e, status1)))"

text \<open>The handler of \<^verbatim>\<open>GET /report/:agentId\<close>; \<open>nowMs\<close> is the clock that
  \<open>buildRiskReport\<close> reads.\<close>

definition reportHandler ::
  "app \<Rightarrow> nat \<Rightarrow> request \<Rightarrow> string option \<Rightarrow> ledger_read \<Rightarrow> response \<times> string option" where
  "reportHandler a nowMs req status ledger =
     (let (access, status1) = resolvePaidRouteAccess req status (app_env a) (payment a) in
      if paymentRequired access
      then (PaymentRequired ''GET /report/:agentId''
              (pricingPrice (routePricing a) ''GET /report/:agentId'')
              (pricingNetwork (routePricing a) ''GET /report/:agentId'')
              (case paymentReason access of None \<Rightarrow> [] | Some r \<Rightarrow> r), status1)
      else if \<not> readerEnabled a then (ServiceUnavailable, status1)
      else (case ledger of
              Report parsedRecord \<Rightarrow>
                (let analytics = buildRiskReport parsedRecord (scoringConfig a) (pollIntervalMs a) nowMs in
                 if allowDemoResponse access
                 then (DemoReport (Some (score parsedRecord))
                         (resolveVerdict (JNumber (Fin (Number_BigInt (int (score parsedRecord))))))
                         (resolveConfidenceBand (Number_BigInt (int (totalFeedback parsedRecord))))
                         (flagged analytics), status1)
                 else (FullReport (score parsedRecord) analytics (totalFeedback parsedRecord)
                         (positiveFeedback parsedRecord) (lastUpdated parsedRecord),
                       Some (if usingRealMiddleware (payment a) then ''paid_real'' else ''paid_stub'')))
            | CallException \<Rightarrow>
                (let (access2, status2) = resolvePaidRouteAccess req status1 (app_env a) (payment a) in
                 if allowDemoResponse access2
                 then (DemoReport None ''UNKNOWN'' ''none'' False, status2)
                 else (NotFound, status2))
            | ReadError e \<Rightarrow> (Failed e, status1)))"

text \<open>
  The path of a request: \<^verbatim>\<open>app.use(payment.middleware)\<close> runs before the route's handler.
  The real middleware belongs to \<^verbatim>\<open>x402-express\<close> and is the parameter \<open>realGate\<close>.
  \<open>handler\<close> is one of the two handlers above.
\<close>

fun runMiddleware :: "middleware \<Rightarrow> (request \<Rightarrow> step) \<Rightarrow> request \<Rightarrow> string option \<Rightarrow> step" where
  "runMiddleware (StubMiddleware paidRoutes enforce) realGate req status =
     stubPaymentMiddleware paidRoutes enforce req status"
| "runMiddleware RealMiddleware realGate req status = realGate req"

definition serve ::
  "payment_state \<Rightarrow> (request \<Rightarrow> step) \<Rightarrow>
   (request \<Rightarrow> string option \<Rightarrow> ledger_read \<Rightarrow> response \<times> string option) \<Rightarrow>
   request \<Rightarrow> ledger_read \<Rightarrow> response" where
  "serve gateway realGate handler req ledger =
     (case runMiddleware (middleware gateway) realGate req None of
        Respond r \<Rightarrow> r
      | Next status \<Rightarrow> fst (handler req status ledger))"

text \<open>The two 402 responses, and the demo payloads.\<close>

fun isPaymentChallenge :: "response \<Rightarrow> bool" where
  "isPaymentChallenge (StubPaymentRequired route p n d) = True"
| "isPaymentChallenge (PaymentRequired route p n d) = True"
| "isPaymentChallenge _ = False"

fun isDemoPayload :: "response \<Rightarrow> bool" where
  "isDemoPayload (DemoScore s v b) = True"
| "isDemoPayload (DemoReport s v b f) = True"
| "isDemoPayload _ = False"

text \<open>The value a header object has under the name \<^verbatim>\<open>authorization\<close>, names compared
  without regard to case: that of the last such entry.\<close>

definition lastAuthorization :: "(string \<times> header_value) list \<Rightarrow> string option" where
  "lastAuthorization hs =
     (case filter (\<lambda>entry. toLowerCase (fst entry) = ''authorization'') hs of
        [] \<Rightarrow> None
      | e # es \<Rightarrow> Some (headerText (snd (last (e # es)))))"

section \<open>Concrete values\<close>

text \<open>A price formatter for concrete evaluations: it accepts a non-empty string of digits
  and dots, with or without a dollar sign before it, and writes it with the dollar sign.
  The theorems hold for every formatter.\<close>

definition exampleFormatter :: price_formatter where
  "exampleFormatter p =
     (case p of
        None \<Rightarrow> Inl (Error ''Invalid price'')
      | Some s \<Rightarrow>
          (let digits = (if take 1 s = ''$'' then drop 1 s else s)
           in if digits \<noteq> [] \<and> list_all (\<lambda>c. c \<in> set ''0123456789.'') digits
              then Inr (''$'' @ digits)
              else Inl (Error ''Invalid price'')))"

text \<open>Both packages present and working.\<close>

definition exampleExternals :: externals where
  "exampleExternals =
     \<lparr> x402_express = Inr True, facilitatorConfig = (\<lambda>env. Inr ()),
       paymentMiddleware = (\<lambda>address routes. Inr True) \<rparr>"

text \<open>An environment with no variable set, and one that selects the stub and sets the
  stub-enforcement override.\<close>

definition emptyEnv :: environment where
  "emptyEnv = (\<lambda>name. None)"

definition enforcingEnv :: environment where
  "enforcingEnv = emptyEnv(''X402_MODE'' \<mapsto> ''stub'', ''X402_STUB_ENFORCE'' \<mapsto> ''true'')"

text \<open>The route pricing of the application under either environment, and its compiled
  routes.\<close>

definition examplePricing :: route_table where
  "examplePricing =
     [(''GET /score/:agentId'',
       Some \<lparr> price = Some ''$0.001'', network = Some ''base'',
              description = Some ''Agent trust score query'' \<rparr>),
      (''GET /report/:agentId'',
       Some \<lparr> price = Some ''$0.005'', network = Some ''base'',
              description = Some ''Detailed agent trust report'' \<rparr>)]"

definition scoreRoute :: paid_route where
  "scoreRoute =
     \<lparr> route_key = ''GET /score/:agentId'', route_method = ''GET'',
       routePath = ''/score/:agentId'', regex = ''^/score/[^/]+$'',
       route_price = ''$0.001'', route_network = Some ''base'',
       route_description = Some ''Agent trust score query'' \<rparr>"

definition reportRoute :: paid_route where
  "reportRoute =
     \<lparr> route_key = ''GET /report/:agentId'', route_method = ''GET'',
       routePath = ''/report/:agentId'', regex = ''^/report/[^/]+$'',
       route_price = ''$0.005'', route_network = Some ''base'',
       route_description = Some ''Detailed agent trust report'' \<rparr>"

text \<open>The gateway after a fallback from real (no pay-to address), and the stub gateway
  with enforcement.\<close>

definition fallbackGateway :: payment_state where
  "fallbackGateway =
     \<lparr> mode = ''stub'', usingRealMiddleware = False, fallbackFromReal = True,
       reason = ''Fell back to stub middleware: '' @ message missingPayToError,
       middleware = StubMiddleware [scoreRoute, reportRoute] False,
       payToAddress = None \<rparr>"

definition enforcingGateway :: payment_state where
  "enforcingGateway =
     \<lparr> mode = ''stub'', usingRealMiddleware = False, fallbackFromReal = False,
       reason = ''Using local x402 stub middleware'',
       middleware = StubMiddleware [scoreRoute, reportRoute] True,
       payToAddress = None \<rparr>"

definition exampleApp :: "environment \<Rightarrow> payment_state \<Rightarrow> bool \<Rightarrow> app" where
  "exampleApp env gateway enabled =
     \<lparr> app_env = env, payment = gateway, routePricing = examplePricing,
       scoringConfig = \<lparr> confidenceThresholdFeedbackCount = 50, negativeFlagThresholdBps = 1000 \<rparr>,
       pollIntervalMs = 900000, readerEnabled = enabled \<rparr>"

text \<open>\<^verbatim>\<open>GET /score/1?demo=true\<close> without headers, and the same request without the demo
  flag and with two headers named \<^verbatim>\<open>authorization\<close> in different case, the first with a
  token and the second empty.\<close>

definition demoRequest :: request where
  "demoRequest =
     \<lparr> req_method = ''GET'', req_path = ''/score/1'', req_headers = [],
       query_demo = QString ''true'' \<rparr>"

definition authorizedRequest :: request where
  "authorizedRequest =
     \<lparr> req_method = ''GET'', req_path = ''/score/1'',
       req_headers = [(''Authorization'', HString ''anything'')],
       query_demo = QUndefined \<rparr>"

definition exampleRecord :: parsed_record where
  "exampleRecord =
     \<lparr> score = 950, totalFeedback = 100, positiveFeedback = 98, lastUpdated = 0, exists = True \<rparr>"

text \<open>A stand-in for the real middleware, which the stub gateways never call.\<close>

definition passGate :: "request \<Rightarrow> step" where
  "passGate req = Next None"

section \<open>Theorems\<close>

subsection \<open>Verdict\<close>

text \<open>
  C5. The verdict is \<^verbatim>\<open>TRUSTED\<close> exactly for a numeric score above 700, \<^verbatim>\<open>CAUTION\<close>
  exactly for one from 400 to 700 inclusive, \<^verbatim>\<open>DANGEROUS\<close> exactly for one below 400 and
  \<^verbatim>\<open>UNKNOWN\<close> exactly for a score that is not a number; 700 and 400 are \<^verbatim>\<open>CAUTION\<close>, 701
  is \<^verbatim>\<open>TRUSTED\<close>, 399 is \<^verbatim>\<open>DANGEROUS\<close>.
\<close>

theorem resolveVerdict_classification:
  "((resolveVerdict v = ''TRUSTED'') = (isNumeric v \<and> js_gt (numberOf v) 700))
   \<and> ((resolveVerdict v = ''CAUTION'')
        = (isNumeric v \<and> js_ge (numberOf v) 400 \<and> js_le (numberOf v) 700))
   \<and> ((resolveVerdict v = ''DANGEROUS'') = (isNumeric v \<and> js_lt (numberOf v) 400))
   \<and> ((resolveVerdict v = ''UNKNOWN'') = (\<not> isNumeric v))
   \<and> resolveVerdict (JNumber (Fin 700)) = ''CAUTION''
   \<and> resolveVerdict (JNumber (Fin 701)) = ''TRUSTED''
   \<and> resolveVerdict (JNumber (Fin 400)) = ''CAUTION''
   \<and> resolveVerdict (JNumber (Fin 399)) = ''DANGEROUS''"
proof (cases v)
  case (JNumber n)
  then show ?thesis by (cases n) auto
qed simp_all

subsection \<open>Rounding to a double\<close>

lemma roundHalfEven_near: "\<bar>of_int (roundHalfEven x) - x\<bar> \<le> 1 / 2"
  unfolding roundHalfEven_def Let_def by (auto; linarith)

lemma roundHalfEven_of_int: "roundHalfEven (of_int k) = k"
  by (simp add: roundHalfEven_def)

lemma roundHalfEven_nonneg: "0 \<le> x \<Longrightarrow> 0 \<le> roundHalfEven x"
  unfolding roundHalfEven_def Let_def by auto

lemma roundHalfEven_le:
  assumes "x \<le> of_int m"
  shows "roundHalfEven x \<le> m"
proof -
  have f: "\<lfloor>x\<rfloor> \<le> m" using assms by (simp add: floor_le_iff)
  show ?thesis
  proof (cases "x = of_int m")
    case True
    then show ?thesis by (simp add: roundHalfEven_of_int)
  next
    case False
    then have "x < of_int m" using assms by simp
    then have "\<lfloor>x\<rfloor> < m" by (simp add: floor_less_iff)
    then show ?thesis unfolding roundHalfEven_def Let_def by auto
  qed
qed

lemma roundHalfEven_ge:
  assumes "of_int m \<le> x"
  shows "m \<le> roundHalfEven x"
proof -
  have "m \<le> \<lfloor>x\<rfloor>" using assms by (simp add: le_floor_iff)
  then show ?thesis unfolding roundHalfEven_def Let_def by auto
qed

lemma powr_powi_2: "(2::real) powr real_of_int k = 2 powi k"
  by (simp add: powr_real_of_int')

lemma powr_powi_2_Suc: "(2::real) powr (real_of_int k + 1) = 2 powi (k + 1)"
  using powr_powi_2 [of "k + 1"] by simp

lemma powi_2_less_imp:
  assumes "(2::real) powi m < 2 powi n"
  shows "m < n"
proof (rule ccontr)
  assume "\<not> m < n"
  then have "n \<le> m" by simp
  then have "(2::real) powi n \<le> 2 powi m" by (rule power_int_increasing) simp
  then show False using assms by simp
qed

lemma floor_log2_bounds:
  assumes "x \<noteq> 0"
  shows "2 powi \<lfloor>log 2 \<bar>x\<bar>\<rfloor> \<le> \<bar>x\<bar>" and "\<bar>x\<bar> < 2 powi (\<lfloor>log 2 \<bar>x\<bar>\<rfloor> + 1)"
proof -
  have pos: "0 < \<bar>x\<bar>" using assms by simp
  have "2 powr real_of_int \<lfloor>log 2 \<bar>x\<bar>\<rfloor> \<le> \<bar>x\<bar> \<and> \<bar>x\<bar> < 2 powr (real_of_int \<lfloor>log 2 \<bar>x\<bar>\<rfloor> + 1)"
    using floor_log_eq_powr_iff [OF pos, of 2 "\<lfloor>log 2 \<bar>x\<bar>\<rfloor>"] by simp
  then show "2 powi \<lfloor>log 2 \<bar>x\<bar>\<rfloor> \<le> \<bar>x\<bar>" and "\<bar>x\<bar> < 2 powi (\<lfloor>log 2 \<bar>x\<bar>\<rfloor> + 1)"
    by (simp_all only: powr_powi_2 powr_powi_2_Suc)
qed

lemma floor_log2_eq:
  assumes "2 powi e \<le> \<bar>x\<bar>" and "\<bar>x\<bar> < 2 powi (e + 1)"
  shows "\<lfloor>log 2 \<bar>x\<bar>\<rfloor> = e"
proof -
  have "(0::real) < 2 powi e" by simp
  then have pos: "0 < \<bar>x\<bar>" using assms(1) by linarith
  have "2 powr real_of_int e \<le> \<bar>x\<bar> \<and> \<bar>x\<bar> < 2 powr (real_of_int e + 1)"
    using assms by (simp only: powr_powi_2 powr_powi_2_Suc)
  then show ?thesis
    using floor_log_eq_powr_iff [OF pos, of 2 e] by simp
qed

text \<open>The exponent of the binade from bit lengths: the equation by which
  \<open>binadeExponent\<close>, and with it \<open>toDouble\<close>, is executed.\<close>

lemma binadeExponent_code [code]:
  "binadeExponent x =
     max (if x = 0 then 0
          else if 1 \<le> \<bar>x\<bar> then bitlen \<lfloor>\<bar>x\<bar>\<rfloor> - 1
          else - bitlen (\<lceil>1 / \<bar>x\<bar>\<rceil> - 1)) (- 1022)"
proof -
  have "\<lfloor>log 2 \<bar>x\<bar>\<rfloor> = (if x = 0 then 0
          else if 1 \<le> \<bar>x\<bar> then bitlen \<lfloor>\<bar>x\<bar>\<rfloor> - 1
          else - bitlen (\<lceil>1 / \<bar>x\<bar>\<rceil> - 1))"
  proof (cases "x = 0")
    case True
    then show ?thesis by (simp add: log_def)
  next
    case nz: False
    show ?thesis
    proof (cases "1 \<le> \<bar>x\<bar>")
      case True
      define n where "n = \<lfloor>\<bar>x\<bar>\<rfloor>"
      have n1: "1 \<le> n" unfolding n_def using True by simp
      then have npos: "0 < n" by simp
      define e where "e = bitlen n - 1"
      have b1: "1 \<le> bitlen n" using npos by (simp add: bitlen_alt_def)
      have e0: "0 \<le> e" using b1 by (simp add: e_def)
      have bl: "2 ^ nat e \<le> n" and bu: "n < 2 ^ nat (e + 1)"
        using bitlen_bounds [OF npos] by (simp_all add: e_def)
      have "real_of_int (2 ^ nat e) \<le> real_of_int n" using bl by (simp only: of_int_le_iff)
      then have "2 powi e \<le> real_of_int n" using e0 by (simp add: power_int_def)
      moreover have "real_of_int n \<le> \<bar>x\<bar>" unfolding n_def by simp
      ultimately have lo: "2 powi e \<le> \<bar>x\<bar>" by linarith
      have "n + 1 \<le> 2 ^ nat (e + 1)" using bu by simp
      then have "real_of_int (n + 1) \<le> real_of_int (2 ^ nat (e + 1))" by (simp only: of_int_le_iff)
      then have "real_of_int n + 1 \<le> 2 powi (e + 1)" using e0 by (simp add: power_int_def)
      moreover have "\<bar>x\<bar> < real_of_int n + 1" unfolding n_def by linarith
      ultimately have hi: "\<bar>x\<bar> < 2 powi (e + 1)" by linarith
      have "\<lfloor>log 2 \<bar>x\<bar>\<rfloor> = e" by (rule floor_log2_eq [OF lo hi])
      then show ?thesis using nz True by (simp add: e_def n_def)
    next
      case False
      then have lt: "\<bar>x\<bar> < 1" by simp
      have pos: "0 < \<bar>x\<bar>" using nz by simp
      define y where "y = 1 / \<bar>x\<bar>"
      have y1: "1 < y" unfolding y_def using lt pos by simp
      define m where "m = \<lceil>y\<rceil> - 1"
      have m1: "1 \<le> m" unfolding m_def using y1 by linarith
      then have mpos: "0 < m" by simp
      have my: "real_of_int m < y" and ym: "y \<le> real_of_int m + 1" unfolding m_def by linarith+
      define b where "b = bitlen m"
      have b1: "1 \<le> b" using mpos by (simp add: b_def bitlen_alt_def)
      have bl: "2 ^ nat (b - 1) \<le> m" and bu: "m < 2 ^ nat b"
        using bitlen_bounds [OF mpos] by (simp_all add: b_def)
      have "m + 1 \<le> 2 ^ nat b" using bu by simp
      then have "real_of_int (m + 1) \<le> real_of_int (2 ^ nat b)" by (simp only: of_int_le_iff)
      then have "real_of_int m + 1 \<le> 2 ^ nat b" by simp
      then have yb: "y \<le> 2 ^ nat b" using ym by linarith
      have "real_of_int (2 ^ nat (b - 1)) \<le> real_of_int m" using bl by (simp only: of_int_le_iff)
      then have "2 ^ nat (b - 1) \<le> real_of_int m" by simp
      then have yl: "2 ^ nat (b - 1) < y" using my by linarith
      have p1: "(2::real) powi (- b) = 1 / 2 ^ nat b"
        using b1 by (simp add: power_int_def field_simps)
      have p2: "(2::real) powi (- b + 1) = 1 / 2 ^ nat (b - 1)"
        using b1 by (auto simp add: power_int_def field_simps nat_diff_distrib)
      have xy: "\<bar>x\<bar> = 1 / y" using pos by (simp add: y_def)
      have lo: "2 powi (- b) \<le> \<bar>x\<bar>"
        unfolding p1 xy using yb y1 by (simp add: frac_le)
      have hi: "\<bar>x\<bar> < 2 powi (- b + 1)"
        unfolding p2 xy using yl y1 by (simp add: frac_less2)
      have "\<lfloor>log 2 \<bar>x\<bar>\<rfloor> = - b" by (rule floor_log2_eq [OF lo hi])
      then show ?thesis using nz False by (simp add: b_def m_def y_def)
    qed
  qed
  then show ?thesis by (simp only: binadeExponent_def)
qed

text \<open>The double of a number whose binade is known: the rule by which \<open>toDouble\<close> is
  rewritten on a given number.\<close>

lemma toDouble_in_binade:
  assumes "2 powi e \<le> \<bar>x\<bar>" and "\<bar>x\<bar> < 2 powi (e + 1)" and "- 1022 \<le> e"
  shows "toDouble x = sgn x * (of_int (roundHalfEven (\<bar>x\<bar> / 2 powi (e - 52))) * 2 powi (e - 52))"
proof -
  have "(0::real) < 2 powi e" by simp
  then have "0 < \<bar>x\<bar>" using assms(1) by linarith
  then have nz: "x \<noteq> 0" by auto
  have "binadeExponent x = e"
    using floor_log2_eq [OF assms(1,2)] assms(3) by (simp add: binadeExponent_def)
  then show ?thesis using nz by (simp add: toDouble_def Let_def)
qed

lemma toDouble_zero: "toDouble 0 = 0"
  by (simp add: toDouble_def)

lemma toDouble_minus: "toDouble (- x) = - toDouble x"
  by (simp add: toDouble_def binadeExponent_def Let_def)

lemma toDouble_nonneg: "0 \<le> x \<Longrightarrow> 0 \<le> toDouble x"
  by (simp add: toDouble_def Let_def sgn_if roundHalfEven_nonneg)

text \<open>A normal number is rounded with a relative error of at most \<open>2 ^ -53\<close>.\<close>

lemma toDouble_error:
  assumes "2 powi (- 1022) \<le> \<bar>x\<bar>"
  shows "\<bar>toDouble x - x\<bar> \<le> \<bar>x\<bar> / 2 ^ 53"
proof -
  have "(0::real) < 2 powi (- 1022)" by simp
  then have pos: "0 < \<bar>x\<bar>" using assms by linarith
  then have nz: "x \<noteq> 0" by auto
  define e where "e = \<lfloor>log 2 \<bar>x\<bar>\<rfloor>"
  have lo: "2 powi e \<le> \<bar>x\<bar>" and hi: "\<bar>x\<bar> < 2 powi (e + 1)"
    unfolding e_def using floor_log2_bounds [OF nz] by simp_all
  have "2 powi (- 1022) < (2::real) powi (e + 1)" using assms hi by linarith
  then have "- 1022 < e + 1" by (rule powi_2_less_imp)
  then have ge: "- 1022 \<le> e" by simp
  define ulp :: real where "ulp = 2 powi (e - 52)"
  have ulp_pos: "0 < ulp" by (simp add: ulp_def)
  define n where "n = roundHalfEven (\<bar>x\<bar> / ulp)"
  have td: "toDouble x = sgn x * (of_int n * ulp)"
    unfolding n_def ulp_def by (rule toDouble_in_binade [OF lo hi ge])
  have r: "\<bar>of_int n - \<bar>x\<bar> / ulp\<bar> \<le> 1 / 2" unfolding n_def by (rule roundHalfEven_near)
  have "of_int n * ulp - \<bar>x\<bar> = (of_int n - \<bar>x\<bar> / ulp) * ulp"
    using ulp_pos by (simp add: left_diff_distrib)
  then have "\<bar>of_int n * ulp - \<bar>x\<bar>\<bar> = \<bar>of_int n - \<bar>x\<bar> / ulp\<bar> * ulp"
    using ulp_pos by (simp add: abs_mult)
  also have "\<dots> \<le> 1 / 2 * ulp"
    using r ulp_pos by (simp only: mult_le_cancel_right_pos)
  finally have near: "\<bar>of_int n * ulp - \<bar>x\<bar>\<bar> \<le> ulp / 2" by simp
  have "ulp * 2 ^ 53 = 2 powi (e + 1)"
    unfolding ulp_def using power_int_add [of "2::real" "e - 52" 53] by (simp add: add.commute)
  also have "\<dots> = 2 * 2 powi e"
    using power_int_add [of "2::real" e 1] by (simp add: add.commute)
  finally have "ulp / 2 = 2 powi e / 2 ^ 53" by (simp add: field_simps)
  then have half: "ulp / 2 \<le> \<bar>x\<bar> / 2 ^ 53" using lo by (simp add: divide_right_mono)
  have "toDouble x - x = sgn x * (of_int n * ulp - \<bar>x\<bar>)"
    unfolding td by (simp add: right_diff_distrib sgn_if)
  then have "\<bar>toDouble x - x\<bar> = \<bar>of_int n * ulp - \<bar>x\<bar>\<bar>"
    using nz by (simp add: abs_mult sgn_if)
  then show ?thesis using near half by linarith
qed

text \<open>An integer of at most 53 bits is a double.\<close>

lemma toDouble_of_int:
  assumes "\<bar>k\<bar> < 2 ^ 53"
  shows "toDouble (of_int k) = of_int k"
proof (cases "k = 0")
  case True
  then show ?thesis by (simp add: toDouble_zero)
next
  case False
  define x :: real where "x = of_int k"
  have nz: "x \<noteq> 0" using False by (simp add: x_def)
  define e where "e = \<lfloor>log 2 \<bar>x\<bar>\<rfloor>"
  have lo: "2 powi e \<le> \<bar>x\<bar>" and hi: "\<bar>x\<bar> < 2 powi (e + 1)"
    unfolding e_def using floor_log2_bounds [OF nz] by simp_all
  have "1 \<le> \<bar>k\<bar>" using False by simp
  then have one: "1 \<le> \<bar>x\<bar>" unfolding x_def by (simp only: of_int_abs [symmetric] of_int_1_le_iff)
  have "(2::real) powi 0 < 2 powi (e + 1)" using one hi by simp
  then have "0 < e + 1" by (rule powi_2_less_imp)
  then have e0: "0 \<le> e" by simp
  have "\<bar>x\<bar> < 2 ^ 53" using assms unfolding x_def
    by (simp only: of_int_abs [symmetric]) (metis of_int_less_iff of_int_numeral of_int_power)
  then have "(2::real) powi e < 2 powi 53" using lo by simp
  then have e53: "e < 53" by (rule powi_2_less_imp)
  define m where "m = nat (52 - e)"
  have ulp: "(2::real) powi (e - 52) = 1 / 2 ^ m"
  proof -
    have "e - 52 = - int m" using e53 by (simp add: m_def)
    then show ?thesis by (simp add: power_int_minus_divide)
  qed
  have "\<bar>x\<bar> / 2 powi (e - 52) = of_int (\<bar>k\<bar> * 2 ^ m)"
    by (simp add: ulp x_def)
  then have "roundHalfEven (\<bar>x\<bar> / 2 powi (e - 52)) = \<bar>k\<bar> * 2 ^ m"
    by (simp only: roundHalfEven_of_int)
  then have "toDouble x = sgn x * (of_int (\<bar>k\<bar> * 2 ^ m) * (1 / 2 ^ m))"
    using toDouble_in_binade [OF lo hi] e0 by (simp add: ulp)
  also have "\<dots> = sgn x * \<bar>x\<bar>" by (simp add: x_def)
  also have "\<dots> = x" by (simp add: sgn_if)
  finally show ?thesis by (simp add: x_def)
qed

lemma toDouble_numeral:
  assumes "(numeral n :: int) < 2 ^ 53"
  shows "toDouble (numeral n) = numeral n"
  using toDouble_of_int [of "numeral n"] assms by simp

lemma toDouble_one: "toDouble 1 = 1"
  using toDouble_of_int [of 1] by simp

text \<open>The double of a number of \<open>[0, 1]\<close> is in \<open>[0, 1]\<close>.\<close>

lemma toDouble_le_one:
  assumes "0 \<le> x" and "x \<le> 1"
  shows "toDouble x \<le> 1"
proof (cases "x = 0 \<or> x = 1")
  case True
  then show ?thesis using toDouble_of_int [of 1] by (auto simp add: toDouble_zero)
next
  case False
  then have pos: "0 < x" and lt: "x < 1" using assms by simp_all
  have nz: "x \<noteq> 0" using pos by simp
  have ax: "\<bar>x\<bar> = x" using pos by simp
  define L where "L = \<lfloor>log 2 \<bar>x\<bar>\<rfloor>"
  define e where "e = binadeExponent x"
  have e_max: "e = max L (- 1022)" by (simp add: e_def binadeExponent_def L_def)
  have "2 powi L < (2::real) powi 0"
    unfolding L_def using floor_log2_bounds(1) [OF nz] lt ax by simp
  then have "L < 0" by (rule powi_2_less_imp)
  then have e_neg: "e + 1 \<le> 0" by (simp add: e_max)
  have "L + 1 \<le> e + 1" by (simp add: e_max)
  then have "(2::real) powi (L + 1) \<le> 2 powi (e + 1)"
    by (rule power_int_increasing) simp
  then have hi: "x < 2 powi (e + 1)"
    using floor_log2_bounds(2) [OF nz] ax unfolding L_def by linarith
  define ulp :: real where "ulp = 2 powi (e - 52)"
  have ulp_pos: "0 < ulp" by (simp add: ulp_def)
  have top: "ulp * 2 ^ 53 = 2 powi (e + 1)"
    unfolding ulp_def using power_int_add [of "2::real" "e - 52" 53] by (simp add: add.commute)
  have "x / ulp < 2 ^ 53" using hi top ulp_pos by (simp add: field_simps)
  then have "x / ulp \<le> of_int (2 ^ 53)" by simp
  then have "roundHalfEven (x / ulp) \<le> 2 ^ 53" by (rule roundHalfEven_le)
  then have "real_of_int (roundHalfEven (x / ulp)) \<le> 2 ^ 53"
    by (metis of_int_le_iff of_int_numeral of_int_power)
  then have "real_of_int (roundHalfEven (x / ulp)) * ulp \<le> 2 ^ 53 * ulp"
    using ulp_pos by (simp only: mult_le_cancel_right_pos)
  also have "\<dots> = 2 powi (e + 1)" using top by (simp add: mult.commute)
  also have "\<dots> \<le> 2 powi 0" using e_neg by (intro power_int_increasing) simp_all
  finally have "real_of_int (roundHalfEven (x / ulp)) * ulp \<le> 1" by simp
  moreover have "toDouble x = real_of_int (roundHalfEven (x / ulp)) * ulp"
    using pos by (simp add: toDouble_def Let_def e_def ulp_def)
  ultimately show ?thesis by simp
qed


lemma toDouble_rel:
  assumes "1 / 2 ^ 1000 \<le> x"
  shows "x * (1 - 1 / 2 ^ 53) \<le> toDouble x" and "toDouble x \<le> x * (1 + 1 / 2 ^ 53)"
proof -
  have pos: "0 < x" using assms by (simp add: less_le_trans [OF _ assms])
  have "(2::real) powi (- 1022) \<le> 1 / 2 ^ 1000" by simp
  then have "2 powi (- 1022) \<le> \<bar>x\<bar>" using assms pos by linarith
  then have "\<bar>toDouble x - x\<bar> \<le> \<bar>x\<bar> / 2 ^ 53" by (rule toDouble_error)
  then have e: "\<bar>toDouble x - x\<bar> \<le> x / 2 ^ 53" using pos by simp
  have e1: "x - toDouble x \<le> x / 2 ^ 53" and e2: "toDouble x - x \<le> x / 2 ^ 53"
    using e by linarith+
  show "x * (1 - 1 / 2 ^ 53) \<le> toDouble x" using e1 by (simp add: algebra_simps)
  show "toDouble x \<le> x * (1 + 1 / 2 ^ 53)" using e2 by (simp add: algebra_simps)
qed


text \<open>The quotient of the conversions of two counts, rounded three times, is within a
  relative error of \<open>4 / 2 ^ 53\<close> of the exact quotient.\<close>

lemma double_quotient_bounds:
  fixes N T :: real
  assumes N: "1 \<le> N" and T: "1 \<le> T" and Tb: "T < 2 ^ 256"
  shows "N / T * (1 - 4 / 2 ^ 53) \<le> toDouble (toDouble N / toDouble T)"
    and "toDouble (toDouble N / toDouble T) \<le> N / T * (1 + 4 / 2 ^ 53)"
proof -
  define a where "a = toDouble N"
  define b where "b = toDouble T"
  define E where "E = N / T"
  have small: "(1 / 2 ^ 1000 :: real) \<le> 1" by simp
  have aN: "N * (1 - 1 / 2 ^ 53) \<le> a" "a \<le> N * (1 + 1 / 2 ^ 53)"
    unfolding a_def using toDouble_rel [of N] N small by linarith+
  have bT: "T * (1 - 1 / 2 ^ 53) \<le> b" "b \<le> T * (1 + 1 / 2 ^ 53)"
    unfolding b_def using toDouble_rel [of T] T small by linarith+
  have Tlo: "0 < T * (1 - 1 / 2 ^ 53)" using T by simp
  have b_pos: "0 < b" using Tlo bT(1) by linarith
  have Nlo: "0 \<le> N * (1 - 1 / 2 ^ 53)" using N by simp
  have a_nonneg: "0 \<le> a" using Nlo aN(1) by linarith
  have Nhi: "0 \<le> N * (1 + 1 / 2 ^ 53)" using N by simp
  have "1 / 2 ^ 256 \<le> N / T"
    using frac_le [of N 1 T "2 ^ 256"] N T Tb by simp
  then have E_lo: "1 / 2 ^ 256 \<le> E" by (simp add: E_def)
  then have E_nonneg: "0 \<le> E" by (simp add: order_trans [OF _ E_lo])
  have "a / b \<le> (N * (1 + 1 / 2 ^ 53)) / (T * (1 - 1 / 2 ^ 53))"
    by (rule frac_le [OF Nhi aN(2) Tlo bT(1)])
  also have "\<dots> = E * (9007199254740993 / 9007199254740991)" by (simp add: E_def)
  finally have r_hi: "a / b \<le> E * (9007199254740993 / 9007199254740991)" .
  have "E * (9007199254740991 / 9007199254740993)
      = (N * (1 - 1 / 2 ^ 53)) / (T * (1 + 1 / 2 ^ 53))" by (simp add: E_def)
  also have "\<dots> \<le> a / b"
    by (rule frac_le [OF a_nonneg aN(1) b_pos bT(2)])
  finally have r_lo: "E * (9007199254740991 / 9007199254740993) \<le> a / b" .
  have "1 / 2 ^ 1000 \<le> (1 / 2 ^ 256) * (9007199254740991 / 9007199254740993 :: real)" by simp
  also have "\<dots> \<le> E * (9007199254740991 / 9007199254740993)"
    using E_lo by (intro mult_right_mono) simp_all
  finally have r_norm: "1 / 2 ^ 1000 \<le> a / b" using r_lo by linarith
  have q: "a / b * (1 - 1 / 2 ^ 53) \<le> toDouble (a / b)" "toDouble (a / b) \<le> a / b * (1 + 1 / 2 ^ 53)"
    using toDouble_rel [OF r_norm] by simp_all
  have "E * (1 - 4 / 2 ^ 53) \<le> toDouble (a / b)"
    using q(1) r_lo E_nonneg by simp
  then show "N / T * (1 - 4 / 2 ^ 53) \<le> toDouble (toDouble N / toDouble T)"
    by (simp add: E_def a_def b_def)
  have "toDouble (a / b) \<le> E * (1 + 4 / 2 ^ 53)"
    using q(2) r_hi E_nonneg by simp
  then show "toDouble (toDouble N / toDouble T) \<le> N / T * (1 + 4 / 2 ^ 53)"
    by (simp add: E_def a_def b_def)
qed


text \<open>The double of a number that is at least 1 is at least 1.\<close>

lemma toDouble_ge_one:
  assumes "1 \<le> x"
  shows "1 \<le> toDouble x"
proof -
  have pos: "0 < x" and nz: "x \<noteq> 0" and ax: "\<bar>x\<bar> = x" using assms by simp_all
  define e where "e = \<lfloor>log 2 \<bar>x\<bar>\<rfloor>"
  have lo: "2 powi e \<le> \<bar>x\<bar>" and hi: "\<bar>x\<bar> < 2 powi (e + 1)"
    unfolding e_def using floor_log2_bounds [OF nz] by simp_all
  have "(2::real) powi 0 < 2 powi (e + 1)" using assms hi ax by simp
  then have "0 < e + 1" by (rule powi_2_less_imp)
  then have e0: "0 \<le> e" by simp
  define ulp :: real where "ulp = 2 powi (e - 52)"
  have ulp_pos: "0 < ulp" by (simp add: ulp_def)
  have "ulp * 2 ^ 52 = 2 powi e"
    unfolding ulp_def using power_int_add [of "2::real" "e - 52" 52] by simp
  then have bot: "2 ^ 52 * ulp = 2 powi e" by (simp add: mult.commute)
  have "2 ^ 52 \<le> \<bar>x\<bar> / ulp" using lo bot ulp_pos by (simp add: field_simps)
  then have "of_int (2 ^ 52) \<le> \<bar>x\<bar> / ulp" by simp
  then have "2 ^ 52 \<le> roundHalfEven (\<bar>x\<bar> / ulp)" by (rule roundHalfEven_ge)
  then have "2 ^ 52 \<le> real_of_int (roundHalfEven (\<bar>x\<bar> / ulp))"
    by (metis of_int_le_iff of_int_numeral of_int_power)
  then have "2 ^ 52 * ulp \<le> real_of_int (roundHalfEven (\<bar>x\<bar> / ulp)) * ulp"
    using ulp_pos by (simp only: mult_le_cancel_right_pos)
  moreover have "(2::real) powi 0 \<le> 2 powi e" using e0 by (intro power_int_increasing) simp_all
  ultimately have "1 \<le> real_of_int (roundHalfEven (\<bar>x\<bar> / ulp)) * ulp" using bot by simp
  moreover have "toDouble x = real_of_int (roundHalfEven (\<bar>x\<bar> / ulp)) * ulp"
    using toDouble_in_binade [OF lo hi] e0 pos by (simp add: ulp_def)
  ultimately show ?thesis by simp
qed

lemma Number_BigInt_pos:
  assumes "0 < n"
  shows "1 \<le> Number_BigInt (int n)"
proof -
  have "(1::real) \<le> of_int (int n)" using assms by simp
  then show ?thesis unfolding Number_BigInt_def by (rule toDouble_ge_one)
qed

subsection \<open>Negative rate\<close>

lemma spec_negativeRate_range:
  assumes "positiveFeedback r \<le> totalFeedback r"
  shows "0 \<le> spec_negativeRate r" and "spec_negativeRate r \<le> 10000"
proof -
  show "0 \<le> spec_negativeRate r" using assms by (simp add: spec_negativeRate_def)
  show "spec_negativeRate r \<le> 10000"
  proof (cases "totalFeedback r = 0")
    case True
    then show ?thesis by (simp add: spec_negativeRate_def)
  next
    case False
    define f :: real where "f = of_int (int (totalFeedback r) - int (positiveFeedback r))
                                  / of_int (int (totalFeedback r))"
    have "f \<le> 1" unfolding f_def using False assms by (simp add: divide_le_eq_1_pos)
    moreover have "spec_negativeRate r = f * 10000"
      using False by (simp add: spec_negativeRate_def f_def)
    ultimately show ?thesis by linarith
  qed
qed

text \<open>The double-precision negative rate before \<^verbatim>\<open>Math.round\<close> is within \<open>10 ^ -9\<close> of the
  exact one.\<close>

lemma double_rate_near:
  fixes t p :: nat
  assumes le: "p \<le> t" and pos: "0 < t" and bound: "t < 2 ^ 256"
  shows "0 \<le> js_times (js_divide (Number_BigInt (int t - int p)) (Number_BigInt (int t))) 10000"
    and "\<bar>js_times (js_divide (Number_BigInt (int t - int p)) (Number_BigInt (int t))) 10000
          - (of_int (int t - int p) / of_int (int t)) * 10000\<bar> \<le> 1 / 10 ^ 9"
proof -
  define N :: real where "N = of_int (int t - int p)"
  define T :: real where "T = of_int (int t)"
  define q where "q = toDouble (toDouble N / toDouble T)"
  define x where "x = toDouble (q * 10000)"
  have x_eq: "js_times (js_divide (Number_BigInt (int t - int p)) (Number_BigInt (int t))) 10000 = x"
    by (simp add: js_times_def js_divide_def Number_BigInt_def x_def q_def N_def T_def)
  have T1: "1 \<le> T" using pos by (simp add: T_def)
  have Tb: "T < 2 ^ 256" using bound by (simp add: T_def)
  have N0: "0 \<le> N" using le by (simp add: N_def)
  have NT: "N \<le> T" by (simp add: N_def T_def)
  have E1: "N / T \<le> 1" using NT T1 by (simp add: divide_le_eq_1_pos)
  have E0: "0 \<le> N / T" using N0 T1 by simp
  have main: "0 \<le> x \<and> \<bar>x - N / T * 10000\<bar> \<le> 1 / 10 ^ 9"
  proof (cases "p = t")
    case True
    then have "N = 0" by (simp add: N_def)
    then have "x = 0" by (simp add: x_def q_def toDouble_zero)
    then show ?thesis using \<open>N = 0\<close> by simp
  next
    case False
    then have "int p < int t" using le by simp
    then have "1 \<le> int t - int p" by simp
    then have N1: "1 \<le> N" unfolding N_def by (simp only: of_int_1_le_iff)
    have q_lo: "N / T * (1 - 4 / 2 ^ 53) \<le> q" and q_hi: "q \<le> N / T * (1 + 4 / 2 ^ 53)"
      unfolding q_def using double_quotient_bounds [OF N1 T1 Tb] by simp_all
    have "1 / 2 ^ 256 \<le> N / T"
      using frac_le [of N 1 T "2 ^ 256"] N1 T1 Tb by simp
    then have "1 / 2 ^ 256 * (1 - 4 / 2 ^ 53) \<le> N / T * (1 - 4 / 2 ^ 53)"
      by (intro mult_right_mono) simp_all
    moreover have "(1 / 2 ^ 1000 :: real) \<le> 1 / 2 ^ 256 * (1 - 4 / 2 ^ 53) * 10000" by simp
    ultimately have "1 / 2 ^ 1000 \<le> q * 10000" using q_lo by linarith
    then have x_lo: "q * 10000 * (1 - 1 / 2 ^ 53) \<le> x" and x_hi: "x \<le> q * 10000 * (1 + 1 / 2 ^ 53)"
      unfolding x_def using toDouble_rel [of "q * 10000"] by simp_all
    have "0 \<le> q" using q_lo E0 by (simp add: order_trans [OF _ q_lo])
    then have "0 \<le> x" using x_lo by (simp add: order_trans [OF _ x_lo])
    moreover have "x - N / T * 10000 \<le> 1 / 10 ^ 9" using x_hi q_hi E1 E0 by simp
    moreover have "N / T * 10000 - x \<le> 1 / 10 ^ 9" using x_lo q_lo E1 E0 by simp
    ultimately show ?thesis by linarith
  qed
  show "0 \<le> js_times (js_divide (Number_BigInt (int t - int p)) (Number_BigInt (int t))) 10000"
    using main by (simp only: x_eq)
  show "\<bar>js_times (js_divide (Number_BigInt (int t - int p)) (Number_BigInt (int t))) 10000
          - (of_int (int t - int p) / of_int (int t)) * 10000\<bar> \<le> 1 / 10 ^ 9"
    using main unfolding x_eq N_def T_def by simp
qed


text \<open>
  C6, as amended. For every record of the ledger (counts below \<open>2 ^ 256\<close>) the negative
  rate of the report is an integer, and 0 when \<open>totalFeedback = 0\<close>. Whenever
  \<open>positiveFeedback \<le> totalFeedback\<close> it lies in \<open>[0, 10000]\<close> and is
  \<open>round((totalFeedback - positiveFeedback) / totalFeedback * 10000)\<close> as double-precision
  arithmetic evaluates it: within \<open>1/2 + 10 ^ -9\<close> of the exact value of the quotient
  times 10000, and equal to that value rounded to the nearest integer, a tie upwards,
  unless the exact value lies within \<open>10 ^ -9\<close> of a tie.
\<close>

theorem negativeRateBps_formula_and_range:
  assumes "totalFeedback r < 2 ^ 256"
  shows "(totalFeedback r = 0 \<longrightarrow> negativeRateBps (buildRiskReport r c p now) = 0)
   \<and> (positiveFeedback r \<le> totalFeedback r \<longrightarrow>
        0 \<le> negativeRateBps (buildRiskReport r c p now)
        \<and> negativeRateBps (buildRiskReport r c p now) \<le> 10000
        \<and> \<bar>of_int (negativeRateBps (buildRiskReport r c p now)) - spec_negativeRate r\<bar>
             \<le> 1 / 2 + 1 / 10 ^ 9
        \<and> (1 / 10 ^ 9 < \<bar>spec_negativeRate r - (of_int \<lfloor>spec_negativeRate r\<rfloor> + 1 / 2)\<bar> \<longrightarrow>
             negativeRateBps (buildRiskReport r c p now) = spec_negativeRateBps r))"
proof -
  define b where "b = negativeRateBps (buildRiskReport r c p now)"
  define S where "S = spec_negativeRate r"
  have zero: "totalFeedback r = 0 \<longrightarrow> b = 0"
    by (simp add: b_def buildRiskReport_def Let_def)
  have range: "0 \<le> b \<and> b \<le> 10000 \<and> \<bar>of_int b - S\<bar> \<le> 1 / 2 + 1 / 10 ^ 9
      \<and> (1 / 10 ^ 9 < \<bar>S - (of_int \<lfloor>S\<rfloor> + 1 / 2)\<bar> \<longrightarrow> b = \<lfloor>S + 1 / 2\<rfloor>)"
    if le: "positiveFeedback r \<le> totalFeedback r"
  proof (cases "totalFeedback r = 0")
    case True
    then have "b = 0" using zero by simp
    moreover have "S = 0" using True by (simp add: S_def spec_negativeRate_def)
    ultimately show ?thesis by simp
  next
    case False
    then have pos: "0 < totalFeedback r" by simp
    define x where "x = js_times (js_divide
        (Number_BigInt (int (totalFeedback r) - int (positiveFeedback r)))
        (Number_BigInt (int (totalFeedback r)))) 10000"
    have b_eq: "b = \<lfloor>x + 1 / 2\<rfloor>"
      using False by (simp add: b_def buildRiskReport_def Let_def Math_round_def x_def)
    have S_eq: "S = (of_int (int (totalFeedback r) - int (positiveFeedback r))
                      / of_int (int (totalFeedback r))) * 10000"
      using False by (simp add: S_def spec_negativeRate_def)
    have x0: "0 \<le> x" unfolding x_def by (rule double_rate_near(1) [OF le pos assms])
    have near: "\<bar>x - S\<bar> \<le> 1 / 10 ^ 9"
      unfolding x_def S_eq by (rule double_rate_near(2) [OF le pos assms])
    have "\<bar>x - S\<bar> \<le> 1 / 1000000000" using near by simp
    then have n1: "x - S \<le> 1 / 1000000000" and n2: "S - x \<le> 1 / 1000000000"
      by linarith+
    have S0: "0 \<le> S" and S1: "S \<le> 10000"
      unfolding S_def using spec_negativeRate_range [OF le] by simp_all
    have fl: "of_int b \<le> x + 1 / 2" and fu: "x + 1 / 2 < of_int b + 1"
      unfolding b_eq by linarith+
    have "(0::real) \<le> x + 1 / 2" using x0 by simp
    then have b0: "0 \<le> b" unfolding b_eq by simp
    have "x + 1 / 2 < 10001" using n1 S1 by linarith
    then have "x + 1 / 2 < of_int (10000 + 1)" by simp
    then have "\<lfloor>x + 1 / 2\<rfloor> < 10000 + 1" by (simp only: floor_less_iff)
    then have b1: "b \<le> 10000" unfolding b_eq by simp
    have "\<bar>of_int b - S\<bar> \<le> 1 / 2 + 1 / 1000000000" using fl fu n1 n2 by linarith
    then have close: "\<bar>of_int b - S\<bar> \<le> 1 / 2 + 1 / 10 ^ 9" by simp
    have tie: "b = \<lfloor>S + 1 / 2\<rfloor>" if far: "1 / 10 ^ 9 < \<bar>S - (of_int \<lfloor>S\<rfloor> + 1 / 2)\<bar>"
    proof -
      define m where "m = \<lfloor>S\<rfloor>"
      have m1: "of_int m \<le> S" and m2: "S < of_int m + 1" unfolding m_def by linarith+
      have far': "1 / 1000000000 < \<bar>S - (of_int m + 1 / 2)\<bar>" using far by (simp add: m_def)
      show ?thesis
      proof (cases "S < of_int m + 1 / 2")
        case True
        have "\<lfloor>S + 1 / 2\<rfloor> = m" using m1 True by (intro floor_unique) simp_all
        moreover have "\<lfloor>x + 1 / 2\<rfloor> = m"
          using m1 True far' n1 n2 by (intro floor_unique) linarith+
        ultimately show ?thesis by (simp add: b_eq)
      next
        case False
        have "\<lfloor>S + 1 / 2\<rfloor> = m + 1" using m2 False by (intro floor_unique) simp_all
        moreover have "of_int m + 1 \<le> x + 1 / 2" using m2 False far' n1 n2 by linarith
        moreover have "x + 1 / 2 < of_int m + 1 + 1" using m2 False far' n1 n2 by linarith
        ultimately have "\<lfloor>S + 1 / 2\<rfloor> = m + 1" and "\<lfloor>x + 1 / 2\<rfloor> = m + 1"
          by (simp_all add: floor_unique)
        then show ?thesis by (simp add: b_eq)
      qed
    qed
    show ?thesis using b0 b1 close tie by blast
  qed
  show ?thesis
    using zero range unfolding b_def S_def spec_negativeRateBps_def by blast
qed


text \<open>Witness for C6: 100 feedback entries, 98 of them positive, give 200 basis points;
  no feedback gives 0.\<close>

theorem negativeRateBps_formula_and_range_witness:
  "negativeRateBps (buildRiskReport
      \<lparr> score = 950, totalFeedback = 100, positiveFeedback = 98, lastUpdated = 0, exists = True \<rparr>
      \<lparr> confidenceThresholdFeedbackCount = 50, negativeFlagThresholdBps = 1000 \<rparr> 900000 0) = 200
   \<and> negativeRateBps (buildRiskReport
      \<lparr> score = 950, totalFeedback = 0, positiveFeedback = 0, lastUpdated = 0, exists = True \<rparr>
      \<lparr> confidenceThresholdFeedbackCount = 50, negativeFlagThresholdBps = 1000 \<rparr> 900000 0) = 0
   \<and> (100::nat) < 2 ^ 256 \<and> (98::nat) \<le> 100"
proof -
  have s: "spec_negativeRate
      \<lparr> score = 950, totalFeedback = 100, positiveFeedback = 98, lastUpdated = 0, exists = True \<rparr> = 200"
    by (simp add: spec_negativeRate_def)
  show ?thesis
    using negativeRateBps_formula_and_range
      [of "\<lparr> score = 950, totalFeedback = 100, positiveFeedback = 98, lastUpdated = 0, exists = True \<rparr>"
          "\<lparr> confidenceThresholdFeedbackCount = 50, negativeFlagThresholdBps = 1000 \<rparr>" 900000 0]
      negativeRateBps_formula_and_range
      [of "\<lparr> score = 950, totalFeedback = 0, positiveFeedback = 0, lastUpdated = 0, exists = True \<rparr>"
          "\<lparr> confidenceThresholdFeedbackCount = 50, negativeFlagThresholdBps = 1000 \<rparr>" 900000 0]
    by (simp add: s spec_negativeRateBps_def)
qed

text \<open>Counterexample to C6 as stated: a record with one feedback entry in total and two
  positive ones has the negative rate \<open>-10000\<close>, outside \<open>[0, 10000]\<close>; and with 800
  entries, 273 of them positive, the exact value is the tie \<open>6587.5\<close>, which rounds to
  6588, where the doubles give \<open>6587.499999999999\<close> and the report 6587.\<close>

theorem negativeRateBps_range_counterexample:
  "negativeRateBps (buildRiskReport
      \<lparr> score = 0, totalFeedback = 1, positiveFeedback = 2, lastUpdated = 0, exists = True \<rparr>
      \<lparr> confidenceThresholdFeedbackCount = 50, negativeFlagThresholdBps = 1000 \<rparr> 900000 0) = - 10000
   \<and> negativeRateBps (buildRiskReport
      \<lparr> score = 0, totalFeedback = 800, positiveFeedback = 273, lastUpdated = 0, exists = True \<rparr>
      \<lparr> confidenceThresholdFeedbackCount = 50, negativeFlagThresholdBps = 1000 \<rparr> 900000 0) = 6587
   \<and> spec_negativeRateBps
      \<lparr> score = 0, totalFeedback = 800, positiveFeedback = 273, lastUpdated = 0, exists = True \<rparr> = 6588"
proof -
  have m: "toDouble (- 1) = - 1" "toDouble (- 10000) = - 10000"
    using toDouble_minus [of 1] toDouble_minus [of 10000] by (simp_all add: toDouble_one toDouble_numeral)
  have q: "toDouble (527 / 800) = 1483373127265157 / 2251799813685248"
    using toDouble_in_binade [of "- 1" "527 / 800"]
    by (simp add: roundHalfEven_def)
  have x: "toDouble (927108204540723125 / 140737488355328) = 7243032847974399 / 1099511627776"
    using toDouble_in_binade [of 12 "927108204540723125 / 140737488355328"]
    by (simp add: roundHalfEven_def)
  show ?thesis
    by (simp add: buildRiskReport_def Let_def Math_round_def js_times_def js_divide_def
        Number_BigInt_def toDouble_numeral toDouble_one m q x spec_negativeRateBps_def
        spec_negativeRate_def)
qed


subsection \<open>Trend\<close>

lemma recentTrend_unfold:
  "recentTrend (buildRiskReport r c p now) =
     (if 2 * (real p / 1000) < real_of_int (spec_ageSeconds r now) then ''stale''
      else if riskFactors (buildRiskReport r c p now) = [] then ''stable''
      else ''caution'')"
  by (simp add: buildRiskReport_def spec_ageSeconds_def Let_def max_def)

text \<open>
  C7. The trend of the report is \<^verbatim>\<open>stale\<close> whenever the age
  \<open>max(0, now - lastUpdated)\<close> exceeds twice the poll interval in seconds, whatever the
  risk factors; otherwise it is \<^verbatim>\<open>stable\<close> for an empty list of risk factors and
  \<^verbatim>\<open>caution\<close> for a non-empty one. A record updated after \<open>now\<close> has age 0 and is
  never stale.
\<close>

theorem recentTrend_priority:
  "recentTrend (buildRiskReport r c p now) =
     (if 2 * (real p / 1000) < real_of_int (max 0 (int (now div 1000) - int (lastUpdated r)))
      then ''stale''
      else if riskFactors (buildRiskReport r c p now) = [] then ''stable''
      else ''caution'')
   \<and> (now div 1000 \<le> lastUpdated r \<longrightarrow> recentTrend (buildRiskReport r c p now) \<noteq> ''stale'')"
proof -
  have age0: "now div 1000 \<le> lastUpdated r \<Longrightarrow> spec_ageSeconds r now = 0"
    by (simp add: spec_ageSeconds_def)
  have "now div 1000 \<le> lastUpdated r \<longrightarrow> recentTrend (buildRiskReport r c p now) \<noteq> ''stale''"
  proof
    assume "now div 1000 \<le> lastUpdated r"
    then have "spec_ageSeconds r now = 0" by (rule age0)
    then show "recentTrend (buildRiskReport r c p now) \<noteq> ''stale''"
      by (simp add: recentTrend_unfold)
  qed
  then show ?thesis
    using recentTrend_unfold [of r c p now] by (simp add: spec_ageSeconds_def)
qed

text \<open>Witness for C7: a record updated 1000 seconds in the future, with two risk
  factors.\<close>

theorem recentTrend_priority_witness:
  "recentTrend (buildRiskReport
      \<lparr> score = 100, totalFeedback = 0, positiveFeedback = 0, lastUpdated = 5000, exists = True \<rparr>
      \<lparr> confidenceThresholdFeedbackCount = 50, negativeFlagThresholdBps = 1000 \<rparr> 900000 4000000) = ''caution''
   \<and> (4000000::nat) div 1000 \<le> 5000"
  using recentTrend_priority
      [where p = 900000 and now = 4000000
         and r = "\<lparr> score = 100, totalFeedback = 0, positiveFeedback = 0, lastUpdated = 5000, exists = True \<rparr>"
         and c = "\<lparr> confidenceThresholdFeedbackCount = 50, negativeFlagThresholdBps = 1000 \<rparr>"]
  by (simp add: buildRiskReport_def Let_def)

subsection \<open>Confidence\<close>

lemma spec_confidence_eq:
  "spec_confidence r c =
     (if confidenceThresholdFeedbackCount c = 0 then 1
      else min 1 (real (totalFeedback r) / real (confidenceThresholdFeedbackCount c)))"
  by (simp add: spec_confidence_def clamp_def max_def min_def)

text \<open>The double-precision quotient, capped at 1, is within \<open>10 ^ -14\<close> of the exact
  one.\<close>

lemma double_confidence_near:
  fixes t h :: nat
  assumes pos: "0 < h" and bound: "h < 2 ^ 256"
  shows "0 \<le> min 1 (js_divide (Number_BigInt (int t)) (Number_BigInt (int h)))"
    and "\<bar>min 1 (js_divide (Number_BigInt (int t)) (Number_BigInt (int h)))
          - min 1 (real t / real h)\<bar> \<le> 1 / 10 ^ 14"
proof -
  define N :: real where "N = real t"
  define T :: real where "T = real h"
  define q where "q = toDouble (toDouble N / toDouble T)"
  have q_eq: "js_divide (Number_BigInt (int t)) (Number_BigInt (int h)) = q"
    by (simp add: js_divide_def Number_BigInt_def q_def N_def T_def)
  have T1: "1 \<le> T" using pos by (simp add: T_def)
  have Tb: "T < 2 ^ 256" using bound by (simp add: T_def)
  have E0: "0 \<le> N / T" using T1 by (simp add: N_def)
  have main: "0 \<le> min 1 q \<and> \<bar>min 1 q - min 1 (N / T)\<bar> \<le> 1 / 100000000000000"
  proof (cases "t = 0")
    case True
    then have "N = 0" by (simp add: N_def)
    then have "q = 0" by (simp add: q_def toDouble_zero)
    then show ?thesis using \<open>N = 0\<close> by simp
  next
    case False
    then have N1: "1 \<le> N" by (simp add: N_def)
    have q_lo: "N / T * (1 - 4 / 2 ^ 53) \<le> q" and q_hi: "q \<le> N / T * (1 + 4 / 2 ^ 53)"
      unfolding q_def using double_quotient_bounds [OF N1 T1 Tb] by simp_all
    define E where "E = N / T"
    have E0': "0 \<le> E" using E0 by (simp add: E_def)
    have lo: "E * (1 - 4 / 2 ^ 53) \<le> q" using q_lo by (simp only: E_def)
    have hi: "q \<le> E * (1 + 4 / 2 ^ 53)" using q_hi by (simp only: E_def)
    have q0: "0 \<le> q" using lo E0' by simp
    have "0 \<le> min 1 q \<and> \<bar>min 1 q - min 1 E\<bar> \<le> 1 / 100000000000000"
    proof (cases "E \<le> 2")
      case True
      define w :: real where "w = 8 / 2 ^ 53"
      have u: "E * (4 / 2 ^ 53) \<le> 2 * (4 / 2 ^ 53)" using True by simp
      have d1: "q - E \<le> w" unfolding w_def using hi u by (simp add: algebra_simps)
      have d2: "E - q \<le> w" unfolding w_def using lo u by (simp add: algebra_simps)
      have w: "w \<le> 1 / 100000000000000" by (simp add: w_def)
      have "\<bar>min 1 q - min 1 E\<bar> \<le> w" using d1 d2 w unfolding min_def by (auto; linarith)
      then have "\<bar>min 1 q - min 1 E\<bar> \<le> 1 / 100000000000000" using w by linarith
      then show ?thesis using q0 by simp
    next
      case False
      then have "1 \<le> q" using lo by simp
      then show ?thesis using False by simp
    qed
    then show ?thesis by (simp add: E_def)
  qed
  show "0 \<le> min 1 (js_divide (Number_BigInt (int t)) (Number_BigInt (int h)))"
    using main by (simp only: q_eq)
  show "\<bar>min 1 (js_divide (Number_BigInt (int t)) (Number_BigInt (int h)))
          - min 1 (real t / real h)\<bar> \<le> 1 / 10 ^ 14"
    using main unfolding q_eq N_def T_def by simp
qed

text \<open>\<^verbatim>\<open>toFixed(4)\<close> of a number of \<open>[0, 1]\<close> is a number of ten-thousandths within
  \<open>0.00005\<close> of it.\<close>

lemma toFixed4_unit:
  assumes "0 \<le> x" and "x \<le> 1"
  shows "\<exists>k. 0 \<le> k \<and> k \<le> 10000 \<and> toFixed4 x = of_int k / 10000
             \<and> \<bar>of_int k / 10000 - x\<bar> \<le> 1 / 20000"
proof -
  define k where "k = \<lfloor>x * 10000 + 1 / 2\<rfloor>"
  have lo: "of_int k \<le> x * 10000 + 1 / 2" and hi: "x * 10000 + 1 / 2 < of_int k + 1"
    unfolding k_def by linarith+
  have "(0::real) \<le> x * 10000 + 1 / 2" using assms by simp
  then have k0: "0 \<le> k" unfolding k_def by simp
  have "x * 10000 + 1 / 2 < real_of_int (10000 + 1)" using assms by simp
  then have "k < 10000 + 1" unfolding k_def by (simp only: floor_less_iff)
  then have k1: "k \<le> 10000" by simp
  have eq: "toFixed4 x = of_int k / 10000" using assms by (simp add: toFixed4_def k_def)
  have "\<bar>of_int k / 10000 - x\<bar> \<le> 1 / 20000" using lo hi by linarith
  then show ?thesis using k0 k1 eq by blast
qed

lemma Number_toFixed4_one: "Number_toFixed4 1 = 1"
  by (simp add: Number_toFixed4_def toFixed4_def toDouble_one)

lemma report_confidence_unfold:
  "confidence (buildRiskReport r c p now) =
     Number_toFixed4
       (if confidenceThresholdFeedbackCount c = 0 then 1
        else min 1 (js_divide (Number_BigInt (int (totalFeedback r)))
                              (Number_BigInt (int (confidenceThresholdFeedbackCount c)))))"
  by (simp add: buildRiskReport_def Let_def)

lemma score_confidence_eq:
  assumes "confidenceThresholdFeedbackCount c \<noteq> 0 \<or> 0 < totalFeedback r"
  shows "scoreConfidence r c = confidence (buildRiskReport r c p now)"
proof (cases "confidenceThresholdFeedbackCount c = 0")
  case True
  then have "0 < totalFeedback r" using assms by simp
  then have "1 \<le> Number_BigInt (int (totalFeedback r))" by (rule Number_BigInt_pos)
  then have "1 \<le> toDouble (Number_BigInt (int (totalFeedback r)))" by (rule toDouble_ge_one)
  then show ?thesis using True
    by (simp add: scoreConfidence_def report_confidence_unfold Let_def js_divide_def
        Number_BigInt_def toDouble_zero)
next
  case False
  then have "0 < confidenceThresholdFeedbackCount c" by simp
  then have "1 \<le> Number_BigInt (int (confidenceThresholdFeedbackCount c))"
    by (rule Number_BigInt_pos)
  then have "Number_BigInt (int (confidenceThresholdFeedbackCount c)) \<noteq> 0" by simp
  then show ?thesis using False
    by (simp add: scoreConfidence_def report_confidence_unfold Let_def)
qed

text \<open>
  C3, as amended. For every record and scoring configuration (counts and threshold below
  \<open>2 ^ 256\<close>) the confidence served by \<^verbatim>\<open>/report\<close> is 1 when the threshold is zero, and
  \<^verbatim>\<open>/score\<close> serves the same value as \<^verbatim>\<open>/report\<close> whenever the threshold is not zero or
  \<open>totalFeedback > 0\<close>. The served value lies in \<open>[0, 1]\<close> and is the double nearest to a
  number of ten-thousandths \<open>k / 10000\<close> that is within \<open>0.00005 + 10 ^ -14\<close> of
  \<open>clamp(totalFeedback / confidenceThresholdFeedbackCount, 0, 1)\<close>.
\<close>

theorem confidence_served:
  assumes "totalFeedback r < 2 ^ 256" and "confidenceThresholdFeedbackCount c < 2 ^ 256"
  shows "(confidenceThresholdFeedbackCount c = 0 \<longrightarrow> confidence (buildRiskReport r c p now) = 1)
   \<and> (confidenceThresholdFeedbackCount c \<noteq> 0 \<or> 0 < totalFeedback r \<longrightarrow>
        scoreConfidence r c = confidence (buildRiskReport r c p now))
   \<and> 0 \<le> confidence (buildRiskReport r c p now)
   \<and> confidence (buildRiskReport r c p now) \<le> 1
   \<and> (\<exists>k. 0 \<le> k \<and> k \<le> 10000
          \<and> confidence (buildRiskReport r c p now) = toDouble (of_int k / 10000)
          \<and> \<bar>of_int k / 10000 - spec_confidence r c\<bar> \<le> 1 / 20000 + 1 / 10 ^ 14)"
proof -
  define x where "x = (if confidenceThresholdFeedbackCount c = 0 then 1
        else min 1 (js_divide (Number_BigInt (int (totalFeedback r)))
                              (Number_BigInt (int (confidenceThresholdFeedbackCount c)))))"
  have conf: "confidence (buildRiskReport r c p now) = toDouble (toFixed4 x)"
    by (simp add: report_confidence_unfold x_def Number_toFixed4_def)
  have zero: "confidenceThresholdFeedbackCount c = 0 \<longrightarrow> confidence (buildRiskReport r c p now) = 1"
    using Number_toFixed4_one by (simp add: report_confidence_unfold)
  have x_facts: "0 \<le> x \<and> x \<le> 1 \<and> \<bar>x - spec_confidence r c\<bar> \<le> 1 / 100000000000000"
  proof (cases "confidenceThresholdFeedbackCount c = 0")
    case True
    then show ?thesis by (simp add: x_def spec_confidence_eq)
  next
    case False
    then have pos: "0 < confidenceThresholdFeedbackCount c" by simp
    show ?thesis
      using double_confidence_near [OF pos assms(2), of "totalFeedback r"] False
      by (simp add: x_def spec_confidence_eq)
  qed
  then have x0: "0 \<le> x" and x1: "x \<le> 1"
    and xs: "\<bar>x - spec_confidence r c\<bar> \<le> 1 / 100000000000000" by simp_all
  obtain k where k0: "0 \<le> k" and k1: "k \<le> 10000" and fx: "toFixed4 x = of_int k / 10000"
    and near: "\<bar>of_int k / 10000 - x\<bar> \<le> 1 / 20000"
    using toFixed4_unit [OF x0 x1] by blast
  have d0: "(0::real) \<le> of_int k / 10000" using k0 by simp
  have d1: "(of_int k / 10000 :: real) \<le> 1" using k1 by simp
  have r0: "0 \<le> confidence (buildRiskReport r c p now)"
    unfolding conf fx by (rule toDouble_nonneg [OF d0])
  have r1: "confidence (buildRiskReport r c p now) \<le> 1"
    unfolding conf fx by (rule toDouble_le_one [OF d0 d1])
  have "\<bar>of_int k / 10000 - spec_confidence r c\<bar> \<le> 1 / 20000 + 1 / 100000000000000"
    using near xs by linarith
  then have close: "\<bar>of_int k / 10000 - spec_confidence r c\<bar> \<le> 1 / 20000 + 1 / 10 ^ 14"
    by simp
  have ex: "\<exists>k. 0 \<le> k \<and> k \<le> 10000
          \<and> confidence (buildRiskReport r c p now) = toDouble (of_int k / 10000)
          \<and> \<bar>of_int k / 10000 - spec_confidence r c\<bar> \<le> 1 / 20000 + 1 / 10 ^ 14"
    using k0 k1 conf fx close by auto
  show ?thesis
    using zero score_confidence_eq [of c r p now] r0 r1 ex by blast
qed


text \<open>Witness for C3: 49 feedback entries against a threshold of 50, and a zero
  threshold.\<close>

theorem confidence_served_witness:
  "confidence (buildRiskReport
      \<lparr> score = 950, totalFeedback = 49, positiveFeedback = 49, lastUpdated = 0, exists = True \<rparr>
      \<lparr> confidenceThresholdFeedbackCount = 50, negativeFlagThresholdBps = 1000 \<rparr> 900000 0)
     = toDouble (98 / 100)
   \<and> scoreConfidence
      \<lparr> score = 950, totalFeedback = 49, positiveFeedback = 49, lastUpdated = 0, exists = True \<rparr>
      \<lparr> confidenceThresholdFeedbackCount = 50, negativeFlagThresholdBps = 1000 \<rparr>
     = toDouble (98 / 100)
   \<and> confidence (buildRiskReport
      \<lparr> score = 950, totalFeedback = 0, positiveFeedback = 0, lastUpdated = 0, exists = True \<rparr>
      \<lparr> confidenceThresholdFeedbackCount = 0, negativeFlagThresholdBps = 1000 \<rparr> 900000 0) = 1
   \<and> (49::nat) < 2 ^ 256 \<and> (50::nat) < 2 ^ 256 \<and> (0::nat) < 2 ^ 256"
proof -
  have q: "toDouble (49 / 50) = 2206763817411543 / 2251799813685248"
    using toDouble_in_binade [of "- 1" "49 / 50"]
    by (simp add: roundHalfEven_def)
  have v: "confidence (buildRiskReport
      \<lparr> score = 950, totalFeedback = 49, positiveFeedback = 49, lastUpdated = 0, exists = True \<rparr>
      \<lparr> confidenceThresholdFeedbackCount = 50, negativeFlagThresholdBps = 1000 \<rparr> 900000 0)
     = toDouble (98 / 100)"
    by (simp add: buildRiskReport_def Let_def Number_toFixed4_def toFixed4_def js_divide_def
        Number_BigInt_def toDouble_numeral q)
  show ?thesis
    using v confidence_served
      [where r = "\<lparr> score = 950, totalFeedback = 49, positiveFeedback = 49, lastUpdated = 0, exists = True \<rparr>"
         and c = "\<lparr> confidenceThresholdFeedbackCount = 50, negativeFlagThresholdBps = 1000 \<rparr>"
         and p = 900000 and now = 0]
      confidence_served
      [where r = "\<lparr> score = 950, totalFeedback = 0, positiveFeedback = 0, lastUpdated = 0, exists = True \<rparr>"
         and c = "\<lparr> confidenceThresholdFeedbackCount = 0, negativeFlagThresholdBps = 1000 \<rparr>"
         and p = 900000 and now = 0]
    by simp
qed

text \<open>Counterexample to C3 as stated: one feedback entry against a threshold of 3 is
  served as \<open>0.3333\<close>, not \<open>1/3\<close>; with a zero threshold and no feedback \<^verbatim>\<open>/score\<close>
  serves 0, not 1; and 3 entries against a threshold of 160 are served as \<open>0.0187\<close>,
  the double of \<open>3 / 160\<close> lying below \<open>0.01875\<close>, which \<^verbatim>\<open>toFixed(4)\<close> writes as
  \<open>0.0188\<close>.\<close>

theorem confidence_served_counterexample:
  "confidence (buildRiskReport
      \<lparr> score = 950, totalFeedback = 1, positiveFeedback = 1, lastUpdated = 0, exists = True \<rparr>
      \<lparr> confidenceThresholdFeedbackCount = 3, negativeFlagThresholdBps = 1000 \<rparr> 900000 0)
     = toDouble (3333 / 10000)
   \<and> toDouble (3333 / 10000) < 1 / 3
   \<and> clamp (real 1 / real 3) 0 1 = 1 / 3
   \<and> scoreConfidence
      \<lparr> score = 950, totalFeedback = 0, positiveFeedback = 0, lastUpdated = 0, exists = True \<rparr>
      \<lparr> confidenceThresholdFeedbackCount = 0, negativeFlagThresholdBps = 1000 \<rparr> = 0
   \<and> confidence (buildRiskReport
      \<lparr> score = 950, totalFeedback = 3, positiveFeedback = 3, lastUpdated = 0, exists = True \<rparr>
      \<lparr> confidenceThresholdFeedbackCount = 160, negativeFlagThresholdBps = 1000 \<rparr> 900000 0)
     = toDouble (187 / 10000)
   \<and> toFixed4 (clamp (real 3 / real 160) 0 1) = 188 / 10000"
proof -
  have q1: "toDouble (1 / 3) = 6004799503160661 / 18014398509481984"
    using toDouble_in_binade [of "- 2" "1 / 3"]
    by (simp add: roundHalfEven_def)
  have q2: "toDouble (3333 / 10000) = 6004199023210345 / 18014398509481984"
    using toDouble_in_binade [of "- 2" "3333 / 10000"]
    by (simp add: roundHalfEven_def)
  have q3: "toDouble (3 / 160) = 5404319552844595 / 288230376151711744"
    using toDouble_in_binade [of "- 6" "3 / 160"]
    by (simp add: roundHalfEven_def)
  show ?thesis
    by (simp add: buildRiskReport_def scoreConfidence_def Let_def Number_toFixed4_def toFixed4_def
        js_divide_def Number_BigInt_def toDouble_numeral toDouble_one toDouble_zero clamp_def
        q1 q2 q3)
qed

subsection \<open>Risk factors\<close>

text \<open>
  C8. The risk factors hold \<^verbatim>\<open>low_feedback_volume\<close> exactly when
  \<open>totalFeedback < confidenceThresholdFeedbackCount\<close>, \<^verbatim>\<open>high_negative_feedback_ratio\<close>
  exactly when the report is flagged (\<open>totalFeedback > 0\<close> and
  \<open>negativeRateBps > negativeFlagThresholdBps\<close>) and \<^verbatim>\<open>low_trust_score\<close> exactly when
  \<open>score < 500\<close>, in that order, without duplicates and with nothing else.
\<close>

theorem riskFactors_contents:
  "riskFactors (buildRiskReport r c p now) =
      (if totalFeedback r < confidenceThresholdFeedbackCount c then [''low_feedback_volume''] else [])
      @ (if flagged (buildRiskReport r c p now) then [''high_negative_feedback_ratio''] else [])
      @ (if score r < 500 then [''low_trust_score''] else [])
   \<and> flagged (buildRiskReport r c p now) =
      (totalFeedback r > 0
       \<and> negativeRateBps (buildRiskReport r c p now) > negativeFlagThresholdBps c)
   \<and> ((''low_feedback_volume'' \<in> set (riskFactors (buildRiskReport r c p now)))
        = (totalFeedback r < confidenceThresholdFeedbackCount c))
   \<and> ((''high_negative_feedback_ratio'' \<in> set (riskFactors (buildRiskReport r c p now)))
        = flagged (buildRiskReport r c p now))
   \<and> ((''low_trust_score'' \<in> set (riskFactors (buildRiskReport r c p now))) = (score r < 500))
   \<and> distinct (riskFactors (buildRiskReport r c p now))
   \<and> set (riskFactors (buildRiskReport r c p now))
        \<subseteq> {''low_feedback_volume'', ''high_negative_feedback_ratio'', ''low_trust_score''}"
  by (simp add: buildRiskReport_def Let_def)

subsection \<open>Access resolution\<close>

text \<open>
  C1. For every request, gateway state and environment, the resolver returns the decision
  of the five rules in their order: real middleware gives \<open>full\<close>; else payment proof
  gives \<open>full\<close> tagged \<^verbatim>\<open>paid_stub\<close>; else demo allowed and the demo flag give \<open>demo\<close> tagged
  \<^verbatim>\<open>demo_free\<close>; else a fallback from real or the stub-enforcement override gives
  \<open>challenge\<close> with a reason; else \<open>full\<close>. Rule 1 overrides the proof and demo checks,
  and the demo rule never gives \<open>full\<close>.
\<close>

theorem resolvePaidRouteAccess_precedence:
  "tierOf (fst (resolvePaidRouteAccess req status env gateway))
     = fst (resolve_spec (usingRealMiddleware gateway) (hasPaymentProof (extractPaymentHeaders req))
              (toBoolean (env_get env ''X402_ALLOW_DEMO_QUERY'') True) (isDemoRequest req)
              (fallbackFromReal gateway \<or> toBoolean (env_get env ''X402_STUB_ENFORCE'') False))
   \<and> snd (resolvePaidRouteAccess req status env gateway)
     = (case snd (resolve_spec (usingRealMiddleware gateway) (hasPaymentProof (extractPaymentHeaders req))
              (toBoolean (env_get env ''X402_ALLOW_DEMO_QUERY'') True) (isDemoRequest req)
              (fallbackFromReal gateway \<or> toBoolean (env_get env ''X402_STUB_ENFORCE'') False)) of
          None \<Rightarrow> status
        | Some tag \<Rightarrow> Some tag)
   \<and> allowFullResponse (fst (resolvePaidRouteAccess req status env gateway))
     = (tierOf (fst (resolvePaidRouteAccess req status env gateway)) = Full)
   \<and> allowDemoResponse (fst (resolvePaidRouteAccess req status env gateway))
     = (tierOf (fst (resolvePaidRouteAccess req status env gateway)) = Demo)
   \<and> (paymentReason (fst (resolvePaidRouteAccess req status env gateway)) = Some stubFallbackReason)
     = (tierOf (fst (resolvePaidRouteAccess req status env gateway)) = Challenge)
   \<and> (usingRealMiddleware gateway \<longrightarrow> tierOf (fst (resolvePaidRouteAccess req status env gateway)) = Full)
   \<and> (\<not> usingRealMiddleware gateway \<and> \<not> hasPaymentProof (extractPaymentHeaders req)
        \<and> toBoolean (env_get env ''X402_ALLOW_DEMO_QUERY'') True \<and> isDemoRequest req
       \<longrightarrow> tierOf (fst (resolvePaidRouteAccess req status env gateway)) = Demo)"
  by (simp add: resolvePaidRouteAccess_def resolve_spec_def tierOf_def Let_def)

text \<open>Witness for C1: under real middleware a request with the demo flag and no proof is
  served in full; under a stub gateway that fell back from real the same request is
  served the demo tier.\<close>

theorem resolvePaidRouteAccess_precedence_witness:
  "tierOf (fst (resolvePaidRouteAccess
      \<lparr> req_method = ''GET'', req_path = ''/score/1'', req_headers = [], query_demo = QString ''true'' \<rparr>
      None (\<lambda>name. None)
      \<lparr> mode = ''real'', usingRealMiddleware = True, fallbackFromReal = False, reason = [],
        middleware = RealMiddleware, payToAddress = None \<rparr>)) = Full
   \<and> tierOf (fst (resolvePaidRouteAccess
      \<lparr> req_method = ''GET'', req_path = ''/score/1'', req_headers = [], query_demo = QString ''true'' \<rparr>
      None (\<lambda>name. None)
      \<lparr> mode = ''stub'', usingRealMiddleware = False, fallbackFromReal = True, reason = [],
        middleware = StubMiddleware [] False, payToAddress = None \<rparr>)) = Demo"
proof -
  have demo: "isDemoRequest
      \<lparr> req_method = ''GET'', req_path = ''/score/1'', req_headers = [], query_demo = QString ''true'' \<rparr>"
    by (simp add: isDemoRequest_def trim_def isWhiteSpace_def toLowerCase_def toLowerChar_def)
  have noproof: "\<not> hasPaymentProof (extractPaymentHeaders
      \<lparr> req_method = ''GET'', req_path = ''/score/1'', req_headers = [], query_demo = QString ''true'' \<rparr>)"
    by (simp add: hasPaymentProof_def extractPaymentHeaders_def truthyHeader_def toLowerCase_def)
  have allowed: "toBoolean (env_get (\<lambda>name. None) ''X402_ALLOW_DEMO_QUERY'') True"
    by (simp add: toBoolean_def env_get_def)
  show ?thesis
    using demo noproof allowed
      resolvePaidRouteAccess_precedence
        [where gateway = "\<lparr> mode = ''real'', usingRealMiddleware = True, fallbackFromReal = False,
            reason = [], middleware = RealMiddleware, payToAddress = None \<rparr>"
           and req = "\<lparr> req_method = ''GET'', req_path = ''/score/1'', req_headers = [],
            query_demo = QString ''true'' \<rparr>"
           and status = None and env = "\<lambda>name. None"]
      resolvePaidRouteAccess_precedence
        [where gateway = "\<lparr> mode = ''stub'', usingRealMiddleware = False, fallbackFromReal = True,
            reason = [], middleware = StubMiddleware [] False, payToAddress = None \<rparr>"
           and req = "\<lparr> req_method = ''GET'', req_path = ''/score/1'', req_headers = [],
            query_demo = QString ''true'' \<rparr>"
           and status = None and env = "\<lambda>name. None"]
    by (simp add: resolve_spec_def)
qed

subsection \<open>Route matching\<close>

text \<open>The source that \<open>routeToRegex\<close> builds is always read by \<open>parseRegex\<close>, as the
  tokens of the pattern.\<close>

lemma nameChar_not_syntax: "isNameChar c \<Longrightarrow> \<not> isSyntaxChar c"
  by (auto simp add: isNameChar_def isSyntaxChar_def)

lemma backslash_syntax: "isSyntaxChar backslash"
  by (simp add: isSyntaxChar_def backslash_def)

lemma backslash_not_name: "\<not> isNameChar backslash"
  using nameChar_not_syntax backslash_syntax by blast

lemma colon_not_syntax: "\<not> isSyntaxChar CHR '':''"
  by (simp add: isSyntaxChar_def)

lemma bracket_syntax: "isSyntaxChar CHR ''[''"
  by (simp add: isSyntaxChar_def)

lemma takeWhile_escapeSyntax:
  "takeWhile isNameChar (escapeSyntax cs) = takeWhile isNameChar cs"
  by (induction cs) (auto simp add: nameChar_not_syntax backslash_not_name)

lemma dropWhile_escapeSyntax:
  "dropWhile isNameChar (escapeSyntax cs) = escapeSyntax (dropWhile isNameChar cs)"
  by (induction cs) (auto simp add: nameChar_not_syntax backslash_not_name)

lemma parseBody_placeholder:
  "parseBody (CHR ''['' # CHR ''^'' # CHR ''/'' # CHR '']'' # CHR ''+'' # rest)
     = map_option (Cons NotSlashPlus) (parseBody rest)"
  by (simp add: backslash_def)

lemma parseBody_compiled:
  "parseBody (replacePlaceholders (escapeSyntax p)) = Some (patternTokens p)"
proof (induction p rule: patternTokens.induct)
  case 1
  then show ?case by simp
next
  case (2 c cs)
  show ?case
  proof (cases "isSyntaxChar c")
    case True
    then have nc: "c \<noteq> CHR '':''" using colon_not_syntax by auto
    have nb: "backslash \<noteq> CHR '':''" by (simp add: backslash_def)
    from True nc nb 2 show ?thesis by simp
  next
    case False
    note ns = this
    show ?thesis
    proof (cases "c = CHR '':'' \<and> takeWhile isNameChar cs \<noteq> []")
      case True
      then show ?thesis using 2 ns
        by (simp add: takeWhile_escapeSyntax dropWhile_escapeSyntax parseBody_placeholder del: parseBody.simps)
    next
      case False
      have nb: "c \<noteq> backslash" using ns backslash_syntax by auto
      have nbr: "c \<noteq> CHR ''[''" using ns bracket_syntax by auto
      from False ns nb nbr 2 show ?thesis
        by (auto simp add: takeWhile_escapeSyntax)
    qed
  qed
qed

lemma parseRegex_routeToRegex: "parseRegex (routeToRegex p) = Some (patternTokens p)"
  by (simp add: parseRegex_def routeToRegex_def parseBody_compiled butlast_append)

lemma regex_test_routeToRegex: "regex_test (routeToRegex p) s = rx_match (patternTokens p) s"
  by (simp add: regex_test_def parseRegex_routeToRegex)

text \<open>Matching the tokens of a pattern is matching segment by segment.\<close>

lemma split_not_Nil: "split s c \<noteq> []"
  by (induction s) (auto split: list.splits)

lemma split_unfold:
  "split s c =
     (case dropWhile (\<lambda>d. d \<noteq> c) s of
        [] \<Rightarrow> [s]
      | _ # rest \<Rightarrow> takeWhile (\<lambda>d. d \<noteq> c) s # split rest c)"
proof (induction s)
  case Nil
  then show ?case by simp
next
  case (Cons x xs)
  note IH = Cons.IH
  show ?case
  proof (cases "x = c")
    case True
    then show ?thesis by simp
  next
    case False
    show ?thesis
    proof (cases "dropWhile (\<lambda>d. d \<noteq> c) xs")
      case Nil
      have "split xs c = [xs]" using IH [unfolded Nil] by simp
      then show ?thesis using False by (simp add: Nil)
    next
      case (Cons y ys)
      have "split xs c = takeWhile (\<lambda>d. d \<noteq> c) xs # split ys c"
        using IH [unfolded Cons] by simp
      then show ?thesis using False by (simp add: Cons)
    qed
  qed
qed

lemma slash_not_name: "\<not> isNameChar CHR ''/''"
  by (simp add: isNameChar_def)

lemma takeWhile_name_slash:
  "takeWhile isNameChar (xs @ CHR ''/'' # ys) = takeWhile isNameChar xs"
  by (induction xs) (simp_all add: slash_not_name)

lemma dropWhile_name_slash:
  "dropWhile isNameChar (xs @ CHR ''/'' # ys) = dropWhile isNameChar xs @ CHR ''/'' # ys"
  by (induction xs) (simp_all add: slash_not_name)

lemma set_dropWhile_subset: "set (dropWhile P xs) \<subseteq> set xs"
  by (induction xs) auto

lemma patternTokens_slashFree:
  "CHR ''/'' \<notin> set a \<Longrightarrow> Lit CHR ''/'' \<notin> set (patternTokens a)"
proof (induction a rule: patternTokens.induct)
  case 1
  then show ?case by simp
next
  case (2 c cs)
  have "set (dropWhile isNameChar cs) \<subseteq> set cs" by (rule set_dropWhile_subset)
  then show ?case using 2 by auto
qed

lemma patternTokens_append_slash:
  "CHR ''/'' \<notin> set a \<Longrightarrow>
   patternTokens (a @ CHR ''/'' # b) = patternTokens a @ Lit CHR ''/'' # patternTokens b"
proof (induction a rule: patternTokens.induct)
  case 1
  then show ?case by (simp add: slash_not_name)
next
  case (2 c cs)
  have sub: "set (dropWhile isNameChar cs) \<subseteq> set cs" by (rule set_dropWhile_subset)
  show ?case
  proof (cases "c = CHR '':'' \<and> takeWhile isNameChar cs \<noteq> []")
    case True
    then have "CHR ''/'' \<notin> set (dropWhile isNameChar cs)" using 2(3) sub by auto
    then have "patternTokens (dropWhile isNameChar cs @ CHR ''/'' # b) =
        patternTokens (dropWhile isNameChar cs) @ Lit CHR ''/'' # patternTokens b"
      using 2(1) True by simp
    then show ?thesis using True
      by (simp add: takeWhile_name_slash dropWhile_name_slash)
  next
    case False
    then have "patternTokens (cs @ CHR ''/'' # b) = patternTokens cs @ Lit CHR ''/'' # patternTokens b"
      using 2(2) 2(3) by simp
    then show ?thesis using False
      by (simp add: takeWhile_name_slash)
  qed
qed

lemma rx_match_slashFree:
  "Lit CHR ''/'' \<notin> set A \<Longrightarrow> rx_match A s \<Longrightarrow> CHR ''/'' \<notin> set s"
proof (induction A s rule: rx_match.induct)
  case (1 s)
  then show ?case by simp
next
  case (2 c r s)
  then show ?case by (cases s) auto
next
  case (3 r s)
  then show ?case by (cases s) auto
qed

lemma rx_match_append_slash:
  "Lit CHR ''/'' \<notin> set A \<Longrightarrow>
   rx_match (A @ Lit CHR ''/'' # R) s =
     (rx_match A (takeWhile (\<lambda>d. d \<noteq> CHR ''/'') s)
      \<and> (case dropWhile (\<lambda>d. d \<noteq> CHR ''/'') s of [] \<Rightarrow> False | _ # rest \<Rightarrow> rx_match R rest))"
proof (induction A s rule: rx_match.induct)
  case (1 s)
  then show ?case by (cases s) auto
next
  case (2 c r s)
  then show ?case by (cases s) auto
next
  case (3 r s)
  then show ?case by (cases s) auto
qed

lemma dropWhile_slash_head:
  "dropWhile (\<lambda>d. d \<noteq> CHR ''/'') p = x # b \<Longrightarrow> x = CHR ''/''"
  using hd_dropWhile [of "\<lambda>d. d \<noteq> CHR ''/''" p] by auto

lemma segments_not_Nil: "segments s \<noteq> []"
  by (simp add: segments_def split_not_Nil)

lemma rx_match_pathAligned: "rx_match (patternTokens p) s = pathAligned p s"
proof (induction p arbitrary: s rule: length_induct)
  case (1 p)
  let ?notSlash = "\<lambda>d. d \<noteq> CHR ''/''"
  show ?case
  proof (cases "dropWhile ?notSlash p")
    case Nil
    then have free: "CHR ''/'' \<notin> set p" by auto
    have segp: "segments p = [p]"
      unfolding segments_def by (subst split_unfold) (simp add: Nil)
    show ?thesis
    proof (cases "dropWhile ?notSlash s")
      case Nil
      then have "segments s = [s]"
        unfolding segments_def by (subst split_unfold) (simp add: Nil)
      then show ?thesis by (simp add: pathAligned_def segp segmentMatches_def)
    next
      case (Cons y rest)
      then have "CHR ''/'' \<in> set s"
        using dropWhile_eq_Nil_conv [of ?notSlash s] by auto
      then have no: "\<not> rx_match (patternTokens p) s"
        using rx_match_slashFree [OF patternTokens_slashFree [OF free]] by blast
      have "segments s = takeWhile ?notSlash s # segments rest"
        unfolding segments_def by (subst split_unfold) (simp add: Cons)
      then have "\<not> pathAligned p s"
        by (simp add: pathAligned_def segp segments_not_Nil)
      then show ?thesis using no by simp
    qed
  next
    case (Cons x b)
    then have x: "x = CHR ''/''" by (rule dropWhile_slash_head)
    define a where "a = takeWhile ?notSlash p"
    have p: "p = a @ CHR ''/'' # b"
      using takeWhile_dropWhile_id [of ?notSlash p] Cons x by (simp add: a_def)
    have free: "CHR ''/'' \<notin> set a"
      unfolding a_def using set_takeWhileD by fastforce
    have segp: "segments p = a # segments b"
      unfolding segments_def by (subst split_unfold) (simp add: Cons a_def)
    have len: "length b < length p" by (simp add: p)
    have IH: "\<And>t. rx_match (patternTokens b) t = pathAligned b t"
      using 1 len by blast
    have tok: "patternTokens p = patternTokens a @ Lit CHR ''/'' # patternTokens b"
      unfolding p by (rule patternTokens_append_slash [OF free])
    show ?thesis
    proof (cases "dropWhile ?notSlash s")
      case Nil
      then have "segments s = [s]"
        unfolding segments_def by (subst split_unfold) (simp add: Nil)
      then have "\<not> pathAligned p s"
        by (simp add: pathAligned_def segp segments_not_Nil)
      moreover have "\<not> rx_match (patternTokens p) s"
        unfolding tok using rx_match_append_slash [OF patternTokens_slashFree [OF free]]
        by (simp add: Nil)
      ultimately show ?thesis by simp
    next
      case (Cons y rest)
      have segs: "segments s = takeWhile ?notSlash s # segments rest"
        unfolding segments_def by (subst split_unfold) (simp add: Cons)
      have "rx_match (patternTokens p) s =
          (rx_match (patternTokens a) (takeWhile ?notSlash s) \<and> rx_match (patternTokens b) rest)"
        unfolding tok using rx_match_append_slash [OF patternTokens_slashFree [OF free]]
        by (simp add: Cons)
      then show ?thesis
        by (simp add: pathAligned_def segp segs segmentMatches_def IH [unfolded pathAligned_def])
    qed
  qed
qed


lemma pathAligned_same_length:
  "pathAligned p s \<Longrightarrow> length (segments p) = length (segments s)"
  by (simp add: pathAligned_def list_all2_lengthD)

lemma patternTokens_placeholder: "isPlaceholder seg \<Longrightarrow> patternTokens seg = [NotSlashPlus]"
proof -
  assume "isPlaceholder seg"
  then obtain name where seg: "seg = CHR '':'' # name" and ne: "name \<noteq> []"
    and all: "list_all isNameChar name"
    by (cases seg) (auto simp add: isPlaceholder_def)
  have tw: "takeWhile isNameChar name = name" using all by (simp add: list_all_iff)
  have dw: "dropWhile isNameChar name = []" using all by (simp add: list_all_iff)
  show ?thesis by (simp add: seg tw dw ne)
qed

lemma rx_match_wildcard: "rx_match [NotSlashPlus] s = (s \<noteq> [] \<and> CHR ''/'' \<notin> set s)"
  by (induction s) auto

lemma patternTokens_literal: "CHR '':'' \<notin> set seg \<Longrightarrow> patternTokens seg = map Lit seg"
  by (induction seg) auto

lemma rx_match_literal: "rx_match (map Lit seg) s = (s = seg)"
  by (induction seg arbitrary: s) (auto split: list.splits)

lemma segmentMatches_placeholder:
  "isPlaceholder seg \<Longrightarrow> segmentMatches seg s = (s \<noteq> [] \<and> CHR ''/'' \<notin> set s)"
  by (simp only: segmentMatches_def patternTokens_placeholder rx_match_wildcard)

lemma segmentMatches_literal:
  "CHR '':'' \<notin> set seg \<Longrightarrow> segmentMatches seg s = (s = seg)"
  by (simp add: segmentMatches_def patternTokens_literal rx_match_literal)

lemma matchPaidRoute_compiled:
  assumes "\<forall>route \<in> set routes. regex route = routeToRegex (routePath route)"
  shows "matchPaidRoute req routes =
           find (\<lambda>route. route_method route = toUpperCase (req_method req)
                          \<and> pathAligned (routePath route) (req_path req)) routes"
proof -
  have "find (\<lambda>route. route_method route = toUpperCase (req_method req)
                        \<and> regex_test (regex route) (req_path req)) routes
      = find (\<lambda>route. route_method route = toUpperCase (req_method req)
                        \<and> pathAligned (routePath route) (req_path req)) routes"
    using assms by (intro find_cong) (auto simp add: regex_test_routeToRegex rx_match_pathAligned)
  then show ?thesis by (simp add: matchPaidRoute_def Let_def)
qed

lemma buildPaidRoutes_regex:
  "buildPaidRoutes fmt table = Inr routes \<Longrightarrow>
   \<forall>route \<in> set routes. regex route = routeToRegex (routePath route)"
proof (induction table arbitrary: routes)
  case Nil
  then show ?case by simp
next
  case (Cons entry entries)
  then show ?case
    by (auto simp add: buildPaidRoute_def Let_def split: sum.splits option.splits)
qed

lemma buildPaidRoutes_methods:
  "buildPaidRoutes fmt table = Inr routes \<Longrightarrow>
   map route_method routes = map (\<lambda>entry. toUpperCase (hd (split (trim (fst entry)) CHR '' ''))) table
   \<and> map routePath routes
       = map (\<lambda>entry. trim (join (tl (split (trim (fst entry)) CHR '' '')) '' '')) table"
proof (induction table arbitrary: routes)
  case Nil
  then show ?case by simp
next
  case (Cons entry entries)
  then show ?case
    by (auto simp add: buildPaidRoute_def Let_def split: sum.splits option.splits)
qed

text \<open>
  C9, as amended. For every compiled route table and every request, route matching
  returns the first rule whose method, the upper-cased declared one, equals the
  upper-cased request method and whose path segments align one to one with the segments
  of the request path; so it returns a rule exactly when there is such a rule. A
  pattern segment matches a path segment when the path segment is the pattern segment with
  every \<^verbatim>\<open>:name\<close> placeholder replaced by one or more characters: a segment that is one
  placeholder matches exactly the non-empty segments, a segment without a colon matches
  only itself. A path with more or fewer segments than the pattern never matches.
\<close>

theorem matchPaidRoute_alignment:
  assumes "buildPaidRoutes fmt table = Inr routes"
  shows "matchPaidRoute req routes
           = find (\<lambda>route. route_method route = toUpperCase (req_method req)
                            \<and> pathAligned (routePath route) (req_path req)) routes
         \<and> (matchPaidRoute req routes \<noteq> None)
           = list_ex (\<lambda>route. route_method route = toUpperCase (req_method req)
                               \<and> pathAligned (routePath route) (req_path req)) routes
         \<and> map route_method routes
           = map (\<lambda>entry. toUpperCase (hd (split (trim (fst entry)) CHR '' ''))) table
         \<and> map routePath routes
           = map (\<lambda>entry. trim (join (tl (split (trim (fst entry)) CHR '' '')) '' '')) table
         \<and> (\<forall>pattern. pathAligned pattern (req_path req) \<longrightarrow>
                length (segments pattern) = length (segments (req_path req)))
         \<and> (\<forall>seg s. isPlaceholder seg \<longrightarrow>
                segmentMatches seg s = (s \<noteq> [] \<and> CHR ''/'' \<notin> set s))
         \<and> (\<forall>seg s. CHR '':'' \<notin> set seg \<longrightarrow> segmentMatches seg s = (s = seg))"
proof -
  have compiled: "\<forall>route \<in> set routes. regex route = routeToRegex (routePath route)"
    using assms by (rule buildPaidRoutes_regex)
  have first: "matchPaidRoute req routes
           = find (\<lambda>route. route_method route = toUpperCase (req_method req)
                            \<and> pathAligned (routePath route) (req_path req)) routes"
    using compiled by (rule matchPaidRoute_compiled)
  have some: "(matchPaidRoute req routes \<noteq> None)
           = list_ex (\<lambda>route. route_method route = toUpperCase (req_method req)
                               \<and> pathAligned (routePath route) (req_path req)) routes"
    unfolding first by (auto simp add: find_None_iff list_ex_iff)
  show ?thesis
    using first some buildPaidRoutes_methods [OF assms] pathAligned_same_length
      segmentMatches_placeholder segmentMatches_literal
    by blast
qed

lemma example_table:
  "buildPaidRoutes exampleFormatter
     [(''GET /score/:agentId'', Some \<lparr> price = Some ''0.001'', network = Some ''base'',
                                      description = Some ''Agent trust score query'' \<rparr>)]
   = Inr [\<lparr> route_key = ''GET /score/:agentId'', route_method = ''GET'',
            routePath = ''/score/:agentId'', regex = ''^/score/[^/]+$'',
            route_price = ''$0.001'', route_network = Some ''base'',
            route_description = Some ''Agent trust score query'' \<rparr>]"
  by (simp add: buildPaidRoute_def exampleFormatter_def Let_def trim_def isWhiteSpace_def
      toUpperCase_def toUpperChar_def routeToRegex_def isSyntaxChar_def isNameChar_def)

lemma example_mixed_table:
  "buildPaidRoutes exampleFormatter
     [(''GET /files/x:id'', Some \<lparr> price = Some ''0.001'', network = None, description = None \<rparr>)]
   = Inr [\<lparr> route_key = ''GET /files/x:id'', route_method = ''GET'',
            routePath = ''/files/x:id'', regex = ''^/files/x[^/]+$'',
            route_price = ''$0.001'', route_network = None, route_description = None \<rparr>]"
  by (simp add: buildPaidRoute_def exampleFormatter_def Let_def trim_def isWhiteSpace_def
      toUpperCase_def toUpperChar_def routeToRegex_def isSyntaxChar_def isNameChar_def)

lemma aligned_examples:
  "pathAligned ''/score/:agentId'' ''/score/17''"
  "\<not> pathAligned ''/score/:agentId'' ''/score/17/x''"
  "\<not> pathAligned ''/score/:agentId'' ''/score/''"
  "pathAligned ''/files/x:id'' ''/files/x7''"
  by (simp_all add: pathAligned_def segments_def segmentMatches_def isNameChar_def)

text \<open>Witness for C9: the table with \<^verbatim>\<open>GET /score/:agentId\<close> matches \<^verbatim>\<open>/score/17\<close> and
  does not match \<^verbatim>\<open>/score/17/x\<close>.\<close>

theorem matchPaidRoute_alignment_witness:
  "matchPaidRoute
     \<lparr> req_method = ''GET'', req_path = ''/score/17'', req_headers = [], query_demo = QUndefined \<rparr>
     [\<lparr> route_key = ''GET /score/:agentId'', route_method = ''GET'',
        routePath = ''/score/:agentId'', regex = ''^/score/[^/]+$'',
        route_price = ''$0.001'', route_network = Some ''base'',
        route_description = Some ''Agent trust score query'' \<rparr>]
     = Some \<lparr> route_key = ''GET /score/:agentId'', route_method = ''GET'',
        routePath = ''/score/:agentId'', regex = ''^/score/[^/]+$'',
        route_price = ''$0.001'', route_network = Some ''base'',
        route_description = Some ''Agent trust score query'' \<rparr>
   \<and> matchPaidRoute
     \<lparr> req_method = ''GET'', req_path = ''/score/17/x'', req_headers = [], query_demo = QUndefined \<rparr>
     [\<lparr> route_key = ''GET /score/:agentId'', route_method = ''GET'',
        routePath = ''/score/:agentId'', regex = ''^/score/[^/]+$'',
        route_price = ''$0.001'', route_network = Some ''base'',
        route_description = Some ''Agent trust score query'' \<rparr>]
     = None"
proof -
  have up: "toUpperCase ''GET'' = ''GET''"
    by (simp add: toUpperCase_def toUpperChar_def)
  have w1: "matchPaidRoute
     \<lparr> req_method = ''GET'', req_path = ''/score/17'', req_headers = [], query_demo = QUndefined \<rparr>
     [\<lparr> route_key = ''GET /score/:agentId'', route_method = ''GET'',
        routePath = ''/score/:agentId'', regex = ''^/score/[^/]+$'',
        route_price = ''$0.001'', route_network = Some ''base'',
        route_description = Some ''Agent trust score query'' \<rparr>]
     = find (\<lambda>route. route_method route = toUpperCase ''GET''
                      \<and> pathAligned (routePath route) ''/score/17'')
     [\<lparr> route_key = ''GET /score/:agentId'', route_method = ''GET'',
        routePath = ''/score/:agentId'', regex = ''^/score/[^/]+$'',
        route_price = ''$0.001'', route_network = Some ''base'',
        route_description = Some ''Agent trust score query'' \<rparr>]"
    using matchPaidRoute_alignment [OF example_table,
      of "\<lparr> req_method = ''GET'', req_path = ''/score/17'', req_headers = [], query_demo = QUndefined \<rparr>",
      THEN conjunct1]
    by (simp only: request.select_convs)
  have w2: "matchPaidRoute
     \<lparr> req_method = ''GET'', req_path = ''/score/17/x'', req_headers = [], query_demo = QUndefined \<rparr>
     [\<lparr> route_key = ''GET /score/:agentId'', route_method = ''GET'',
        routePath = ''/score/:agentId'', regex = ''^/score/[^/]+$'',
        route_price = ''$0.001'', route_network = Some ''base'',
        route_description = Some ''Agent trust score query'' \<rparr>]
     = find (\<lambda>route. route_method route = toUpperCase ''GET''
                      \<and> pathAligned (routePath route) ''/score/17/x'')
     [\<lparr> route_key = ''GET /score/:agentId'', route_method = ''GET'',
        routePath = ''/score/:agentId'', regex = ''^/score/[^/]+$'',
        route_price = ''$0.001'', route_network = Some ''base'',
        route_description = Some ''Agent trust score query'' \<rparr>]"
    using matchPaidRoute_alignment [OF example_table,
      of "\<lparr> req_method = ''GET'', req_path = ''/score/17/x'', req_headers = [], query_demo = QUndefined \<rparr>",
      THEN conjunct1]
    by (simp only: request.select_convs)
  show ?thesis unfolding w1 w2 up using aligned_examples by simp
qed

text \<open>Counterexample to C9 as stated: the request method \<^verbatim>\<open>get\<close> matches the rule
  declared as \<^verbatim>\<open>GET\<close>, though the upper-cased declared method is not the request method;
  and the pattern \<^verbatim>\<open>/files/x:id\<close> matches \<^verbatim>\<open>/files/x7\<close>, its placeholder standing for a part
  of a segment.\<close>

theorem matchPaidRoute_alignment_counterexample:
  "buildPaidRoutes exampleFormatter
     [(''GET /score/:agentId'', Some \<lparr> price = Some ''0.001'', network = Some ''base'',
                                      description = Some ''Agent trust score query'' \<rparr>)]
   = Inr [\<lparr> route_key = ''GET /score/:agentId'', route_method = ''GET'',
            routePath = ''/score/:agentId'', regex = ''^/score/[^/]+$'',
            route_price = ''$0.001'', route_network = Some ''base'',
            route_description = Some ''Agent trust score query'' \<rparr>]
   \<and> matchPaidRoute
     \<lparr> req_method = ''get'', req_path = ''/score/17'', req_headers = [], query_demo = QUndefined \<rparr>
     [\<lparr> route_key = ''GET /score/:agentId'', route_method = ''GET'',
        routePath = ''/score/:agentId'', regex = ''^/score/[^/]+$'',
        route_price = ''$0.001'', route_network = Some ''base'',
        route_description = Some ''Agent trust score query'' \<rparr>] \<noteq> None
   \<and> \<not> matches_spec
     \<lparr> req_method = ''get'', req_path = ''/score/17'', req_headers = [], query_demo = QUndefined \<rparr>
     [\<lparr> route_key = ''GET /score/:agentId'', route_method = ''GET'',
        routePath = ''/score/:agentId'', regex = ''^/score/[^/]+$'',
        route_price = ''$0.001'', route_network = Some ''base'',
        route_description = Some ''Agent trust score query'' \<rparr>]
   \<and> buildPaidRoutes exampleFormatter
     [(''GET /files/x:id'', Some \<lparr> price = Some ''0.001'', network = None, description = None \<rparr>)]
   = Inr [\<lparr> route_key = ''GET /files/x:id'', route_method = ''GET'',
            routePath = ''/files/x:id'', regex = ''^/files/x[^/]+$'',
            route_price = ''$0.001'', route_network = None, route_description = None \<rparr>]
   \<and> matchPaidRoute
     \<lparr> req_method = ''GET'', req_path = ''/files/x7'', req_headers = [], query_demo = QUndefined \<rparr>
     [\<lparr> route_key = ''GET /files/x:id'', route_method = ''GET'',
        routePath = ''/files/x:id'', regex = ''^/files/x[^/]+$'',
        route_price = ''$0.001'', route_network = None, route_description = None \<rparr>] \<noteq> None
   \<and> \<not> matches_spec
     \<lparr> req_method = ''GET'', req_path = ''/files/x7'', req_headers = [], query_demo = QUndefined \<rparr>
     [\<lparr> route_key = ''GET /files/x:id'', route_method = ''GET'',
        routePath = ''/files/x:id'', regex = ''^/files/x[^/]+$'',
        route_price = ''$0.001'', route_network = None, route_description = None \<rparr>]"
proof -
  have m1: "matchPaidRoute
     \<lparr> req_method = ''get'', req_path = ''/score/17'', req_headers = [], query_demo = QUndefined \<rparr>
     [\<lparr> route_key = ''GET /score/:agentId'', route_method = ''GET'',
        routePath = ''/score/:agentId'', regex = ''^/score/[^/]+$'',
        route_price = ''$0.001'', route_network = Some ''base'',
        route_description = Some ''Agent trust score query'' \<rparr>] \<noteq> None"
    using matchPaidRoute_compiled
      [of "[\<lparr> route_key = ''GET /score/:agentId'', route_method = ''GET'',
        routePath = ''/score/:agentId'', regex = ''^/score/[^/]+$'',
        route_price = ''$0.001'', route_network = Some ''base'',
        route_description = Some ''Agent trust score query'' \<rparr>]"
        "\<lparr> req_method = ''get'', req_path = ''/score/17'', req_headers = [], query_demo = QUndefined \<rparr>"]
      aligned_examples
    by (simp add: toUpperCase_def toUpperChar_def routeToRegex_def isSyntaxChar_def isNameChar_def)
  have m2: "matchPaidRoute
     \<lparr> req_method = ''GET'', req_path = ''/files/x7'', req_headers = [], query_demo = QUndefined \<rparr>
     [\<lparr> route_key = ''GET /files/x:id'', route_method = ''GET'',
        routePath = ''/files/x:id'', regex = ''^/files/x[^/]+$'',
        route_price = ''$0.001'', route_network = None, route_description = None \<rparr>] \<noteq> None"
    using matchPaidRoute_compiled
      [of "[\<lparr> route_key = ''GET /files/x:id'', route_method = ''GET'',
        routePath = ''/files/x:id'', regex = ''^/files/x[^/]+$'',
        route_price = ''$0.001'', route_network = None, route_description = None \<rparr>]"
        "\<lparr> req_method = ''GET'', req_path = ''/files/x7'', req_headers = [], query_demo = QUndefined \<rparr>"]
      aligned_examples
    by (simp add: toUpperCase_def toUpperChar_def routeToRegex_def isSyntaxChar_def isNameChar_def)
  have s1: "\<not> matches_spec
     \<lparr> req_method = ''get'', req_path = ''/score/17'', req_headers = [], query_demo = QUndefined \<rparr>
     [\<lparr> route_key = ''GET /score/:agentId'', route_method = ''GET'',
        routePath = ''/score/:agentId'', regex = ''^/score/[^/]+$'',
        route_price = ''$0.001'', route_network = Some ''base'',
        route_description = Some ''Agent trust score query'' \<rparr>]"
    by (simp add: matches_spec_def)
  have s2: "\<not> matches_spec
     \<lparr> req_method = ''GET'', req_path = ''/files/x7'', req_headers = [], query_demo = QUndefined \<rparr>
     [\<lparr> route_key = ''GET /files/x:id'', route_method = ''GET'',
        routePath = ''/files/x:id'', regex = ''^/files/x[^/]+$'',
        route_price = ''$0.001'', route_network = None, route_description = None \<rparr>]"
    by (simp add: matches_spec_def pathAligned_spec_def segments_def segmentMatches_spec_def
        isPlaceholder_def isNameChar_def)
  show ?thesis using example_table example_mixed_table m1 m2 s1 s2 by simp
qed

subsection \<open>Gateway selection\<close>

text \<open>
  C4, as amended. When the construction of the real middleware fails with an error, gateway
  selection rethrows that error in mode \<^verbatim>\<open>real\<close>; in mode \<^verbatim>\<open>auto\<close> it builds the stub, and
  when the stub can be built from the same options it returns the stub state with
  \<open>fallbackFromReal = true\<close> and the reason \<^verbatim>\<open>Fell back to stub middleware: \<close> followed by
  the error's message, so that an error comes out exactly in mode \<^verbatim>\<open>real\<close>; when the
  stub cannot be built, its own error comes out.
\<close>

theorem createPaymentMiddleware_fallback:
  assumes "createRealPaymentMiddleware ext fmt opts (optionsEnv processEnv opts) = Inl e"
  shows "(resolveMode opts (optionsEnv processEnv opts) = ''real'' \<longrightarrow>
            createPaymentMiddleware ext fmt processEnv opts = Inl e)
         \<and> (resolveMode opts (optionsEnv processEnv opts) = ''auto'' \<longrightarrow>
            createPaymentMiddleware ext fmt processEnv opts =
              (case createStubPaymentMiddleware fmt opts of
                 Inl e' \<Rightarrow> Inl e'
               | Inr stub \<Rightarrow>
                   Inr (stub\<lparr> fallbackFromReal := True,
                              reason := ''Fell back to stub middleware: '' @ message e \<rparr>)))
         \<and> (\<forall>stub. createStubPaymentMiddleware fmt opts = Inr stub \<longrightarrow>
              ((\<exists>err. createPaymentMiddleware ext fmt processEnv opts = Inl err)
                 = (resolveMode opts (optionsEnv processEnv opts) = ''real''))
              \<and> (resolveMode opts (optionsEnv processEnv opts) = ''auto'' \<longrightarrow>
                   (\<exists>state. createPaymentMiddleware ext fmt processEnv opts = Inr state
                      \<and> mode state = ''stub'' \<and> \<not> usingRealMiddleware state
                      \<and> fallbackFromReal state \<and> reason state \<noteq> [])))"
proof -
  let ?m = "resolveMode opts (optionsEnv processEnv opts)"
  have real: "?m = ''real'' \<longrightarrow> createPaymentMiddleware ext fmt processEnv opts = Inl e"
    using assms by (simp add: createPaymentMiddleware_def Let_def)
  have auto: "?m = ''auto'' \<longrightarrow>
      createPaymentMiddleware ext fmt processEnv opts =
        (case createStubPaymentMiddleware fmt opts of
           Inl e' \<Rightarrow> Inl e'
         | Inr stub \<Rightarrow>
             Inr (stub\<lparr> fallbackFromReal := True,
                        reason := ''Fell back to stub middleware: '' @ message e \<rparr>))"
    using assms by (simp add: createPaymentMiddleware_def Let_def)
  have other: "?m \<noteq> ''real'' \<Longrightarrow> ?m \<noteq> ''auto'' \<Longrightarrow>
      createPaymentMiddleware ext fmt processEnv opts = createStubPaymentMiddleware fmt opts"
    by (simp add: createPaymentMiddleware_def Let_def)
  have stubfields: "\<And>stub. createStubPaymentMiddleware fmt opts = Inr stub \<Longrightarrow>
      mode stub = ''stub'' \<and> \<not> usingRealMiddleware stub"
    by (auto simp add: createStubPaymentMiddleware_def split: sum.splits)
  have ok: "\<forall>stub. createStubPaymentMiddleware fmt opts = Inr stub \<longrightarrow>
      ((\<exists>err. createPaymentMiddleware ext fmt processEnv opts = Inl err) = (?m = ''real''))
      \<and> (?m = ''auto'' \<longrightarrow>
           (\<exists>state. createPaymentMiddleware ext fmt processEnv opts = Inr state
              \<and> mode state = ''stub'' \<and> \<not> usingRealMiddleware state
              \<and> fallbackFromReal state \<and> reason state \<noteq> []))"
  proof (intro allI impI)
    fix stub
    assume stub: "createStubPaymentMiddleware fmt opts = Inr stub"
    have a: "?m = ''auto'' \<Longrightarrow>
        createPaymentMiddleware ext fmt processEnv opts =
          Inr (stub\<lparr> fallbackFromReal := True,
                     reason := ''Fell back to stub middleware: '' @ message e \<rparr>)"
      using auto stub by simp
    have iff: "(\<exists>err. createPaymentMiddleware ext fmt processEnv opts = Inl err) = (?m = ''real'')"
    proof (cases "?m = ''real''")
      case True
      then show ?thesis using real by simp
    next
      case False
      note nr = this
      show ?thesis
      proof (cases "?m = ''auto''")
        case True
        then show ?thesis using a nr by simp
      next
        case False
        then show ?thesis using other [OF nr False] stub nr by simp
      qed
    qed
    have fb: "?m = ''auto'' \<longrightarrow>
           (\<exists>state. createPaymentMiddleware ext fmt processEnv opts = Inr state
              \<and> mode state = ''stub'' \<and> \<not> usingRealMiddleware state
              \<and> fallbackFromReal state \<and> reason state \<noteq> [])"
      using a stubfields [OF stub] by simp
    show "((\<exists>err. createPaymentMiddleware ext fmt processEnv opts = Inl err) = (?m = ''real''))
      \<and> (?m = ''auto'' \<longrightarrow>
           (\<exists>state. createPaymentMiddleware ext fmt processEnv opts = Inr state
              \<and> mode state = ''stub'' \<and> \<not> usingRealMiddleware state
              \<and> fallbackFromReal state \<and> reason state \<noteq> []))"
      by (intro conjI iff fb)
  qed
  show ?thesis by (intro conjI real auto ok)
qed

lemma example_real_fails:
  "createRealPaymentMiddleware
     \<lparr> x402_express = Inr True, facilitatorConfig = (\<lambda>env. Inr ()),
       paymentMiddleware = (\<lambda>address routes. Inr True) \<rparr>
     exampleFormatter
     \<lparr> opt_mode = m,
       routeConfig = [(''GET /score/:agentId'',
                       Some \<lparr> price = Some ''0.001'', network = Some ''base'',
                              description = Some ''Agent trust score query'' \<rparr>)],
       enforceStubPayment = JString ''false'', payTo = None, opt_env = Some (\<lambda>name. None) \<rparr>
     (\<lambda>name. None)
   = Inl missingPayToError"
  by (simp add: createRealPaymentMiddleware_def buildX402RouteConfig_def Let_def
      exampleFormatter_def trim_def isWhiteSpace_def toUpperCase_def toUpperChar_def
      resolvePayToAddress_def isValidEvmAddress_def)

lemma example_stub:
  "createStubPaymentMiddleware exampleFormatter
     \<lparr> opt_mode = m,
       routeConfig = [(''GET /score/:agentId'',
                       Some \<lparr> price = Some ''0.001'', network = Some ''base'',
                              description = Some ''Agent trust score query'' \<rparr>)],
       enforceStubPayment = JString ''false'', payTo = None, opt_env = Some (\<lambda>name. None) \<rparr>
   = Inr \<lparr> mode = ''stub'', usingRealMiddleware = False, fallbackFromReal = False,
           reason = ''Using local x402 stub middleware'',
           middleware = StubMiddleware
             [\<lparr> route_key = ''GET /score/:agentId'', route_method = ''GET'',
                routePath = ''/score/:agentId'', regex = ''^/score/[^/]+$'',
                route_price = ''$0.001'', route_network = Some ''base'',
                route_description = Some ''Agent trust score query'' \<rparr>] False,
           payToAddress = None \<rparr>"
  by (simp add: createStubPaymentMiddleware_def example_table toBoolean_def trim_def
      isWhiteSpace_def toLowerCase_def toLowerChar_def del: buildPaidRoutes.simps)

lemma example_modes:
  "resolveMode \<lparr> opt_mode = None, routeConfig = t, enforceStubPayment = v, payTo = None,
                 opt_env = Some (\<lambda>name. None) \<rparr> (\<lambda>name. None) = ''auto''"
  "resolveMode \<lparr> opt_mode = Some ''real'', routeConfig = t, enforceStubPayment = v, payTo = None,
                 opt_env = Some (\<lambda>name. None) \<rparr> (\<lambda>name. None) = ''real''"
  by (simp_all add: resolveMode_def orDefault_def toLowerCase_def toLowerChar_def)

text \<open>Witness for C4: no candidate for the pay-to address. In mode \<^verbatim>\<open>auto\<close> the result is
  the stub state with the fallback recorded, in mode \<^verbatim>\<open>real\<close> the error.\<close>

theorem createPaymentMiddleware_fallback_witness:
  "createPaymentMiddleware
     \<lparr> x402_express = Inr True, facilitatorConfig = (\<lambda>env. Inr ()),
       paymentMiddleware = (\<lambda>address routes. Inr True) \<rparr>
     exampleFormatter (\<lambda>name. None)
     \<lparr> opt_mode = None,
       routeConfig = [(''GET /score/:agentId'',
                       Some \<lparr> price = Some ''0.001'', network = Some ''base'',
                              description = Some ''Agent trust score query'' \<rparr>)],
       enforceStubPayment = JString ''false'', payTo = None, opt_env = Some (\<lambda>name. None) \<rparr>
   = Inr \<lparr> mode = ''stub'', usingRealMiddleware = False, fallbackFromReal = True,
           reason = ''Fell back to stub middleware: '' @ message missingPayToError,
           middleware = StubMiddleware
             [\<lparr> route_key = ''GET /score/:agentId'', route_method = ''GET'',
                routePath = ''/score/:agentId'', regex = ''^/score/[^/]+$'',
                route_price = ''$0.001'', route_network = Some ''base'',
                route_description = Some ''Agent trust score query'' \<rparr>] False,
           payToAddress = None \<rparr>
   \<and> createPaymentMiddleware
     \<lparr> x402_express = Inr True, facilitatorConfig = (\<lambda>env. Inr ()),
       paymentMiddleware = (\<lambda>address routes. Inr True) \<rparr>
     exampleFormatter (\<lambda>name. None)
     \<lparr> opt_mode = Some ''real'',
       routeConfig = [(''GET /score/:agentId'',
                       Some \<lparr> price = Some ''0.001'', network = Some ''base'',
                              description = Some ''Agent trust score query'' \<rparr>)],
       enforceStubPayment = JString ''false'', payTo = None, opt_env = Some (\<lambda>name. None) \<rparr>
   = Inl missingPayToError"
proof -
  have env: "\<And>o'. opt_env o' = Some (\<lambda>name. None) \<Longrightarrow> optionsEnv (\<lambda>name. None) o' = (\<lambda>name. None)"
    by (simp add: optionsEnv_def)
  note auto_case = createPaymentMiddleware_fallback
      [where ext = "\<lparr> x402_express = Inr True, facilitatorConfig = (\<lambda>env. Inr ()),
                      paymentMiddleware = (\<lambda>address routes. Inr True) \<rparr>"
         and fmt = exampleFormatter and processEnv = "\<lambda>name. None"
         and e = missingPayToError
         and opts = "\<lparr> opt_mode = None,
       routeConfig = [(''GET /score/:agentId'',
                       Some \<lparr> price = Some ''0.001'', network = Some ''base'',
                              description = Some ''Agent trust score query'' \<rparr>)],
       enforceStubPayment = JString ''false'', payTo = None, opt_env = Some (\<lambda>name. None) \<rparr>"]
  note real_case = createPaymentMiddleware_fallback
      [where ext = "\<lparr> x402_express = Inr True, facilitatorConfig = (\<lambda>env. Inr ()),
                      paymentMiddleware = (\<lambda>address routes. Inr True) \<rparr>"
         and fmt = exampleFormatter and processEnv = "\<lambda>name. None"
         and e = missingPayToError
         and opts = "\<lparr> opt_mode = Some ''real'',
       routeConfig = [(''GET /score/:agentId'',
                       Some \<lparr> price = Some ''0.001'', network = Some ''base'',
                              description = Some ''Agent trust score query'' \<rparr>)],
       enforceStubPayment = JString ''false'', payTo = None, opt_env = Some (\<lambda>name. None) \<rparr>"]
  show ?thesis
    using auto_case real_case
    by (simp add: env example_real_fails example_stub example_modes)
qed

text \<open>Counterexample to C4 as stated: the package \<^verbatim>\<open>x402-express\<close> cannot be loaded, the
  route table has an entry that is \<^verbatim>\<open>null\<close>, the mode is \<^verbatim>\<open>auto\<close>. The construction of the
  real middleware fails, and so does that of the stub in the \<^verbatim>\<open>catch\<close> block, on
  \<^verbatim>\<open>config.price\<close>: an error comes out and no state.\<close>

theorem createPaymentMiddleware_fallback_counterexample:
  "resolveMode
     \<lparr> opt_mode = None, routeConfig = [(''GET /score/:agentId'', None)],
       enforceStubPayment = JString ''false'', payTo = None, opt_env = Some (\<lambda>name. None) \<rparr>
     (\<lambda>name. None) = ''auto''
   \<and> createRealPaymentMiddleware
     \<lparr> x402_express = Inl (Error ''Cannot find module x402-express''),
       facilitatorConfig = (\<lambda>env. Inr ()),
       paymentMiddleware = (\<lambda>address routes. Inr True) \<rparr>
     exampleFormatter
     \<lparr> opt_mode = None, routeConfig = [(''GET /score/:agentId'', None)],
       enforceStubPayment = JString ''false'', payTo = None, opt_env = Some (\<lambda>name. None) \<rparr>
     (\<lambda>name. None) = Inl (Error ''Cannot find module x402-express'')
   \<and> createPaymentMiddleware
     \<lparr> x402_express = Inl (Error ''Cannot find module x402-express''),
       facilitatorConfig = (\<lambda>env. Inr ()),
       paymentMiddleware = (\<lambda>address routes. Inr True) \<rparr>
     exampleFormatter (\<lambda>name. None)
     \<lparr> opt_mode = None, routeConfig = [(''GET /score/:agentId'', None)],
       enforceStubPayment = JString ''false'', payTo = None, opt_env = Some (\<lambda>name. None) \<rparr>
   = Inl nullPriceError"
proof -
  have rf: "createRealPaymentMiddleware
     \<lparr> x402_express = Inl (Error ''Cannot find module x402-express''),
       facilitatorConfig = (\<lambda>env. Inr ()),
       paymentMiddleware = (\<lambda>address routes. Inr True) \<rparr>
     exampleFormatter
     \<lparr> opt_mode = None, routeConfig = [(''GET /score/:agentId'', None)],
       enforceStubPayment = JString ''false'', payTo = None, opt_env = Some (\<lambda>name. None) \<rparr>
     (\<lambda>name. None) = Inl (Error ''Cannot find module x402-express'')"
    by (simp add: createRealPaymentMiddleware_def)
  have st: "createStubPaymentMiddleware exampleFormatter
     \<lparr> opt_mode = None, routeConfig = [(''GET /score/:agentId'', None)],
       enforceStubPayment = JString ''false'', payTo = None, opt_env = Some (\<lambda>name. None) \<rparr>
     = Inl nullPriceError"
    by (simp add: createStubPaymentMiddleware_def buildPaidRoute_def Let_def)
  show ?thesis
    using rf st
    by (simp add: createPaymentMiddleware_def Let_def optionsEnv_def example_modes)
qed

subsection \<open>The request path under a stub gateway\<close>

lemma toBoolean_or_false:
  "toBoolean (js_or (env_get env name) (JString ''false'')) False = toBoolean (env_get env name) False"
proof (cases "env name")
  case None
  then show ?thesis
    by (simp add: env_get_def js_or_def toBoolean_def trim_def isWhiteSpace_def
        toLowerCase_def toLowerChar_def)
next
  case (Some s)
  show ?thesis
  proof (cases "s = []")
    case True
    then show ?thesis using Some
      by (simp add: env_get_def js_or_def toBoolean_def trim_def isWhiteSpace_def
          toLowerCase_def toLowerChar_def)
  next
    case False
    then show ?thesis using Some by (simp add: env_get_def js_or_def)
  qed
qed

lemma createReal_usingReal:
  "createRealPaymentMiddleware ext fmt opts env = Inr state \<Longrightarrow> usingRealMiddleware state"
  by (auto simp add: createRealPaymentMiddleware_def split: sum.splits if_splits)

lemma createStub_middleware:
  "createStubPaymentMiddleware fmt opts = Inr state \<Longrightarrow>
   \<not> usingRealMiddleware state
   \<and> (\<exists>routes. buildPaidRoutes fmt (routeConfig opts) = Inr routes
        \<and> middleware state = StubMiddleware routes (toBoolean (enforceStubPayment opts) False))"
  by (auto simp add: createStubPaymentMiddleware_def split: sum.splits)

lemma createPaymentMiddleware_stub:
  assumes "createPaymentMiddleware ext fmt processEnv opts = Inr state"
    and "\<not> usingRealMiddleware state"
  shows "\<exists>routes. buildPaidRoutes fmt (routeConfig opts) = Inr routes
           \<and> middleware state = StubMiddleware routes (toBoolean (enforceStubPayment opts) False)"
proof -
  let ?env = "optionsEnv processEnv opts"
  let ?m = "resolveMode opts ?env"
  show ?thesis
  proof (cases "?m = ''real'' \<or> ?m = ''auto''")
    case False
    then have "createStubPaymentMiddleware fmt opts = Inr state"
      using assms(1) by (simp add: createPaymentMiddleware_def Let_def)
    then show ?thesis using createStub_middleware by blast
  next
    case True
    show ?thesis
    proof (cases "createRealPaymentMiddleware ext fmt opts ?env")
      case (Inr st)
      then have "state = st"
        using assms(1) True by (simp add: createPaymentMiddleware_def Let_def)
      then show ?thesis using createReal_usingReal [OF Inr] assms(2) by simp
    next
      case (Inl e)
      show ?thesis
      proof (cases "createStubPaymentMiddleware fmt opts")
        case (Inl e')
        then show ?thesis
          using assms(1) True \<open>createRealPaymentMiddleware ext fmt opts ?env = Inl e\<close>
          by (simp add: createPaymentMiddleware_def Let_def split: if_splits)
      next
        case (Inr stub)
        then have "state = stub\<lparr> fallbackFromReal := True,
                                  reason := ''Fell back to stub middleware: '' @ message e \<rparr>"
          using assms(1) True \<open>createRealPaymentMiddleware ext fmt opts ?env = Inl e\<close>
          by (simp add: createPaymentMiddleware_def Let_def split: if_splits)
        then show ?thesis using createStub_middleware [OF Inr] by auto
      qed
    qed
  qed
qed

lemma appPayment_stub:
  assumes "appPayment ext fmt env = Inr gateway" and "\<not> usingRealMiddleware gateway"
  shows "\<exists>routes. middleware gateway
           = StubMiddleware routes (toBoolean (env_get env ''X402_STUB_ENFORCE'') False)"
proof -
  obtain pricing where p: "buildRoutePricing fmt env = Inr pricing"
    and c: "createPaymentMiddleware ext fmt env (appOptions env pricing) = Inr gateway"
    using assms(1) by (auto simp add: appPayment_def split: sum.splits)
  from createPaymentMiddleware_stub [OF c assms(2)]
  show ?thesis by (auto simp add: appOptions_def toBoolean_or_false)
qed

lemma stub_not_enforcing:
  "\<not> isPaymentChallenge (case stubPaymentMiddleware routes False req status of
        Respond r \<Rightarrow> r | Next s \<Rightarrow> NotFound)
   \<and> (\<exists>s. stubPaymentMiddleware routes False req status = Next s)"
  by (simp add: stubPaymentMiddleware_def Let_def split: option.splits)

lemma resolve_demo:
  assumes "\<not> usingRealMiddleware gateway"
    and "\<not> hasPaymentProof (extractPaymentHeaders req)"
    and "toBoolean (env_get env ''X402_ALLOW_DEMO_QUERY'') True"
    and "isDemoRequest req"
  shows "resolvePaidRouteAccess req status env gateway =
           (\<lparr> allowFullResponse = False, allowDemoResponse = True,
              paymentRequired = False, paymentReason = None \<rparr>, Some ''demo_free'')"
  using assms by (simp add: resolvePaidRouteAccess_def Let_def)

lemma scoreHandler_demo:
  assumes "resolvePaidRouteAccess req status (app_env a) (payment a) =
           (\<lparr> allowFullResponse = False, allowDemoResponse = True,
              paymentRequired = False, paymentReason = None \<rparr>, Some ''demo_free'')"
    and "resolvePaidRouteAccess req (Some ''demo_free'') (app_env a) (payment a) =
           (\<lparr> allowFullResponse = False, allowDemoResponse = True,
              paymentRequired = False, paymentReason = None \<rparr>, Some ''demo_free'')"
  shows "fst (scoreHandler a req status ledger) =
           (if \<not> readerEnabled a then ServiceUnavailable
            else case ledger of
                   Report r \<Rightarrow> DemoScore (Some (score r))
                                 (resolveVerdict (JNumber (Fin (Number_BigInt (int (score r))))))
                                 (resolveConfidenceBand (Number_BigInt (int (totalFeedback r))))
                 | CallException \<Rightarrow> DemoScore None ''UNKNOWN'' ''none''
                 | ReadError e \<Rightarrow> Failed e)"
  using assms by (simp add: scoreHandler_def split: ledger_read.splits)

lemma reportHandler_demo:
  assumes "resolvePaidRouteAccess req status (app_env a) (payment a) =
           (\<lparr> allowFullResponse = False, allowDemoResponse = True,
              paymentRequired = False, paymentReason = None \<rparr>, Some ''demo_free'')"
    and "resolvePaidRouteAccess req (Some ''demo_free'') (app_env a) (payment a) =
           (\<lparr> allowFullResponse = False, allowDemoResponse = True,
              paymentRequired = False, paymentReason = None \<rparr>, Some ''demo_free'')"
  shows "fst (reportHandler a nowMs req status ledger) =
           (if \<not> readerEnabled a then ServiceUnavailable
            else case ledger of
                   Report r \<Rightarrow> DemoReport (Some (score r))
                                 (resolveVerdict (JNumber (Fin (Number_BigInt (int (score r))))))
                                 (resolveConfidenceBand (Number_BigInt (int (totalFeedback r))))
                                 (flagged (buildRiskReport r (scoringConfig a) (pollIntervalMs a) nowMs))
                 | CallException \<Rightarrow> DemoReport None ''UNKNOWN'' ''none'' False
                 | ReadError e \<Rightarrow> Failed e)"
  using assms by (simp add: reportHandler_def Let_def split: ledger_read.splits)

lemma serve_stub_not_enforcing:
  assumes "middleware gateway = StubMiddleware routes False"
  shows "\<exists>status. serve gateway realGate handler req ledger = fst (handler req status ledger)"
  using assms by (auto simp add: serve_def stubPaymentMiddleware_def Let_def split: option.splits)

text \<open>
  C2, as amended. Take the gateway the application builds, in stub mode, with the
  stub-enforcement override not set, and a request without payment proof, with demo
  allowed and the demo flag set. Then neither paid route answers 402, whether or not the
  gateway fell back from real; the resolver's tier is demo; and when the ledger reader is
  configured and the read returns a record or reverts, the response is the demo payload.
\<close>

theorem demo_before_enforcement:
  assumes "appPayment ext fmt env = Inr gateway"
    and "\<not> usingRealMiddleware gateway"
    and "payment a = gateway" and "app_env a = env"
    and "\<not> hasPaymentProof (extractPaymentHeaders req)"
    and "toBoolean (env_get env ''X402_ALLOW_DEMO_QUERY'') True"
    and "isDemoRequest req"
    and "\<not> toBoolean (env_get env ''X402_STUB_ENFORCE'') False"
  shows "\<not> isPaymentChallenge (serve gateway realGate (scoreHandler a) req ledger)
         \<and> \<not> isPaymentChallenge (serve gateway realGate (reportHandler a nowMs) req ledger)
         \<and> tierOf (fst (resolvePaidRouteAccess req status env gateway)) = Demo
         \<and> (readerEnabled a \<and> (\<forall>e. ledger \<noteq> ReadError e) \<longrightarrow>
               isDemoPayload (serve gateway realGate (scoreHandler a) req ledger)
               \<and> isDemoPayload (serve gateway realGate (reportHandler a nowMs) req ledger))"
proof -
  obtain routes where mw: "middleware gateway = StubMiddleware routes False"
    using appPayment_stub [OF assms(1) assms(2)] assms(8) by auto
  have demo: "\<And>st. resolvePaidRouteAccess req st (app_env a) (payment a) =
           (\<lparr> allowFullResponse = False, allowDemoResponse = True,
              paymentRequired = False, paymentReason = None \<rparr>, Some ''demo_free'')"
    unfolding assms(3) assms(4) by (rule resolve_demo [OF assms(2) assms(5) assms(6) assms(7)])
  obtain s1 where s1: "serve gateway realGate (scoreHandler a) req ledger
      = fst (scoreHandler a req s1 ledger)"
    using serve_stub_not_enforcing [OF mw] by blast
  obtain s2 where s2: "serve gateway realGate (reportHandler a nowMs) req ledger
      = fst (reportHandler a nowMs req s2 ledger)"
    using serve_stub_not_enforcing [OF mw] by blast
  have sc: "\<not> isPaymentChallenge (serve gateway realGate (scoreHandler a) req ledger)"
    unfolding s1 scoreHandler_demo [OF demo demo] by (simp split: ledger_read.splits)
  have rp: "\<not> isPaymentChallenge (serve gateway realGate (reportHandler a nowMs) req ledger)"
    unfolding s2 reportHandler_demo [OF demo demo] by (simp split: ledger_read.splits)
  have tier: "tierOf (fst (resolvePaidRouteAccess req status env gateway)) = Demo"
    using demo [of status] by (simp add: assms(3) assms(4) tierOf_def)
  have payload: "readerEnabled a \<and> (\<forall>e. ledger \<noteq> ReadError e) \<longrightarrow>
               isDemoPayload (serve gateway realGate (scoreHandler a) req ledger)
               \<and> isDemoPayload (serve gateway realGate (reportHandler a nowMs) req ledger)"
    unfolding s1 s2 scoreHandler_demo [OF demo demo] reportHandler_demo [OF demo demo]
    by (cases ledger) simp_all
  show ?thesis by (intro conjI sc rp tier payload)
qed

lemma example_pricing:
  "buildRoutePricing exampleFormatter emptyEnv = Inr examplePricing"
  "buildRoutePricing exampleFormatter enforcingEnv = Inr examplePricing"
  by (simp_all add: buildRoutePricing_def exampleFormatter_def emptyEnv_def enforcingEnv_def
      orDefault_def examplePricing_def)

lemma example_routes:
  "buildPaidRoutes exampleFormatter examplePricing = Inr [scoreRoute, reportRoute]"
  by (simp add: examplePricing_def buildPaidRoute_def exampleFormatter_def Let_def trim_def
      isWhiteSpace_def toUpperCase_def toUpperChar_def routeToRegex_def isSyntaxChar_def
      isNameChar_def scoreRoute_def reportRoute_def)

lemma example_x402_routes:
  "\<exists>routes. buildX402RouteConfig exampleFormatter examplePricing = Inr routes"
  by (simp add: examplePricing_def buildX402RouteConfig_def exampleFormatter_def Let_def trim_def
      isWhiteSpace_def toUpperCase_def toUpperChar_def)

lemma example_fallback_gateway:
  "appPayment exampleExternals exampleFormatter emptyEnv = Inr fallbackGateway"
proof -
  obtain routes where x: "buildX402RouteConfig exampleFormatter examplePricing = Inr routes"
    using example_x402_routes by blast
  have md: "resolveMode (appOptions emptyEnv examplePricing) emptyEnv = ''auto''"
    by (simp add: resolveMode_def appOptions_def emptyEnv_def orDefault_def toLowerCase_def
        toLowerChar_def)
  have rf: "createRealPaymentMiddleware exampleExternals exampleFormatter
      (appOptions emptyEnv examplePricing) emptyEnv = Inl missingPayToError"
    using x
    by (simp add: createRealPaymentMiddleware_def exampleExternals_def appOptions_def
        resolvePayToAddress_def isValidEvmAddress_def emptyEnv_def)
  have st: "createStubPaymentMiddleware exampleFormatter (appOptions emptyEnv examplePricing)
      = Inr (fallbackGateway\<lparr> fallbackFromReal := False,
                               reason := ''Using local x402 stub middleware'' \<rparr>)"
    by (simp add: createStubPaymentMiddleware_def appOptions_def example_routes
        fallbackGateway_def emptyEnv_def env_get_def js_or_def toBoolean_def trim_def
        isWhiteSpace_def toLowerCase_def toLowerChar_def)
  have oe: "optionsEnv emptyEnv (appOptions emptyEnv examplePricing) = emptyEnv"
    by (simp add: optionsEnv_def appOptions_def)
  have "createPaymentMiddleware exampleExternals exampleFormatter emptyEnv
      (appOptions emptyEnv examplePricing) = Inr fallbackGateway"
    unfolding createPaymentMiddleware_def Let_def oe md rf st
    by (simp add: fallbackGateway_def)
  then show ?thesis
    by (simp add: appPayment_def example_pricing)
qed

lemma example_enforcing_gateway:
  "appPayment exampleExternals exampleFormatter enforcingEnv = Inr enforcingGateway"
proof -
  have md: "resolveMode (appOptions enforcingEnv examplePricing) enforcingEnv = ''stub''"
    by (simp add: resolveMode_def appOptions_def enforcingEnv_def emptyEnv_def orDefault_def
        toLowerCase_def toLowerChar_def)
  have st: "createStubPaymentMiddleware exampleFormatter (appOptions enforcingEnv examplePricing)
      = Inr enforcingGateway"
    by (simp add: createStubPaymentMiddleware_def appOptions_def example_routes
        enforcingGateway_def enforcingEnv_def emptyEnv_def env_get_def js_or_def toBoolean_def
        trim_def isWhiteSpace_def toLowerCase_def toLowerChar_def)
  have oe: "optionsEnv enforcingEnv (appOptions enforcingEnv examplePricing) = enforcingEnv"
    by (simp add: optionsEnv_def appOptions_def)
  have "createPaymentMiddleware exampleExternals exampleFormatter enforcingEnv
      (appOptions enforcingEnv examplePricing) = Inr enforcingGateway"
    unfolding createPaymentMiddleware_def Let_def oe md st
    by simp
  then show ?thesis
    by (simp add: appPayment_def example_pricing)
qed

lemma demoRequest_facts:
  "isDemoRequest demoRequest"
  "\<not> hasPaymentProof (extractPaymentHeaders demoRequest)"
  "toBoolean (env_get emptyEnv ''X402_ALLOW_DEMO_QUERY'') True"
  "toBoolean (env_get enforcingEnv ''X402_ALLOW_DEMO_QUERY'') True"
  "\<not> toBoolean (env_get emptyEnv ''X402_STUB_ENFORCE'') False"
  "toBoolean (env_get enforcingEnv ''X402_STUB_ENFORCE'') False"
  by (simp_all add: isDemoRequest_def demoRequest_def trim_def isWhiteSpace_def toLowerCase_def
      toLowerChar_def hasPaymentProof_def extractPaymentHeaders_def truthyHeader_def
      toBoolean_def env_get_def emptyEnv_def enforcingEnv_def)

lemma demoRequest_matches: "matchPaidRoute demoRequest [scoreRoute, reportRoute] = Some scoreRoute"
  by (simp add: matchPaidRoute_def Let_def demoRequest_def scoreRoute_def reportRoute_def
      toUpperCase_def toUpperChar_def regex_test_def parseRegex_def backslash_def
      isSyntaxChar_def)

text \<open>Witness for C2: no variable set, so that the gateway falls back from real for want
  of a pay-to address; \<^verbatim>\<open>GET /score/1?demo=true\<close> is served the demo payload.\<close>

theorem demo_before_enforcement_witness:
  "appPayment exampleExternals exampleFormatter emptyEnv = Inr fallbackGateway
   \<and> fallbackFromReal fallbackGateway
   \<and> \<not> isPaymentChallenge
        (serve fallbackGateway passGate (scoreHandler (exampleApp emptyEnv fallbackGateway True))
           demoRequest (Report exampleRecord))
   \<and> isDemoPayload
        (serve fallbackGateway passGate (scoreHandler (exampleApp emptyEnv fallbackGateway True))
           demoRequest (Report exampleRecord))
   \<and> isDemoPayload
        (serve fallbackGateway passGate (reportHandler (exampleApp emptyEnv fallbackGateway True) 0)
           demoRequest (Report exampleRecord))"
proof -
  have stub: "\<not> usingRealMiddleware fallbackGateway" and fb: "fallbackFromReal fallbackGateway"
    by (simp_all add: fallbackGateway_def)
  have a: "payment (exampleApp emptyEnv fallbackGateway True) = fallbackGateway"
    "app_env (exampleApp emptyEnv fallbackGateway True) = emptyEnv"
    "readerEnabled (exampleApp emptyEnv fallbackGateway True)"
    by (simp_all add: exampleApp_def)
  have l: "\<forall>e. Report exampleRecord \<noteq> ReadError e" by simp
  from demo_before_enforcement
      [OF example_fallback_gateway stub a(1) a(2) demoRequest_facts(2) demoRequest_facts(3)
          demoRequest_facts(1) demoRequest_facts(5),
       of passGate "Report exampleRecord" 0 None]
  show ?thesis using example_fallback_gateway fb a(3) l by blast
qed

text \<open>Counterexample to C2 as stated: with \<^verbatim>\<open>X402_MODE=stub\<close> and
  \<^verbatim>\<open>X402_STUB_ENFORCE=true\<close> the stub middleware answers \<^verbatim>\<open>GET /score/1?demo=true\<close> with
  its own 402 before the handler runs; and with the ledger reader not configured the
  response is 503, not the demo payload.\<close>

theorem demo_before_enforcement_counterexample:
  "appPayment exampleExternals exampleFormatter enforcingEnv = Inr enforcingGateway
   \<and> \<not> hasPaymentProof (extractPaymentHeaders demoRequest)
   \<and> isDemoRequest demoRequest
   \<and> toBoolean (env_get enforcingEnv ''X402_ALLOW_DEMO_QUERY'') True
   \<and> serve enforcingGateway passGate (scoreHandler (exampleApp enforcingEnv enforcingGateway True))
        demoRequest (Report exampleRecord)
      = StubPaymentRequired ''GET /score/:agentId'' ''$0.001'' ''base'' ''Agent trust score query''
   \<and> serve fallbackGateway passGate (scoreHandler (exampleApp emptyEnv fallbackGateway False))
        demoRequest (Report exampleRecord)
      = ServiceUnavailable"
proof -
  have mw1: "middleware enforcingGateway = StubMiddleware [scoreRoute, reportRoute] True"
    by (simp add: enforcingGateway_def)
  have mw2: "middleware fallbackGateway = StubMiddleware [scoreRoute, reportRoute] False"
    by (simp add: fallbackGateway_def)
  have st1: "stubPaymentMiddleware [scoreRoute, reportRoute] True demoRequest None
      = Respond (StubPaymentRequired (route_key scoreRoute) (route_price scoreRoute)
                   (orDefault (route_network scoreRoute) ''base'')
                   (orDefault (route_description scoreRoute) []))"
    by (simp add: stubPaymentMiddleware_def demoRequest_matches demoRequest_facts Let_def)
  have s1: "serve enforcingGateway passGate (scoreHandler (exampleApp enforcingEnv enforcingGateway True))
        demoRequest (Report exampleRecord)
      = StubPaymentRequired ''GET /score/:agentId'' ''$0.001'' ''base'' ''Agent trust score query''"
    unfolding serve_def mw1 runMiddleware.simps st1
    by (simp add: scoreRoute_def orDefault_def)
  have st2: "stubPaymentMiddleware [scoreRoute, reportRoute] False demoRequest None
      = Next (Some ''unpaid_stub'')"
    by (simp add: stubPaymentMiddleware_def demoRequest_matches demoRequest_facts Let_def)
  have res: "resolvePaidRouteAccess demoRequest (Some ''unpaid_stub'') emptyEnv fallbackGateway =
           (\<lparr> allowFullResponse = False, allowDemoResponse = True,
              paymentRequired = False, paymentReason = None \<rparr>, Some ''demo_free'')"
    by (rule resolve_demo) (simp_all add: demoRequest_facts fallbackGateway_def)
  have s2: "serve fallbackGateway passGate (scoreHandler (exampleApp emptyEnv fallbackGateway False))
        demoRequest (Report exampleRecord)
      = ServiceUnavailable"
    unfolding serve_def mw2 runMiddleware.simps st2
    using res by (simp add: scoreHandler_def exampleApp_def)
  show ?thesis
    using example_enforcing_gateway demoRequest_facts s1 s2 by simp
qed

subsection \<open>The authorization header\<close>

lemma extractPaymentHeaders_loop_authorization:
  "extractPaymentHeaders_loop hs relevant ''authorization'' =
     (case lastAuthorization hs of None \<Rightarrow> relevant ''authorization'' | Some t \<Rightarrow> Some t)"
proof (induction hs arbitrary: relevant)
  case Nil
  then show ?case by (simp add: lastAuthorization_def)
next
  case (Cons entry hs)
  obtain key v where entry: "entry = (key, v)" by (cases entry)
  show ?case
  proof (cases "toLowerCase key = ''authorization''")
    case True
    have "extractPaymentHeaders_loop (entry # hs) relevant ''authorization''
        = extractPaymentHeaders_loop hs (relevant(''authorization'' \<mapsto> headerText v)) ''authorization''"
      using True by (simp add: entry Let_def)
    also have "\<dots> = (case lastAuthorization hs of
                       None \<Rightarrow> (relevant(''authorization'' \<mapsto> headerText v)) ''authorization''
                     | Some t \<Rightarrow> Some t)"
      by (rule Cons.IH)
    also have "\<dots> = (case lastAuthorization (entry # hs) of
                       None \<Rightarrow> relevant ''authorization''
                     | Some t \<Rightarrow> Some t)"
      using True by (simp add: entry lastAuthorization_def split: list.splits)
    finally show ?thesis .
  next
    case False
    then have same: "lastAuthorization (entry # hs) = lastAuthorization hs"
      by (simp add: entry lastAuthorization_def)
    have upd: "\<And>text. (relevant(toLowerCase key \<mapsto> text)) ''authorization'' = relevant ''authorization''"
      using False by simp
    have "extractPaymentHeaders_loop (entry # hs) relevant ''authorization''
        = (case lastAuthorization hs of None \<Rightarrow> relevant ''authorization'' | Some t \<Rightarrow> Some t)"
    proof (cases "startsWith (toLowerCase key) ''x-payment'' \<or> startsWith (toLowerCase key) ''x402''
         \<or> toLowerCase key = ''payment'' \<or> toLowerCase key = ''authorization''")
      case True
      then have "extractPaymentHeaders_loop (entry # hs) relevant
          = extractPaymentHeaders_loop hs (relevant(toLowerCase key \<mapsto> headerText v))"
        by (simp add: entry Let_def)
      then show ?thesis by (simp only: Cons.IH upd)
    next
      case False
      then have "extractPaymentHeaders_loop (entry # hs) relevant
          = extractPaymentHeaders_loop hs relevant"
        by (simp add: entry Let_def)
      then show ?thesis by (simp only: Cons.IH)
    qed
    then show ?thesis by (simp only: same)
  qed
qed

lemma authorization_is_proof:
  assumes "lastAuthorization (req_headers req) = Some t" and "t \<noteq> []"
  shows "hasPaymentProof (extractPaymentHeaders req)"
proof -
  have "extractPaymentHeaders req ''authorization'' = Some t"
    using assms(1) by (simp add: extractPaymentHeaders_def extractPaymentHeaders_loop_authorization)
  then have "truthyHeader (extractPaymentHeaders req) ''authorization''"
    using assms(2) by (simp add: truthyHeader_def)
  then show ?thesis by (simp add: hasPaymentProof_def Let_def)
qed

lemma lastAuthorization_distinct:
  assumes "distinct (map (\<lambda>entry. toLowerCase (fst entry)) hs)"
    and "(k, v) \<in> set hs" and "toLowerCase k = ''authorization''"
  shows "lastAuthorization hs = Some (headerText v)"
proof -
  have "filter (\<lambda>entry. toLowerCase (fst entry) = ''authorization'') hs = [(k, v)]"
    using assms
  proof (induction hs)
    case Nil
    then show ?case by simp
  next
    case (Cons e hs)
    show ?case
    proof (cases "e = (k, v)")
      case True
      have "\<forall>x \<in> set hs. toLowerCase (fst x) \<noteq> ''authorization''"
        using Cons.prems(1) Cons.prems(3) True by (auto simp add: image_iff)
      then have "filter (\<lambda>entry. toLowerCase (fst entry) = ''authorization'') hs = []"
        by (simp add: filter_empty_conv)
      then show ?thesis using True Cons.prems(3) by simp
    next
      case False
      then have mem: "(k, v) \<in> set hs" using Cons.prems(2) by simp
      have "toLowerCase (fst e) \<noteq> ''authorization''"
        using Cons.prems(1) Cons.prems(3) mem by (force simp add: image_iff)
      then show ?thesis using Cons.IH mem Cons.prems by simp
    qed
  qed
  then show ?thesis by (simp add: lastAuthorization_def)
qed

lemma resolve_paid:
  assumes "\<not> usingRealMiddleware gateway" and "hasPaymentProof (extractPaymentHeaders req)"
  shows "resolvePaidRouteAccess req status env gateway =
           (\<lparr> allowFullResponse = True, allowDemoResponse = False,
              paymentRequired = False, paymentReason = None \<rparr>, Some ''paid_stub'')"
  using assms by (simp add: resolvePaidRouteAccess_def Let_def)

lemma stub_passes_paid:
  assumes "hasPaymentProof (extractPaymentHeaders req)"
  shows "\<exists>s. stubPaymentMiddleware routes enforce req status = Next s"
  using assms by (simp add: stubPaymentMiddleware_def Let_def split: option.splits)

lemma scoreHandler_paid:
  assumes "\<And>st. resolvePaidRouteAccess req st (app_env a) (payment a) =
           (\<lparr> allowFullResponse = True, allowDemoResponse = False,
              paymentRequired = False, paymentReason = None \<rparr>, Some ''paid_stub'')"
  shows "\<not> isPaymentChallenge (fst (scoreHandler a req status ledger))"
  using assms by (simp add: scoreHandler_def split: ledger_read.splits)

lemma reportHandler_paid:
  assumes "\<And>st. resolvePaidRouteAccess req st (app_env a) (payment a) =
           (\<lparr> allowFullResponse = True, allowDemoResponse = False,
              paymentRequired = False, paymentReason = None \<rparr>, Some ''paid_stub'')"
  shows "\<not> isPaymentChallenge (fst (reportHandler a nowMs req status ledger))"
  using assms by (simp add: reportHandler_def Let_def split: ledger_read.splits)

lemma last_authorization_unlocks_full:
  assumes "lastAuthorization (req_headers req) = Some t" and "t \<noteq> []"
    and "\<not> usingRealMiddleware gateway"
    and "middleware gateway = StubMiddleware routes enforce"
    and "payment a = gateway" and "app_env a = env"
  shows "hasPaymentProof (extractPaymentHeaders req)
         \<and> resolvePaidRouteAccess req status env gateway =
             (\<lparr> allowFullResponse = True, allowDemoResponse = False,
                paymentRequired = False, paymentReason = None \<rparr>, Some ''paid_stub'')
         \<and> tierOf (fst (resolvePaidRouteAccess req status env gateway)) = Full
         \<and> \<not> isPaymentChallenge (serve gateway realGate (scoreHandler a) req ledger)
         \<and> \<not> isPaymentChallenge (serve gateway realGate (reportHandler a nowMs) req ledger)"
proof -
  have paid: "hasPaymentProof (extractPaymentHeaders req)"
    using assms(1) assms(2) by (rule authorization_is_proof)
  have res: "\<And>st. resolvePaidRouteAccess req st env gateway =
           (\<lparr> allowFullResponse = True, allowDemoResponse = False,
              paymentRequired = False, paymentReason = None \<rparr>, Some ''paid_stub'')"
    using assms(3) paid by (rule resolve_paid)
  have tier: "tierOf (fst (resolvePaidRouteAccess req status env gateway)) = Full"
    by (simp add: res tierOf_def)
  obtain s where s: "stubPaymentMiddleware routes enforce req None = Next s"
    using stub_passes_paid [OF paid] by blast
  have res': "\<And>st. resolvePaidRouteAccess req st (app_env a) (payment a) =
           (\<lparr> allowFullResponse = True, allowDemoResponse = False,
              paymentRequired = False, paymentReason = None \<rparr>, Some ''paid_stub'')"
    unfolding assms(5) assms(6) by (rule res)
  have sc: "\<not> isPaymentChallenge (serve gateway realGate (scoreHandler a) req ledger)"
    unfolding serve_def assms(4) runMiddleware.simps s
    using scoreHandler_paid [OF res'] by simp
  have rp: "\<not> isPaymentChallenge (serve gateway realGate (reportHandler a nowMs) req ledger)"
    unfolding serve_def assms(4) runMiddleware.simps s
    using reportHandler_paid [OF res'] by simp
  show ?thesis by (intro conjI paid res tier sc rp)
qed

text \<open>
  C10. Take a request whose header object, with one entry per name without regard to
  case as the HTTP layer delivers it, has an entry named \<^verbatim>\<open>authorization\<close>, compared
  without regard to case, with a non-empty value. Whatever the value, the request
  carries payment proof; under a stub gateway it resolves to the full tier tagged
  \<^verbatim>\<open>paid_stub\<close>, and neither the stub middleware nor a handler answers 402.
\<close>

theorem authorization_header_unlocks_full:
  assumes "distinct (map (\<lambda>entry. toLowerCase (fst entry)) (req_headers req))"
    and "(k, v) \<in> set (req_headers req)" and "toLowerCase k = ''authorization''"
    and "headerText v \<noteq> []"
    and "\<not> usingRealMiddleware gateway"
    and "middleware gateway = StubMiddleware routes enforce"
    and "payment a = gateway" and "app_env a = env"
  shows "hasPaymentProof (extractPaymentHeaders req)
         \<and> resolvePaidRouteAccess req status env gateway =
             (\<lparr> allowFullResponse = True, allowDemoResponse = False,
                paymentRequired = False, paymentReason = None \<rparr>, Some ''paid_stub'')
         \<and> tierOf (fst (resolvePaidRouteAccess req status env gateway)) = Full
         \<and> \<not> isPaymentChallenge (serve gateway realGate (scoreHandler a) req ledger)
         \<and> \<not> isPaymentChallenge (serve gateway realGate (reportHandler a nowMs) req ledger)"
proof -
  have "lastAuthorization (req_headers req) = Some (headerText v)"
    using assms(1) assms(2) assms(3) by (rule lastAuthorization_distinct)
  then show ?thesis
    using assms(4) assms(5) assms(6) assms(7) assms(8) by (rule last_authorization_unlocks_full)
qed

text \<open>Witness for C10: one header \<^verbatim>\<open>Authorization: anything\<close>, under the stub gateway with
  enforcement.\<close>

theorem authorization_header_unlocks_full_witness:
  "hasPaymentProof (extractPaymentHeaders authorizedRequest)
   \<and> tierOf (fst (resolvePaidRouteAccess authorizedRequest None enforcingEnv enforcingGateway)) = Full
   \<and> snd (resolvePaidRouteAccess authorizedRequest None enforcingEnv enforcingGateway)
       = Some ''paid_stub''
   \<and> \<not> isPaymentChallenge
        (serve enforcingGateway passGate
           (scoreHandler (exampleApp enforcingEnv enforcingGateway True))
           authorizedRequest (Report exampleRecord))
   \<and> \<not> isPaymentChallenge
        (serve enforcingGateway passGate
           (reportHandler (exampleApp enforcingEnv enforcingGateway True) 0)
           authorizedRequest (Report exampleRecord))
   \<and> distinct (map (\<lambda>entry. toLowerCase (fst entry)) (req_headers authorizedRequest))
   \<and> (''Authorization'', HString ''anything'') \<in> set (req_headers authorizedRequest)
   \<and> toLowerCase ''Authorization'' = ''authorization''
   \<and> headerText (HString ''anything'') \<noteq> []"
proof -
  have d: "distinct (map (\<lambda>entry. toLowerCase (fst entry)) (req_headers authorizedRequest))"
    by (simp add: authorizedRequest_def)
  have m: "(''Authorization'', HString ''anything'') \<in> set (req_headers authorizedRequest)"
    by (simp add: authorizedRequest_def)
  have low: "toLowerCase ''Authorization'' = ''authorization''"
    by (simp add: toLowerCase_def toLowerChar_def)
  have ne: "headerText (HString ''anything'') \<noteq> []" by simp
  have stub: "\<not> usingRealMiddleware enforcingGateway"
    and mw: "middleware enforcingGateway = StubMiddleware [scoreRoute, reportRoute] True"
    by (simp_all add: enforcingGateway_def)
  have a: "payment (exampleApp enforcingEnv enforcingGateway True) = enforcingGateway"
    "app_env (exampleApp enforcingEnv enforcingGateway True) = enforcingEnv"
    by (simp_all add: exampleApp_def)
  from authorization_header_unlocks_full
      [OF d m low ne stub mw a(1) a(2),
       of None passGate "Report exampleRecord" 0]
  show ?thesis using d m low by (simp add: tierOf_def)
qed

end
